(* ===== verification/Prelude.thy ===== *)
theory Prelude
  imports Main "HOL-Library.Sublist" "HOL-Library.Char_ord" "HOL-Library.List_Lexorder" "HOL-Library.Word"
begin

text \<open>
  The vocabulary the components share. A Rust \<open>str\<close> is UTF-8, so it is modelled as the
  list of its bytes: \<open>string\<close> is \<open>char list\<close> and a \<open>char\<close> is one byte, \<open>length\<close> is
  \<open>str::len\<close>, and the byte order of \<open>char\<close> lifted lexicographically to lists (Char\_ord and
  List\_Lexorder) is the \<open>Ord\<close> of \<open>str\<close>. The operations of \<open>str\<close> and \<open>Option\<close> that the
  sources use are defined here with the lemmas the component proofs rest on. A
  \<open>Result<T, E>\<close> is \<open>'e + 'a\<close>, \<open>Err\<close> on the left.
\<close>

section \<open>Results and options\<close>

abbreviation Err :: "'e \<Rightarrow> 'e + 'a" where
  "Err \<equiv> Inl"

abbreviation Ok :: "'a \<Rightarrow> 'e + 'a" where
  "Ok \<equiv> Inr"

definition is_ok :: "'e + 'a \<Rightarrow> bool" where
  "is_ok r = (case r of Err _ \<Rightarrow> False | Ok _ \<Rightarrow> True)"

definition is_some_and :: "'a option \<Rightarrow> ('a \<Rightarrow> bool) \<Rightarrow> bool" where
  "is_some_and x p = (case x of None \<Rightarrow> False | Some a \<Rightarrow> p a)"

definition unwrap_or :: "'a option \<Rightarrow> 'a \<Rightarrow> 'a" where
  "unwrap_or x d = (case x of None \<Rightarrow> d | Some a \<Rightarrow> a)"

section \<open>Bytes and ASCII classes\<close>

definition byte :: "char \<Rightarrow> nat" where
  "byte c = of_char c"

definition is_ascii_lowercase :: "char \<Rightarrow> bool" where
  "is_ascii_lowercase c \<longleftrightarrow> 97 \<le> byte c \<and> byte c \<le> 122"

definition is_ascii_uppercase :: "char \<Rightarrow> bool" where
  "is_ascii_uppercase c \<longleftrightarrow> 65 \<le> byte c \<and> byte c \<le> 90"

definition is_ascii_digit :: "char \<Rightarrow> bool" where
  "is_ascii_digit c \<longleftrightarrow> 48 \<le> byte c \<and> byte c \<le> 57"

definition is_ascii_alphabetic :: "char \<Rightarrow> bool" where
  "is_ascii_alphabetic c \<longleftrightarrow> is_ascii_lowercase c \<or> is_ascii_uppercase c"

definition is_ascii_alphanumeric :: "char \<Rightarrow> bool" where
  "is_ascii_alphanumeric c \<longleftrightarrow> is_ascii_alphabetic c \<or> is_ascii_digit c"

definition to_ascii_lowercase :: "string \<Rightarrow> string" where
  "to_ascii_lowercase s =
     map (\<lambda>c. if is_ascii_uppercase c then char_of (byte c + 32) else c) s"

section \<open>Searching and splitting\<close>

fun str_find :: "char \<Rightarrow> string \<Rightarrow> nat option" where
  "str_find c [] = None"
| "str_find c (x # xs) = (if x = c then Some 0 else map_option Suc (str_find c xs))"

fun str_rfind :: "char \<Rightarrow> string \<Rightarrow> nat option" where
  "str_rfind c [] = None"
| "str_rfind c (x # xs) =
     (case str_rfind c xs of
        Some i \<Rightarrow> Some (Suc i)
      | None \<Rightarrow> (if x = c then Some 0 else None))"

fun find_any :: "char list \<Rightarrow> string \<Rightarrow> nat option" where
  "find_any cs [] = None"
| "find_any cs (x # xs) = (if x \<in> set cs then Some 0 else map_option Suc (find_any cs xs))"

definition split_once :: "char \<Rightarrow> string \<Rightarrow> (string \<times> string) option" where
  "split_once c s = map_option (\<lambda>i. (take i s, drop (Suc i) s)) (str_find c s)"

definition rsplit_once :: "char \<Rightarrow> string \<Rightarrow> (string \<times> string) option" where
  "rsplit_once c s = map_option (\<lambda>i. (take i s, drop (Suc i) s)) (str_rfind c s)"

definition split_once_any :: "char list \<Rightarrow> string \<Rightarrow> (string \<times> string) option" where
  "split_once_any cs s = map_option (\<lambda>i. (take i s, drop (Suc i) s)) (find_any cs s)"

fun split_on :: "char \<Rightarrow> string \<Rightarrow> string list" where
  "split_on c [] = [[]]"
| "split_on c (x # xs) =
     (if x = c then [] # split_on c xs
      else (case split_on c xs of [] \<Rightarrow> [[x]] | y # ys \<Rightarrow> (x # y) # ys))"

fun join :: "string \<Rightarrow> string list \<Rightarrow> string" where
  "join sep [] = []"
| "join sep [x] = x"
| "join sep (x # y # ys) = x @ sep @ join sep (y # ys)"

definition starts_with :: "string \<Rightarrow> string \<Rightarrow> bool" where
  "starts_with s p \<longleftrightarrow> prefix p s"

definition ends_with :: "string \<Rightarrow> string \<Rightarrow> bool" where
  "ends_with s p \<longleftrightarrow> suffix p s"

definition strip_prefix :: "string \<Rightarrow> string \<Rightarrow> string option" where
  "strip_prefix s p = (if prefix p s then Some (drop (length p) s) else None)"

definition strip_suffix :: "string \<Rightarrow> string \<Rightarrow> string option" where
  "strip_suffix s p = (if suffix p s then Some (take (length s - length p) s) else None)"

definition replace_char :: "char \<Rightarrow> char \<Rightarrow> string \<Rightarrow> string" where
  "replace_char a b s = map (\<lambda>c. if c = a then b else c) s"

section \<open>Unicode white space in UTF-8\<close>

text \<open>
  \<open>ws_len s\<close> is the number of bytes of the \<open>White_Space\<close> character at the head of \<open>s\<close>, 0
  when there is none: the ASCII ones (U+0009 to U+000D, U+0020), U+0085, U+00A0, U+1680,
  U+2000 to U+200A, U+2028, U+2029, U+202F, U+205F and U+3000. UTF-8 is self-synchronising,
  so scanning byte by byte finds exactly the white-space characters of a valid string.
\<close>

definition ascii_ws :: "char \<Rightarrow> bool" where
  "ascii_ws c \<longleftrightarrow> (9 \<le> byte c \<and> byte c \<le> 13) \<or> byte c = 32"

definition ws2 :: "char \<Rightarrow> char \<Rightarrow> bool" where
  "ws2 a b \<longleftrightarrow> byte a = 0xC2 \<and> (byte b = 0x85 \<or> byte b = 0xA0)"

definition ws3 :: "char \<Rightarrow> char \<Rightarrow> char \<Rightarrow> bool" where
  "ws3 a b c \<longleftrightarrow>
     (byte a = 0xE1 \<and> byte b = 0x9A \<and> byte c = 0x80) \<or>
     (byte a = 0xE2 \<and> byte b = 0x80 \<and>
        ((0x80 \<le> byte c \<and> byte c \<le> 0x8A) \<or> byte c = 0xA8 \<or> byte c = 0xA9 \<or> byte c = 0xAF)) \<or>
     (byte a = 0xE2 \<and> byte b = 0x81 \<and> byte c = 0x9F) \<or>
     (byte a = 0xE3 \<and> byte b = 0x80 \<and> byte c = 0x80)"

definition ws_len :: "string \<Rightarrow> nat" where
  "ws_len s =
     (case s of
        [] \<Rightarrow> 0
      | a # s1 \<Rightarrow>
          if ascii_ws a then 1
          else (case s1 of
                  [] \<Rightarrow> 0
                | b # s2 \<Rightarrow>
                    if ws2 a b then 2
                    else (case s2 of [] \<Rightarrow> 0 | c # _ \<Rightarrow> if ws3 a b c then 3 else 0)))"

fun split_ws :: "string \<Rightarrow> string \<Rightarrow> string list" where
  "split_ws acc [] = (if acc = [] then [] else [rev acc])"
| "split_ws acc (c # s) =
     (let n = ws_len (c # s) in
      if n = 0 then split_ws (c # acc) s
      else (if acc = [] then [] else [rev acc]) @ split_ws [] (drop (n - 1) s))"

definition split_whitespace :: "string \<Rightarrow> string list" where
  "split_whitespace s = split_ws [] s"

fun trim_start :: "string \<Rightarrow> string" where
  "trim_start [] = []"
| "trim_start (c # s) =
     (let n = ws_len (c # s) in if n = 0 then c # s else trim_start (drop (n - 1) s))"

definition ws_end :: "string \<Rightarrow> nat" where
  "ws_end s =
     (case filter (\<lambda>n. n \<le> length s \<and> ws_len (drop (length s - n) s) = n) [1, 2, 3] of
        [] \<Rightarrow> 0 | n # _ \<Rightarrow> n)"

function trim_end :: "string \<Rightarrow> string" where
  "trim_end s =
     (if s \<noteq> [] \<and> ws_end s \<noteq> 0 then trim_end (take (length s - ws_end s) s) else s)"
  by pat_completeness auto
termination
  by (relation "measure length") auto

declare trim_end.simps [simp del]

definition trim :: "string \<Rightarrow> string" where
  "trim s = trim_end (trim_start s)"

section \<open>JSON values\<close>

text \<open>
  \<open>serde_json::Value\<close>: a number is an unsigned or a negative 64-bit integer or the bits of a
  double, an object a list of its entries in key order (the crate's map is a B-tree here).
\<close>

datatype json_number = PosInt "64 word" | NegInt "64 word" | FloatBits "64 word"

datatype json =
    JNull
  | JBool bool
  | JNumber json_number
  | JString string
  | JArray "json list"
  | JObject "(string \<times> json) list"

definition json_get :: "json \<Rightarrow> string \<Rightarrow> json option" where
  "json_get v key = (case v of JObject kvs \<Rightarrow> map_of kvs key | _ \<Rightarrow> None)"

definition json_as_str :: "json \<Rightarrow> string option" where
  "json_as_str v = (case v of JString s \<Rightarrow> Some s | _ \<Rightarrow> None)"

definition json_as_array :: "json \<Rightarrow> json list option" where
  "json_as_array v = (case v of JArray xs \<Rightarrow> Some xs | _ \<Rightarrow> None)"

definition json_is_null :: "json \<Rightarrow> bool" where
  "json_is_null v = (case v of JNull \<Rightarrow> True | _ \<Rightarrow> False)"

section \<open>Lemmas on splitting and joining\<close>

lemma str_find_None_iff [simp]: "str_find c s = None \<longleftrightarrow> c \<notin> set s"
  by (induction s) auto

lemma str_find_none [simp]: "c \<notin> set s \<Longrightarrow> str_find c s = None"
  by simp

lemma str_find_append_in [simp]: "c \<in> set xs \<Longrightarrow> str_find c (xs @ ys) = str_find c xs"
  by (induction xs) auto

lemma str_find_append_absent:
  "c \<notin> set xs \<Longrightarrow> str_find c (xs @ ys) = map_option (\<lambda>i. length xs + i) (str_find c ys)"
proof (induction xs)
  case Nil
  then show ?case by (cases "str_find c ys") (simp_all del: str_find_None_iff)
next
  case (Cons x xs)
  then show ?case by (cases "str_find c ys") (auto simp del: str_find_None_iff)
qed

lemma str_find_absent: "c \<notin> set xs \<Longrightarrow> str_find c (xs @ c # ys) = Some (length xs)"
  by (induction xs) auto

lemma str_find_Some_iff:
  "str_find c s = Some i \<longleftrightarrow> (\<exists>xs ys. s = xs @ c # ys \<and> c \<notin> set xs \<and> i = length xs)"
proof (induction s arbitrary: i)
  case Nil
  then show ?case by simp
next
  case (Cons x s)
  show ?case
  proof (cases "x = c")
    case True
    then show ?thesis
      by (auto simp: Cons_eq_append_conv)
  next
    case False
    have "str_find c (x # s) = Some i \<longleftrightarrow> (\<exists>j. str_find c s = Some j \<and> i = Suc j)"
      using False by auto
    also have "\<dots> \<longleftrightarrow> (\<exists>xs ys. s = xs @ c # ys \<and> c \<notin> set xs \<and> i = Suc (length xs))"
      using Cons.IH by auto
    also have "\<dots> \<longleftrightarrow> (\<exists>xs ys. x # s = xs @ c # ys \<and> c \<notin> set xs \<and> i = length xs)"
      using False by (auto simp: Cons_eq_append_conv) (metis list.set_intros(1) set_ConsD length_Cons)+
    finally show ?thesis .
  qed
qed

lemma str_rfind_None_iff [simp]: "str_rfind c s = None \<longleftrightarrow> c \<notin> set s"
  by (induction s) (auto split: option.splits)

lemma str_rfind_Some:
  "str_rfind c s = Some i \<Longrightarrow> i < length s \<and> s ! i = c \<and> c \<notin> set (drop (Suc i) s)"
proof (induction s arbitrary: i)
  case (Cons x s)
  then show ?case
    by (auto split: if_splits option.splits)
qed simp

lemma split_once_Some_iff:
  "split_once c s = Some (a, b) \<longleftrightarrow> s = a @ c # b \<and> c \<notin> set a"
proof
  assume "split_once c s = Some (a, b)"
  then show "s = a @ c # b \<and> c \<notin> set a"
    by (auto simp: split_once_def str_find_Some_iff)
next
  assume "s = a @ c # b \<and> c \<notin> set a"
  then show "split_once c s = Some (a, b)"
    by (simp add: split_once_def str_find_absent)
qed

lemma split_once_absent [simp]: "c \<notin> set s \<Longrightarrow> split_once c s = None"
  by (simp add: split_once_def)

lemma split_once_at [simp]: "c \<notin> set a \<Longrightarrow> split_once c (a @ c # b) = Some (a, b)"
  by (simp add: split_once_Some_iff)

lemma split_on_nonempty [simp]: "split_on c s \<noteq> []"
  by (induction s) (auto split: list.splits)

lemma split_on_absent [simp]: "c \<notin> set s \<Longrightarrow> split_on c s = [s]"
  by (induction s) auto

lemma split_on_append [simp]:
  "c \<notin> set a \<Longrightarrow> split_on c (a @ c # b) = a # split_on c b"
  by (induction a) auto

lemma split_on_pieces: "p \<in> set (split_on c s) \<Longrightarrow> c \<notin> set p"
proof (induction s arbitrary: p)
  case Nil
  then show ?case by simp
next
  case (Cons x s)
  then show ?case by (cases "split_on c s") (auto split: if_splits)
qed

lemma join_Cons: "xs \<noteq> [] \<Longrightarrow> join sep (x # xs) = x @ sep @ join sep xs"
  by (cases xs) auto

lemma join_split_on [simp]: "join [c] (split_on c s) = s"
proof (induction s)
  case Nil
  then show ?case by simp
next
  case (Cons x s)
  obtain y ys where ys: "split_on c s = y # ys"
    by (cases "split_on c s") auto
  with Cons show ?case by (cases ys) auto
qed

lemma split_on_join:
  "xs \<noteq> [] \<Longrightarrow> \<forall>x\<in>set xs. c \<notin> set x \<Longrightarrow> split_on c (join [c] xs) = xs"
proof (induction xs)
  case (Cons x xs)
  then show ?case by (cases xs) auto
qed simp

lemma join_append:
  "xs \<noteq> [] \<Longrightarrow> ys \<noteq> [] \<Longrightarrow> join sep (xs @ ys) = join sep xs @ sep @ join sep ys"
proof (induction xs)
  case (Cons x xs)
  then show ?case by (cases "xs = []") (auto simp: join_Cons)
qed simp

lemma join_singleton_concat:
  "join [c] (x # xs) = x @ concat (map (\<lambda>y. c # y) xs)"
  by (induction xs arbitrary: x) auto

lemma strip_suffix_Some_iff: "strip_suffix s p = Some t \<longleftrightarrow> s = t @ p"
  by (auto simp: strip_suffix_def suffix_def)

lemma strip_suffix_append [simp]: "strip_suffix (t @ p) p = Some t"
  by (simp add: strip_suffix_Some_iff)

lemma strip_prefix_Some_iff: "strip_prefix s p = Some t \<longleftrightarrow> s = p @ t"
  by (auto simp: strip_prefix_def prefix_def)

lemma strip_prefix_append [simp]: "strip_prefix (p @ t) p = Some t"
  by (simp add: strip_prefix_Some_iff)

section \<open>Collecting options\<close>

lemma those_Some_iff: "those xs = Some ys \<longleftrightarrow> xs = map Some ys"
proof (induction xs arbitrary: ys)
  case Nil
  then show ?case by auto
next
  case (Cons x xs)
  then show ?case by (cases x; cases ys) auto
qed

lemma those_map_Some [simp]: "those (map Some xs) = Some xs"
  by (simp add: those_Some_iff)

lemma list_ex_map_filter:
  "list_ex P (List.map_filter f xs) \<longleftrightarrow> (\<exists>x\<in>set xs. \<exists>y. f x = Some y \<and> P y)"
  by (induction xs) (auto simp: List.map_filter_def list_ex_iff)

lemma list_all_map_filter:
  "list_all P (List.map_filter f xs) \<longleftrightarrow> (\<forall>x\<in>set xs. \<forall>y. f x = Some y \<longrightarrow> P y)"
  by (induction xs) (auto simp: List.map_filter_def list_all_iff)

section \<open>Sorting and removing adjacent duplicates\<close>

lemma strict_sorted_remdups_adj:
  fixes xs :: "'a::linorder list"
  shows "sorted xs \<Longrightarrow> sorted_wrt (<) (remdups_adj xs)"
proof (induction xs rule: remdups_adj.induct)
  case (3 x y xs)
  then show ?case by (cases "x = y") force+
qed simp_all

lemma remdups_adj_sort: "remdups_adj (sort xs) = sorted_list_of_set (set xs)"
proof (rule sorted_distinct_set_unique)
  have "sorted_wrt (<) (remdups_adj (sort xs))"
    by (simp add: strict_sorted_remdups_adj)
  then show "distinct (remdups_adj (sort xs))"
    by (simp add: strict_sorted_iff)
qed simp_all

section \<open>Words between white space\<close>

fun ws_free :: "string \<Rightarrow> bool" where
  "ws_free [] = True"
| "ws_free (c # s) \<longleftrightarrow> ws_len (c # s) = 0 \<and> ws_free s"

lemma ws_free_drop: "ws_free s \<longleftrightarrow> (\<forall>i<length s. ws_len (drop i s) = 0)"
proof (induction s)
  case (Cons c s)
  then show ?case by (simp add: All_less_Suc2)
qed simp

lemma ws_len_append:
  assumes "ws_len (p @ z) = 0"
  shows "ws_len p = 0"
proof (cases p)
  case (Cons a p')
  note a = this
  show ?thesis
  proof (cases p')
    case Nil
    with a assms show ?thesis by (simp add: ws_len_def split: if_split_asm)
  next
    case (Cons b p'')
    with a assms show ?thesis by (cases p'') (simp_all add: ws_len_def split: if_split_asm)
  qed
qed (simp add: ws_len_def)

lemma ws_len_prefix: "prefix p s \<Longrightarrow> ws_len s = 0 \<Longrightarrow> ws_len p = 0"
  by (elim prefixE) (simp add: ws_len_append)

lemma ws_len_space:
  assumes "ws_len t = 0" and "t \<noteq> []"
  shows "ws_len (t @ CHR '' '' # r) = 0"
proof -
  have sp: "\<not> ws2 a CHR '' ''" "\<not> ws3 a CHR '' '' c" "\<not> ws3 a b CHR '' ''" for a b c
    by (simp_all add: ws2_def ws3_def byte_def)
  obtain a t' where t: "t = a # t'" using assms(2) by (cases t) auto
  show ?thesis
  proof (cases t')
    case Nil
    with assms t sp show ?thesis by (cases r) (simp_all add: ws_len_def split: if_split_asm)
  next
    case (Cons b t'')
    with assms t sp show ?thesis by (cases t'') (simp_all add: ws_len_def split: if_split_asm)
  qed
qed

lemma split_ws_space:
  "ws_free t \<Longrightarrow> acc \<noteq> [] \<or> t \<noteq> [] \<Longrightarrow>
     split_ws acc (t @ CHR '' '' # r) = (rev acc @ t) # split_ws [] r"
proof (induction t arbitrary: acc)
  case Nil
  have "ws_len (CHR '' '' # r) = 1" by (simp add: ws_len_def ascii_ws_def byte_def)
  with Nil show ?case by simp
next
  case (Cons c t)
  then have "ws_len ((c # t) @ CHR '' '' # r) = 0" by (intro ws_len_space) auto
  with Cons show ?case by simp
qed

lemma split_ws_end: "ws_free t \<Longrightarrow> acc \<noteq> [] \<or> t \<noteq> [] \<Longrightarrow> split_ws acc t = [rev acc @ t]"
  by (induction t arbitrary: acc) auto

lemma split_whitespace_join:
  "list_all (\<lambda>t. t \<noteq> [] \<and> ws_free t) ts \<Longrightarrow> split_whitespace (join '' '' ts) = ts"
  unfolding split_whitespace_def
proof (induction ts)
  case (Cons t ts)
  then show ?case by (cases ts) (auto simp: split_ws_space split_ws_end)
qed simp

lemma split_ws_words:
  "\<forall>i<length acc. ws_len (drop i (rev acc @ s)) = 0 \<Longrightarrow>
     list_all (\<lambda>t. t \<noteq> [] \<and> ws_free t) (split_ws acc s)"
proof (induction acc s rule: split_ws.induct)
  case (1 acc)
  then show ?case by (auto simp: ws_free_drop)
next
  case (2 acc c s)
  have word: "ws_free (rev acc)"
    unfolding ws_free_drop
  proof (intro allI impI)
    fix i assume i: "i < length (rev acc)"
    have "prefix (drop i (rev acc)) (drop i (rev acc @ c # s))" using i by simp
    moreover have "ws_len (drop i (rev acc @ c # s)) = 0" using 2(3) i by simp
    ultimately show "ws_len (drop i (rev acc)) = 0" by (rule ws_len_prefix)
  qed
  show ?case
  proof (cases "ws_len (c # s) = 0")
    case True
    have "\<forall>i<length (c # acc). ws_len (drop i (rev (c # acc) @ s)) = 0"
      using 2(3) True by (auto simp: less_Suc_eq)
    with 2(1) True show ?thesis by simp
  next
    case False
    with 2(2) word show ?thesis by simp
  qed
qed

lemma split_whitespace_words: "list_all (\<lambda>t. t \<noteq> [] \<and> ws_free t) (split_whitespace s)"
  unfolding split_whitespace_def by (rule split_ws_words) simp

end
