(* ===== verification/Nsid.thy ===== *)
theory Nsid
  imports Prelude
begin

text \<open>
  NSID validation (crates/happyview-nsid/src/lib.rs). The crate decides a complete NSID with
  one regular expression and a length bound; the expression is modelled as the syntax tree of
  the pattern string, with the language it denotes (\<open>rx_lang\<close>) and an executable matcher
  (\<open>rx_match\<close>) that computes the remainders after every way of matching a prefix.
  \<open>is_nsid_shape\<close> is the specification the module's documentation gives in words, segment by
  segment; the main lemmas say that the pattern decides it.
\<close>

section \<open>Regular expressions, as far as the pattern uses them\<close>

datatype rx =
    Cls "char \<Rightarrow> bool"
  | Sq rx rx
  | Opt rx
  | Rep rx nat
  | Plus rx

text \<open>\<open>Rep r n\<close> is the counted repetition \<open>r{0,n}\<close>, \<open>Plus r\<close> is \<open>r+\<close>.\<close>

definition conc :: "string set \<Rightarrow> string set \<Rightarrow> string set" where
  "conc A B = {a @ b | a b. a \<in> A \<and> b \<in> B}"

fun rep_lang :: "string set \<Rightarrow> nat \<Rightarrow> string set" where
  "rep_lang A 0 = {[]}"
| "rep_lang A (Suc n) = {[]} \<union> conc A (rep_lang A n)"

fun rx_lang :: "rx \<Rightarrow> string set" where
  "rx_lang (Cls P) = {[c] | c. P c}"
| "rx_lang (Sq r s) = conc (rx_lang r) (rx_lang s)"
| "rx_lang (Opt r) = {[]} \<union> rx_lang r"
| "rx_lang (Rep r n) = rep_lang (rx_lang r) n"
| "rx_lang (Plus r) = {concat ws | ws. ws \<noteq> [] \<and> set ws \<subseteq> rx_lang r}"

fun iter_rests :: "(string \<Rightarrow> string list) \<Rightarrow> nat \<Rightarrow> string list \<Rightarrow> string list" where
  "iter_rests f 0 ts = ts"
| "iter_rests f (Suc n) ts = remdups (ts @ iter_rests f n (concat (map f ts)))"

fun rx_rests :: "rx \<Rightarrow> string \<Rightarrow> string list" where
  "rx_rests (Cls P) s = (case s of [] \<Rightarrow> [] | c # t \<Rightarrow> if P c then [t] else [])"
| "rx_rests (Sq r r') s = remdups (concat (map (rx_rests r') (rx_rests r s)))"
| "rx_rests (Opt r) s = remdups (s # rx_rests r s)"
| "rx_rests (Rep r n) s = iter_rests (rx_rests r) n [s]"
| "rx_rests (Plus r) s = iter_rests (rx_rests r) (length s) (rx_rests r s)"

definition rx_match :: "rx \<Rightarrow> string \<Rightarrow> bool" where
  "rx_match r s \<longleftrightarrow> [] \<in> set (rx_rests r s)"

section \<open>The crate's constants and operations\<close>

datatype NsidError = TooLong string | Malformed string | Pattern string string

definition MAX_NSID_LEN :: nat where
  "MAX_NSID_LEN = 317"

definition MAX_SEGMENT_LEN :: nat where
  "MAX_SEGMENT_LEN = 63"

text \<open>\<open>[a-zA-Z0-9-]\<close>\<close>

definition label_char :: "char \<Rightarrow> bool" where
  "label_char c \<longleftrightarrow> is_ascii_alphanumeric c \<or> c = CHR ''-''"

text \<open>\<open>([a-zA-Z0-9-]{0,61}[a-zA-Z0-9])?\<close>, the tail of a segment.\<close>

definition rx_label_tail :: rx where
  "rx_label_tail = Opt (Sq (Rep (Cls label_char) 61) (Cls is_ascii_alphanumeric))"

definition NSID_PATTERN :: rx where
  "NSID_PATTERN =
     Sq (Sq (Cls is_ascii_alphabetic) rx_label_tail)
    (Sq (Plus (Sq (Cls (\<lambda>c. c = CHR ''.'')) (Sq (Cls is_ascii_alphanumeric) rx_label_tail)))
        (Sq (Cls (\<lambda>c. c = CHR ''.'')) (Sq (Cls is_ascii_alphabetic) (Rep (Cls is_ascii_alphanumeric) 62))))"

definition validate_nsid :: "string \<Rightarrow> NsidError + unit" where
  "validate_nsid nsid =
     (if length nsid > MAX_NSID_LEN then Err (TooLong nsid)
      else if \<not> rx_match NSID_PATTERN nsid then Err (Malformed nsid)
      else Ok ())"

text \<open>One iteration of the segment loop of \<open>validate_nsid_pattern\<close>; \<open>None\<close> goes on.\<close>

definition check_segment :: "string \<Rightarrow> nat \<Rightarrow> string \<Rightarrow> NsidError option" where
  "check_segment pattern idx segment =
     (if segment = [] then Some (Pattern pattern ''empty segment'')
      else if length segment > MAX_SEGMENT_LEN then
        Some (Pattern pattern ''segment is longer than 63 characters'')
      else if \<not> list_all (\<lambda>b. is_ascii_alphanumeric b \<or> b = CHR ''-'') segment then
        Some (Pattern pattern ''segments take only ASCII letters, digits, and hyphens'')
      else if starts_with segment ''-'' \<or> ends_with segment ''-'' then
        Some (Pattern pattern ''segments must not start or end with a hyphen'')
      else if idx = 0 \<and> \<not> is_ascii_alphabetic (hd segment) then
        Some (Pattern pattern ''the first segment must start with a letter'')
      else None)"

fun check_segments :: "string \<Rightarrow> nat \<Rightarrow> string list \<Rightarrow> NsidError + unit" where
  "check_segments pattern idx [] = Ok ()"
| "check_segments pattern idx (segment # segments) =
     (case check_segment pattern idx segment of
        Some e \<Rightarrow> Err e
      | None \<Rightarrow> check_segments pattern (Suc idx) segments)"

definition validate_nsid_pattern :: "string \<Rightarrow> NsidError + unit" where
  "validate_nsid_pattern pattern =
     (case strip_suffix pattern ''.*'' of
        None \<Rightarrow> validate_nsid pattern
      | Some base \<Rightarrow>
          if length base > MAX_NSID_LEN then Err (TooLong pattern)
          else (let segments = split_on CHR ''.'' base in
                if length segments < 2 then
                  Err (Pattern pattern ''a wildcard needs at least two leading segments'')
                else check_segments pattern 0 segments))"

definition nsid_authority :: "string \<Rightarrow> NsidError + string" where
  "nsid_authority nsid =
     (case validate_nsid nsid of
        Err e \<Rightarrow> Err e
      | Ok _ \<Rightarrow> Ok (join ''.'' (rev (butlast (split_on CHR ''.'' nsid)))))"

section \<open>The specification, segment by segment\<close>

definition is_label :: "string \<Rightarrow> bool" where
  "is_label s \<longleftrightarrow>
     s \<noteq> [] \<and> length s \<le> MAX_SEGMENT_LEN \<and> list_all label_char s \<and>
     is_ascii_alphanumeric (hd s) \<and> is_ascii_alphanumeric (last s)"

definition is_name :: "string \<Rightarrow> bool" where
  "is_name s \<longleftrightarrow>
     s \<noteq> [] \<and> length s \<le> MAX_SEGMENT_LEN \<and> is_ascii_alphabetic (hd s) \<and>
     list_all is_ascii_alphanumeric s"

definition is_nsid_shape :: "string \<Rightarrow> bool" where
  "is_nsid_shape s \<longleftrightarrow>
     (let segs = split_on CHR ''.'' s in
      3 \<le> length segs \<and> is_ascii_alphabetic (hd (hd segs)) \<and>
      list_all is_label (butlast segs) \<and> is_name (last segs))"

section \<open>The matcher decides the language\<close>

lemma conc_iff [simp]: "w \<in> conc A B \<longleftrightarrow> (\<exists>a\<in>A. \<exists>b\<in>B. w = a @ b)"
  by (auto simp: conc_def)

lemma rep_lang_concat:
  "rep_lang A n = {concat vs | vs. length vs \<le> n \<and> set vs \<subseteq> A}"
proof (induction n)
  case 0
  then show ?case by auto
next
  case (Suc n)
  show ?case (is "?L = ?R")
  proof
    show "?L \<subseteq> ?R"
    proof
      fix w assume "w \<in> ?L"
      then consider "w = []" | a vs where "a \<in> A" "length vs \<le> n" "set vs \<subseteq> A" "w = a @ concat vs"
        using Suc.IH by auto
      then show "w \<in> ?R"
      proof cases
        case 1
        then show ?thesis by (intro CollectI exI [of _ "[]"]) auto
      next
        case 2
        then show ?thesis by (intro CollectI exI [of _ "a # vs"]) auto
      qed
    qed
    show "?R \<subseteq> ?L"
    proof
      fix w assume "w \<in> ?R"
      then obtain vs where vs: "w = concat vs" "length vs \<le> Suc n" "set vs \<subseteq> A" by blast
      show "w \<in> ?L"
      proof (cases vs)
        case Nil
        with vs show ?thesis by simp
      next
        case (Cons a us)
        with vs have "a \<in> A" "concat us \<in> rep_lang A n" "w = a @ concat us"
          unfolding Suc.IH by auto
        then show ?thesis by auto
      qed
    qed
  qed
qed

lemma iter_rests_iff:
  assumes "\<And>s t. t \<in> set (f s) \<longleftrightarrow> (\<exists>u\<in>A. s = u @ t)"
  shows "t \<in> set (iter_rests f n ts) \<longleftrightarrow> (\<exists>s\<in>set ts. \<exists>u\<in>rep_lang A n. s = u @ t)"
proof (induction n arbitrary: ts)
  case 0
  then show ?case by simp
next
  case (Suc n)
  have "(\<exists>x\<in>set (concat (map f ts)). \<exists>u\<in>rep_lang A n. x = u @ t) \<longleftrightarrow>
      (\<exists>s\<in>set ts. \<exists>u\<in>rep_lang A n. u @ t \<in> set (f s))"
    by auto
  also have "\<dots> \<longleftrightarrow> (\<exists>s\<in>set ts. \<exists>u\<in>conc A (rep_lang A n). s = u @ t)"
    unfolding assms by fastforce
  finally show ?case
    by (simp add: Suc.IH bex_Un del: conc_iff) blast
qed

lemma concat_filter_nonempty: "concat (filter (\<lambda>w. w \<noteq> []) ws) = concat ws"
  by (induction ws) auto

lemma length_filter_nonempty_le: "length (filter (\<lambda>w. w \<noteq> []) ws) \<le> length (concat ws)"
  by (induction ws) (auto simp: Suc_le_eq add_strict_increasing)

lemma rx_rests_iff: "t \<in> set (rx_rests r s) \<longleftrightarrow> (\<exists>u\<in>rx_lang r. s = u @ t)"
proof (induction r arbitrary: s t)
  case (Cls P)
  then show ?case by (auto split: list.splits)
next
  case (Sq r1 r2)
  have "t \<in> set (rx_rests (Sq r1 r2) s) \<longleftrightarrow>
      (\<exists>x. x \<in> set (rx_rests r1 s) \<and> t \<in> set (rx_rests r2 x))"
    by auto
  also have "\<dots> \<longleftrightarrow> (\<exists>u\<in>rx_lang r1. \<exists>v\<in>rx_lang r2. s = u @ v @ t)"
    unfolding Sq.IH by blast
  also have "\<dots> \<longleftrightarrow> (\<exists>u\<in>rx_lang (Sq r1 r2). s = u @ t)"
    by (simp add: conc_def) (metis append.assoc)
  finally show ?case .
next
  case (Opt r)
  have "t \<in> set (rx_rests (Opt r) s) \<longleftrightarrow> t = s \<or> t \<in> set (rx_rests r s)"
    by auto
  also have "\<dots> \<longleftrightarrow> (\<exists>u\<in>rx_lang (Opt r). s = u @ t)"
    unfolding Opt.IH by auto
  finally show ?case .
next
  case (Rep r n)
  show ?case unfolding rx_rests.simps iter_rests_iff [OF Rep.IH] by simp
next
  case (Plus r)
  have "t \<in> set (rx_rests (Plus r) s) \<longleftrightarrow>
      (\<exists>v\<in>rx_lang r. \<exists>u\<in>rep_lang (rx_lang r) (length s). s = v @ u @ t)"
    unfolding rx_rests.simps iter_rests_iff [OF Plus.IH] Bex_def Plus.IH by blast
  also have "\<dots> \<longleftrightarrow> (\<exists>ws. ws \<noteq> [] \<and> set ws \<subseteq> rx_lang r \<and> s = concat ws @ t)" (is "?L \<longleftrightarrow> ?R")
  proof
    assume ?L
    then obtain v vs where "v \<in> rx_lang r" "set vs \<subseteq> rx_lang r" "s = v @ concat vs @ t"
      by (auto simp: rep_lang_concat)
    then show ?R by (intro exI [of _ "v # vs"]) auto
  next
    assume ?R
    then obtain v vs where vs: "v \<in> rx_lang r" "set vs \<subseteq> rx_lang r" "s = v @ concat vs @ t"
      by (auto simp: neq_Nil_conv)
    let ?us = "filter (\<lambda>w. w \<noteq> []) vs"
    have "length ?us \<le> length s"
      using length_filter_nonempty_le [of vs] vs(3) by simp
    then have "concat vs \<in> rep_lang (rx_lang r) (length s)"
      unfolding rep_lang_concat using vs(2)
      by (intro CollectI exI [of _ ?us]) (auto simp: concat_filter_nonempty)
    with vs show ?L by blast
  qed
  also have "\<dots> \<longleftrightarrow> (\<exists>u\<in>rx_lang (Plus r). s = u @ t)"
    by auto
  finally show ?case .
qed

lemma rx_match_iff: "rx_match r s \<longleftrightarrow> s \<in> rx_lang r"
  by (simp add: rx_match_def rx_rests_iff)

section \<open>The pattern decides the segment-wise specification\<close>

lemma rep_cls_lang: "rx_lang (Rep (Cls P) n) = {s. length s \<le> n \<and> list_all P s}"
proof -
  have "rep_lang {[c] | c. P c} n = {s. length s \<le> n \<and> list_all P s}"
  proof (induction n)
    case 0
    then show ?case by auto
  next
    case (Suc n)
    show ?case
    proof (intro set_eqI)
      fix s
      show "s \<in> rep_lang {[c] | c. P c} (Suc n) \<longleftrightarrow> s \<in> {s. length s \<le> Suc n \<and> list_all P s}"
        by (cases s) (auto simp: Suc.IH)
    qed
  qed
  then show ?thesis by simp
qed

lemma label_tail_lang:
  "w \<in> rx_lang rx_label_tail \<longleftrightarrow>
     w = [] \<or> (\<exists>a b. w = a @ [b] \<and> length a \<le> 61 \<and> list_all label_char a \<and> is_ascii_alphanumeric b)"
proof -
  have "w \<in> rx_lang rx_label_tail \<longleftrightarrow>
      w = [] \<or> w \<in> conc (rx_lang (Rep (Cls label_char) 61)) {[c] | c. is_ascii_alphanumeric c}"
    by (simp add: rx_label_tail_def)
  then show ?thesis unfolding rep_cls_lang by auto
qed

lemma label_lang:
  assumes "\<And>c. P c \<Longrightarrow> is_ascii_alphanumeric c"
  shows "s \<in> rx_lang (Sq (Cls P) rx_label_tail) \<longleftrightarrow> is_label s \<and> P (hd s)"
proof -
  have "s \<in> rx_lang (Sq (Cls P) rx_label_tail) \<longleftrightarrow>
      (\<exists>c. P c \<and> (s = [c] \<or>
        (\<exists>a b. s = c # a @ [b] \<and> length a \<le> 61 \<and> list_all label_char a \<and> is_ascii_alphanumeric b)))"
    unfolding rx_lang.simps(1,2) conc_iff Bex_def label_tail_lang by auto
  also have "\<dots> \<longleftrightarrow> is_label s \<and> P (hd s)"
  proof (cases s)
    case Nil
    then show ?thesis by (simp add: is_label_def)
  next
    case (Cons c t)
    show ?thesis
    proof (cases t rule: rev_cases)
      case Nil
      with Cons assms show ?thesis
        by (auto simp: is_label_def label_char_def MAX_SEGMENT_LEN_def)
    next
      case (snoc a b)
      with Cons assms show ?thesis
        by (auto simp: is_label_def label_char_def MAX_SEGMENT_LEN_def)
    qed
  qed
  finally show ?thesis .
qed

lemma name_lang:
  "s \<in> rx_lang (Sq (Cls is_ascii_alphabetic) (Rep (Cls is_ascii_alphanumeric) 62)) \<longleftrightarrow> is_name s"
  unfolding rx_lang.simps(1,2) rep_cls_lang
  by (cases s) (auto simp: is_name_def MAX_SEGMENT_LEN_def is_ascii_alphanumeric_def)

lemma dots_lang:
  "w \<in> rx_lang (Plus (Sq (Cls (\<lambda>c. c = CHR ''.'')) r)) \<longleftrightarrow>
     (\<exists>ls. ls \<noteq> [] \<and> set ls \<subseteq> rx_lang r \<and> w = concat (map (\<lambda>l. CHR ''.'' # l) ls))" (is "?L \<longleftrightarrow> ?R")
proof -
  have dot: "rx_lang (Sq (Cls (\<lambda>c. c = CHR ''.'')) r) = (\<lambda>l. CHR ''.'' # l) ` rx_lang r"
    by (auto simp: image_def)
  have "?L \<longleftrightarrow> (\<exists>ws. ws \<noteq> [] \<and> ws \<in> lists ((\<lambda>l. CHR ''.'' # l) ` rx_lang r) \<and> w = concat ws)"
    by (auto simp: dot in_lists_conv_set simp del: rx_lang.simps(2))
  also have "\<dots> \<longleftrightarrow> ?R"
    unfolding lists_image by (auto simp: in_lists_conv_set)
  finally show ?thesis .
qed

lemma label_char_no_dot: "list_all label_char s \<Longrightarrow> CHR ''.'' \<notin> set s"
proof -
  have "\<not> label_char CHR ''.''"
    by (simp add: label_char_def is_ascii_alphanumeric_def is_ascii_alphabetic_def
        is_ascii_lowercase_def is_ascii_uppercase_def is_ascii_digit_def byte_def)
  then show "list_all label_char s \<Longrightarrow> CHR ''.'' \<notin> set s"
    by (auto simp: list_all_iff)
qed

lemma is_name_label: "is_name s \<Longrightarrow> is_label s"
  by (auto simp: is_name_def is_label_def label_char_def list_all_iff is_ascii_alphanumeric_def)

lemma is_label_no_dot: "is_label s \<Longrightarrow> CHR ''.'' \<notin> set s"
  by (simp add: is_label_def label_char_no_dot)

lemma nsid_lang:
  "s \<in> rx_lang NSID_PATTERN \<longleftrightarrow>
     (\<exists>a ls n. s = join ''.'' (a # ls @ [n]) \<and> ls \<noteq> [] \<and> is_ascii_alphabetic (hd a) \<and>
        is_label a \<and> list_all is_label ls \<and> is_name n)"
proof -
  have tld: "u \<in> rx_lang (Sq (Cls is_ascii_alphabetic) rx_label_tail) \<longleftrightarrow>
      is_label u \<and> is_ascii_alphabetic (hd u)" for u
    by (rule label_lang) (simp add: is_ascii_alphanumeric_def)
  have lab: "u \<in> rx_lang (Sq (Cls is_ascii_alphanumeric) rx_label_tail) \<longleftrightarrow> is_label u" for u
    using label_lang [of is_ascii_alphanumeric u] by (auto simp: is_label_def)
  have last: "u \<in> rx_lang (Sq (Cls (\<lambda>c. c = CHR ''.'')) (Sq (Cls is_ascii_alphabetic)
      (Rep (Cls is_ascii_alphanumeric) 62))) \<longleftrightarrow> (\<exists>n. u = CHR ''.'' # n \<and> is_name n)" for u
    using name_lang by (subst rx_lang.simps) (auto simp del: rx_lang.simps(2,4))
  have "s \<in> rx_lang NSID_PATTERN \<longleftrightarrow>
     (\<exists>a. is_label a \<and> is_ascii_alphabetic (hd a) \<and> (\<exists>ls. ls \<noteq> [] \<and> set ls \<subseteq> Collect is_label \<and>
        (\<exists>n. is_name n \<and> s = a @ concat (map (\<lambda>l. CHR ''.'' # l) ls) @ CHR ''.'' # n)))"
    unfolding NSID_PATTERN_def rx_lang.simps(2) [of "Sq (Cls is_ascii_alphabetic) rx_label_tail"]
      rx_lang.simps(2) [of "Plus r" for r] conc_iff Bex_def tld dots_lang last subset_iff lab mem_Collect_eq
    by blast
  also have "\<dots> \<longleftrightarrow> (\<exists>a ls n. s = join ''.'' (a # ls @ [n]) \<and> ls \<noteq> [] \<and> is_ascii_alphabetic (hd a) \<and>
        is_label a \<and> list_all is_label ls \<and> is_name n)"
    unfolding join_singleton_concat by (auto simp: list_all_iff subset_iff)
  finally show ?thesis .
qed

lemma is_nsid_shape_join:
  "is_nsid_shape s \<longleftrightarrow>
     (\<exists>a ls n. s = join ''.'' (a # ls @ [n]) \<and> ls \<noteq> [] \<and> is_ascii_alphabetic (hd a) \<and>
        is_label a \<and> list_all is_label ls \<and> is_name n)" (is "?L \<longleftrightarrow> ?R")
proof
  assume L: ?L
  define segs where "segs = split_on CHR ''.'' s"
  from L have segs: "3 \<le> length segs" "is_ascii_alphabetic (hd (hd segs))"
      "list_all is_label (butlast segs)" "is_name (last segs)"
    by (simp_all add: is_nsid_shape_def segs_def Let_def)
  obtain a xs where a: "segs = a # xs" using segs(1) by (cases segs) auto
  obtain ls n where xs: "xs = ls @ [n]" using segs(1) a by (cases xs rule: rev_cases) auto
  have "s = join ''.'' segs" by (simp add: segs_def)
  with segs a xs show ?R
    by (intro exI [of _ a] exI [of _ ls] exI [of _ n]) (auto simp: butlast_append)
next
  assume ?R
  then obtain a ls n where h: "s = join ''.'' (a # ls @ [n])" "ls \<noteq> []" "is_ascii_alphabetic (hd a)"
      "is_label a" "list_all is_label ls" "is_name n" by blast
  have "split_on CHR ''.'' s = a # ls @ [n]"
    unfolding h(1) using h by (intro split_on_join) (auto simp: list_all_iff is_label_no_dot is_name_label)
  with h show ?L by (cases ls) (auto simp: is_nsid_shape_def butlast_append)
qed

lemma nsid_pattern_shape: "rx_match NSID_PATTERN s \<longleftrightarrow> is_nsid_shape s"
  by (simp add: rx_match_iff nsid_lang is_nsid_shape_join)

lemma is_ok_validate_nsid:
  "is_ok (validate_nsid s) \<longleftrightarrow> length s \<le> MAX_NSID_LEN \<and> is_nsid_shape s"
  by (simp add: validate_nsid_def is_ok_def nsid_pattern_shape)

section \<open>Wildcard patterns and authorities\<close>

lemma check_segment_None_iff:
  "check_segment pattern idx seg = None \<longleftrightarrow>
     is_label seg \<and> (idx = 0 \<longrightarrow> is_ascii_alphabetic (hd seg))"
proof (cases "seg = []")
  case True
  then show ?thesis by (simp add: check_segment_def is_label_def)
next
  case False
  have "starts_with seg ''-'' \<longleftrightarrow> hd seg = CHR ''-''"
    using False by (cases seg) (auto simp: starts_with_def)
  moreover have "ends_with seg ''-'' \<longleftrightarrow> last seg = CHR ''-''"
    using False by (cases seg rule: rev_cases) (auto simp: ends_with_def suffix_def)
  moreover have "list_all label_char seg \<Longrightarrow> label_char (hd seg) \<and> label_char (last seg)"
    using False by (auto simp: list_all_iff)
  moreover have "\<not> is_ascii_alphanumeric CHR ''-''"
    by (simp add: is_ascii_alphanumeric_def is_ascii_alphabetic_def
        is_ascii_lowercase_def is_ascii_uppercase_def is_ascii_digit_def byte_def)
  ultimately show ?thesis
    using False unfolding check_segment_def is_label_def label_char_def
    by (auto simp: not_less)
qed

lemma check_segments_ok_iff:
  "is_ok (check_segments pattern idx segs) \<longleftrightarrow>
     list_all is_label segs \<and> (segs \<noteq> [] \<and> idx = 0 \<longrightarrow> is_ascii_alphabetic (hd (hd segs)))"
proof (induction segs arbitrary: idx)
  case Nil
  then show ?case by (simp add: is_ok_def)
next
  case (Cons seg segs)
  show ?case
  proof (cases "check_segment pattern idx seg")
    case None
    then have "is_label seg \<and> (idx = 0 \<longrightarrow> is_ascii_alphabetic (hd seg))"
      by (simp add: check_segment_None_iff)
    with None Cons show ?thesis by auto
  next
    case (Some e)
    then have "check_segment pattern idx seg \<noteq> None" by simp
    then have "\<not> (is_label seg \<and> (idx = 0 \<longrightarrow> is_ascii_alphabetic (hd seg)))"
      unfolding check_segment_None_iff .
    with Some show ?thesis by (auto simp: is_ok_def)
  qed
qed

lemma validate_nsid_pattern_wildcard:
  "is_ok (validate_nsid_pattern (b @ ''.*'')) \<longleftrightarrow>
     length b \<le> MAX_NSID_LEN \<and>
     (let segs = split_on CHR ''.'' b in
      2 \<le> length segs \<and> list_all is_label segs \<and> is_ascii_alphabetic (hd (hd segs)))"
proof -
  have "is_ok (validate_nsid_pattern (b @ ''.*'')) \<longleftrightarrow>
      length b \<le> MAX_NSID_LEN \<and> 2 \<le> length (split_on CHR ''.'' b) \<and>
      is_ok (check_segments (b @ ''.*'') 0 (split_on CHR ''.'' b))"
    unfolding validate_nsid_pattern_def strip_suffix_append
    by (auto simp: is_ok_def Let_def not_less)
  then show ?thesis
    by (auto simp: check_segments_ok_iff Let_def)
qed

lemma split_on_snoc:
  "CHR ''.'' \<notin> set n \<Longrightarrow> split_on CHR ''.'' (b @ CHR ''.'' # n) = split_on CHR ''.'' b @ [n]"
proof (induction b)
  case (Cons x b)
  then show ?case by (cases "split_on CHR ''.'' b") (auto)
qed simp

lemma nsid_shape_extend:
  assumes "is_name n"
  shows "is_nsid_shape (b @ CHR ''.'' # n) \<longleftrightarrow>
     (let segs = split_on CHR ''.'' b in
      2 \<le> length segs \<and> list_all is_label segs \<and> is_ascii_alphabetic (hd (hd segs)))"
proof -
  have "CHR ''.'' \<notin> set n"
    using assms by (simp add: is_name_label is_label_no_dot)
  then have "split_on CHR ''.'' (b @ CHR ''.'' # n) = split_on CHR ''.'' b @ [n]"
    by (rule split_on_snoc)
  with assms show ?thesis
    by (auto simp: is_nsid_shape_def Let_def hd_append)
qed

section \<open>Properties\<close>

text \<open>
  Validation is exactly the segment-wise specification of an NSID, each failure
  with its own error.
\<close>

theorem validate_nsid_spec:
  "validate_nsid s =
     (if 317 < length s then Err (TooLong s)
      else if is_nsid_shape s then Ok ()
      else Err (Malformed s))"
  by (simp add: validate_nsid_def nsid_pattern_shape MAX_NSID_LEN_def)

text \<open>
  A wildcard pattern is accepted exactly when putting any valid name in the place
  of the star gives a valid NSID.
\<close>

theorem wildcard_pattern_iff_nsid:
  assumes "is_name n" and "length (b @ CHR ''.'' # n) \<le> MAX_NSID_LEN"
  shows "is_ok (validate_nsid_pattern (b @ ''.*'')) \<longleftrightarrow> is_ok (validate_nsid (b @ CHR ''.'' # n))"
  using assms by (auto simp: validate_nsid_pattern_wildcard is_ok_validate_nsid nsid_shape_extend)

theorem wildcard_pattern_iff_nsid_witness:
  "is_name ''post'' \<and> is_ok (validate_nsid_pattern (''com.example'' @ ''.*'')) \<and>
   is_ok (validate_nsid (''com.example'' @ CHR ''.'' # ''post''))"
proof -
  have h: "is_name ''post''" "length (''com.example'' @ CHR ''.'' # ''post'') \<le> MAX_NSID_LEN"
    by code_simp+
  have "is_ok (validate_nsid_pattern (''com.example'' @ ''.*''))" by code_simp
  with h wildcard_pattern_iff_nsid [OF h] show ?thesis by blast
qed

text \<open>
  The authority of a valid NSID is its reversed domain: reading the domain's labels
  backwards and adding the name segment gives the NSID again.
\<close>

theorem nsid_authority_roundtrip:
  assumes "is_ok (validate_nsid s)"
  shows "\<exists>dom. nsid_authority s = Ok dom \<and> 2 \<le> length (split_on CHR ''.'' dom) \<and>
    s = join ''.'' (rev (split_on CHR ''.'' dom) @ [last (split_on CHR ''.'' s)])"
proof -
  let ?segs = "split_on CHR ''.'' s"
  from assms have len: "3 \<le> length ?segs" by (auto simp: is_ok_validate_nsid is_nsid_shape_def Let_def)
  then have ne: "butlast ?segs \<noteq> []" by (cases ?segs rule: rev_cases) auto
  have "CHR ''.'' \<notin> set x" if "x \<in> set (rev (butlast ?segs))" for x
    using that split_on_pieces by (auto dest: in_set_butlastD)
  then have sp: "split_on CHR ''.'' (join ''.'' (rev (butlast ?segs))) = rev (butlast ?segs)"
    using ne by (intro split_on_join) auto
  have "nsid_authority s = Ok (join ''.'' (rev (butlast ?segs)))"
    using assms by (auto simp: nsid_authority_def is_ok_def split: sum.splits)
  moreover have "s = join ''.'' (butlast ?segs @ [last ?segs])"
    by simp
  ultimately show ?thesis using len sp by auto
qed

theorem nsid_authority_roundtrip_witness:
  "is_ok (validate_nsid ''pics.2bit.feed.getPhotos'') \<and>
   nsid_authority ''pics.2bit.feed.getPhotos'' = Ok ''feed.2bit.pics''"
proof -
  have h: "is_ok (validate_nsid ''pics.2bit.feed.getPhotos'')" by code_simp
  have "nsid_authority ''pics.2bit.feed.getPhotos'' = Ok ''feed.2bit.pics''" by code_simp
  with h nsid_authority_roundtrip [OF h] show ?thesis by blast
qed

end
