(* ===== verification/Scope_Syntax.thy ===== *)
theory Scope_Syntax
  imports Prelude
begin

text \<open>
  Scope-string syntax, \<open>resource[:positional][?params]\<close>
  (crates/happyview-scopes/src/syntax.rs). Percent-decoding is the crate \<open>urlencoding\<close>, which
  is not part of the repository: it is the argument \<open>decode\<close> of the definitions, \<open>None\<close> for
  its error. What the parser relies on is the locale \<open>url_decoder\<close>: a component without a
  percent sign is decoded to itself. \<open>percent_decode\<close> is one decoder with that law, used to
  evaluate closed examples.
\<close>

type_synonym decoder = "string \<Rightarrow> string option"

section \<open>Data\<close>

datatype SingleParam = Absent | One string | Repeated

record ScopeSyntax =
  scope_prefix :: string
  positional :: "string option"
  params :: "(string \<times> string) list"
  has_query :: bool

section \<open>Operations\<close>

definition single_value :: "SingleParam \<Rightarrow> string option" where
  "single_value p = (case p of One v \<Rightarrow> Some v | _ \<Rightarrow> None)"

definition single_ok :: "SingleParam \<Rightarrow> string option option" where
  "single_ok p = (case p of Absent \<Rightarrow> Some None | One v \<Rightarrow> Some (Some v) | Repeated \<Rightarrow> None)"

definition decode_form :: "decoder \<Rightarrow> string \<Rightarrow> string" where
  "decode_form decode value =
     (let plus_decoded = replace_char CHR ''+'' CHR '' '' value in
      unwrap_or (decode plus_decoded) plus_decoded)"

definition decode_uri_component :: "decoder \<Rightarrow> string \<Rightarrow> string" where
  "decode_uri_component decode value = unwrap_or (decode value) value"

definition min_idx :: "nat option \<Rightarrow> nat option \<Rightarrow> nat option" where
  "min_idx a b =
     (case (a, b) of
        (Some a, Some b) \<Rightarrow> Some (min a b)
      | (Some a, None) \<Rightarrow> Some a
      | (None, Some b) \<Rightarrow> Some b
      | (None, None) \<Rightarrow> None)"

definition parse_query :: "decoder \<Rightarrow> string \<Rightarrow> (string \<times> string) list" where
  "parse_query decode query =
     map (\<lambda>pair. case split_once CHR ''='' pair of
                   Some (k, v) \<Rightarrow> (decode_form decode k, decode_form decode v)
                 | None \<Rightarrow> (decode_form decode pair, []))
       (filter (\<lambda>pair. pair \<noteq> []) (split_on CHR ''&'' query))"

definition syntax_parse :: "decoder \<Rightarrow> string \<Rightarrow> ScopeSyntax" where
  "syntax_parse decode scope =
     (let param_idx = str_find CHR ''?'' scope;
          colon_idx = str_find CHR '':'' scope
      in case min_idx param_idx colon_idx of
           None \<Rightarrow> \<lparr>scope_prefix = scope, positional = None, params = [], has_query = False\<rparr>
         | Some prefix_end \<Rightarrow>
             let pos =
                   (case (colon_idx, param_idx) of
                      (Some c, None) \<Rightarrow> Some (decode_uri_component decode (drop (c + 1) scope))
                    | (Some c, Some p) \<Rightarrow>
                        if c < p
                        then Some (decode_uri_component decode (take (p - (c + 1)) (drop (c + 1) scope)))
                        else None
                    | _ \<Rightarrow> None);
                 (ps, hq) =
                   (case param_idx of
                      Some p \<Rightarrow>
                        if p < length scope - 1 then (parse_query decode (drop (p + 1) scope), True)
                        else ([], False)
                    | None \<Rightarrow> ([], False))
             in \<lparr>scope_prefix = take prefix_end scope, positional = pos, params = ps, has_query = hq\<rparr>)"

text \<open>Every distinct key, in first-appearance order: the loop pushes unseen keys.\<close>

fun keys_loop :: "string list \<Rightarrow> (string \<times> string) list \<Rightarrow> string list" where
  "keys_loop out [] = out"
| "keys_loop out ((k, v) # ps) = keys_loop (if k \<in> set out then out else out @ [k]) ps"

definition syntax_keys :: "ScopeSyntax \<Rightarrow> string list" where
  "syntax_keys s = keys_loop [] (params s)"

fun single_loop :: "string \<Rightarrow> string option \<Rightarrow> (string \<times> string) list \<Rightarrow> SingleParam" where
  "single_loop key found [] = (case found of Some v \<Rightarrow> One v | None \<Rightarrow> Absent)"
| "single_loop key found ((k, v) # ps) =
     (if k = key then (if found \<noteq> None then Repeated else single_loop key (Some v) ps)
      else single_loop key found ps)"

definition get_single :: "ScopeSyntax \<Rightarrow> string \<Rightarrow> SingleParam" where
  "get_single s key = single_loop key None (params s)"

definition get_multi :: "ScopeSyntax \<Rightarrow> string \<Rightarrow> string list option" where
  "get_multi s key =
     (let values = map snd (filter (\<lambda>(k, _). k = key) (params s)) in
      if values = [] then None else Some values)"

section \<open>A decoder\<close>

definition hex_val :: "char \<Rightarrow> nat option" where
  "hex_val c =
     (if is_ascii_digit c then Some (byte c - 48)
      else if 97 \<le> byte c \<and> byte c \<le> 102 then Some (byte c - 87)
      else if 65 \<le> byte c \<and> byte c \<le> 70 then Some (byte c - 55)
      else None)"

fun percent_bytes :: "string \<Rightarrow> string" where
  "percent_bytes [] = []"
| "percent_bytes (c # s) =
     (if c = CHR ''%'' then
        (case s of
           a # b # r \<Rightarrow>
             (case (hex_val a, hex_val b) of
                (Some x, Some y) \<Rightarrow> char_of (16 * x + y) # percent_bytes r
              | _ \<Rightarrow> c # percent_bytes s)
         | _ \<Rightarrow> c # percent_bytes s)
      else c # percent_bytes s)"

definition percent_decode :: decoder where
  "percent_decode s = Some (percent_bytes s)"

section \<open>Lookups\<close>

lemma set_keys_loop [simp]: "set (keys_loop out ps) = set out \<union> fst ` set ps"
  by (induction out ps rule: keys_loop.induct) auto

lemma distinct_keys_loop: "distinct out \<Longrightarrow> distinct (keys_loop out ps)"
  by (induction out ps rule: keys_loop.induct) auto

lemma set_syntax_keys [simp]: "set (syntax_keys s) = fst ` set (params s)"
  by (simp add: syntax_keys_def)

lemma single_loop_filter:
  "single_loop key found ps =
     (case (found, map snd (filter (\<lambda>(k, _). k = key) ps)) of
        (None, []) \<Rightarrow> Absent
      | (None, [v]) \<Rightarrow> One v
      | (Some v, []) \<Rightarrow> One v
      | _ \<Rightarrow> Repeated)"
proof (induction key found ps rule: single_loop.induct)
  case (1 key found)
  then show ?case by (cases found) auto
next
  case (2 key found k v ps)
  then show ?case
    by (cases found) (auto split: list.splits)
qed

lemma get_single_multi:
  "get_single s key =
     (case get_multi s key of None \<Rightarrow> Absent | Some [v] \<Rightarrow> One v | Some _ \<Rightarrow> Repeated)"
  by (auto simp: get_single_def get_multi_def single_loop_filter Let_def split: list.splits)

lemma get_multi_nonempty: "get_multi s key = Some vs \<Longrightarrow> vs \<noteq> []"
  by (auto simp: get_multi_def Let_def split: if_splits)

section \<open>The decoder interface and the round trip\<close>

text \<open>How a scope is written, with nothing percent-encoded.\<close>

definition render_params :: "(string \<times> string) list \<Rightarrow> string" where
  "render_params ps = join ''&'' (map (\<lambda>(k, v). k @ CHR ''='' # v) ps)"

definition render_scope :: "string \<Rightarrow> string option \<Rightarrow> (string \<times> string) list \<Rightarrow> string" where
  "render_scope pre pos ps =
     pre @ (case pos of None \<Rightarrow> [] | Some p \<Rightarrow> CHR '':'' # p) @
     (if ps = [] then [] else CHR ''?'' # render_params ps)"

definition plain :: "string \<Rightarrow> string \<Rightarrow> bool" where
  "plain reserved s \<longleftrightarrow> list_all (\<lambda>c. c \<notin> set reserved) s"

lemma render_params_nonempty: "ps \<noteq> [] \<Longrightarrow> render_params ps \<noteq> []"
  by (cases ps) (auto simp: render_params_def join_singleton_concat)

locale url_decoder =
  fixes decode :: decoder
  assumes decode_plain: "CHR ''%'' \<notin> set s \<Longrightarrow> decode s = Some s"
begin

lemma decode_form_plain: "plain ''%+'' s \<Longrightarrow> decode_form decode s = s"
proof -
  assume p: "plain ''%+'' s"
  then have "replace_char CHR ''+'' CHR '' '' s = s"
    by (induction s) (auto simp: replace_char_def plain_def)
  moreover have "CHR ''%'' \<notin> set s"
    using p by (auto simp: plain_def list_all_iff)
  ultimately show ?thesis
    by (simp add: decode_form_def decode_plain unwrap_or_def)
qed

lemma decode_uri_plain: "CHR ''%'' \<notin> set s \<Longrightarrow> decode_uri_component decode s = s"
  by (simp add: decode_uri_component_def decode_plain unwrap_or_def)

lemma parse_query_render:
  assumes "ps \<noteq> []"
    and "list_all (\<lambda>(k, v). plain ''&=%+'' k \<and> plain ''&%+'' v) ps"
  shows "parse_query decode (render_params ps) = ps"
proof -
  let ?pair = "\<lambda>(k, v). k @ CHR ''='' # v"
  have kv: "plain ''&=%+'' k" "plain ''&%+'' v" if "(k, v) \<in> set ps" for k v
    using that assms(2) by (auto simp: list_all_iff)
  have amp: "CHR ''&'' \<notin> set x" if x: "x \<in> set (map ?pair ps)" for x
  proof -
    from x obtain k v where "(k, v) \<in> set ps" "x = k @ CHR ''='' # v" by auto
    with kv [of k v] show ?thesis by (auto simp: plain_def list_all_iff)
  qed
  have "split_on CHR ''&'' (render_params ps) = map ?pair ps"
    unfolding render_params_def
    by (rule split_on_join) (use assms(1) amp in blast)+
  moreover have "filter (\<lambda>pair. pair \<noteq> []) (map ?pair ps) = map ?pair ps"
    by (rule filter_True) auto
  ultimately have q: "parse_query decode (render_params ps) =
      map (\<lambda>pair. case split_once CHR ''='' pair of
                   Some (k, v) \<Rightarrow> (decode_form decode k, decode_form decode v)
                 | None \<Rightarrow> (decode_form decode pair, [])) (map ?pair ps)"
    by (simp only: parse_query_def)
  have "(case split_once CHR ''='' (?pair kv) of
          Some (k, v) \<Rightarrow> (decode_form decode k, decode_form decode v)
        | None \<Rightarrow> (decode_form decode (?pair kv), [])) = kv" if "kv \<in> set ps" for kv
  proof -
    obtain k v where e: "kv = (k, v)" by (cases kv)
    have "CHR ''='' \<notin> set k" "plain ''%+'' k" "plain ''%+'' v"
      using kv [of k v] that e by (auto simp: plain_def list_all_iff)
    then show ?thesis by (simp add: e decode_form_plain)
  qed
  then show ?thesis
    unfolding q map_map comp_def by (rule map_idI)
qed

lemma syntax_parse_render:
  assumes pre: "plain '':?'' pre"
    and pos: "\<And>p. pos = Some p \<Longrightarrow> plain ''?%'' p"
    and ps: "list_all (\<lambda>(k, v). plain ''&=%+'' k \<and> plain ''&%+'' v) ps"
  shows "syntax_parse decode (render_scope pre pos ps) =
    \<lparr>scope_prefix = pre, positional = pos, params = ps, has_query = (ps \<noteq> [])\<rparr>"
proof -
  have colon: "CHR '':'' \<notin> set pre" and quest: "CHR ''?'' \<notin> set pre"
    using pre by (auto simp: plain_def list_all_iff)
  have q: "parse_query decode (render_params ps) = ps" "render_params ps \<noteq> []" if "ps \<noteq> []"
    using that ps parse_query_render by (auto simp: render_params_nonempty)
  show ?thesis
  proof (cases pos)
    case None
    show ?thesis
    proof (cases "ps = []")
      case True
      with None colon quest show ?thesis
        by (simp add: render_scope_def syntax_parse_def min_idx_def Let_def)
    next
      case False
      let ?s = "pre @ CHR ''?'' # render_params ps"
      have "str_find CHR ''?'' ?s = Some (length pre)"
        using quest by (rule str_find_absent)
      moreover have "str_find CHR '':'' ?s =
          map_option (\<lambda>j. Suc (length pre + j)) (str_find CHR '':'' (render_params ps))"
        using colon by (simp add: str_find_append_absent option.map_comp comp_def)
      ultimately show ?thesis
        using None False q
        by (cases "str_find CHR '':'' (render_params ps)")
          (simp_all add: render_scope_def syntax_parse_def min_idx_def Let_def)
    qed
  next
    case (Some p)
    have p: "CHR ''?'' \<notin> set p" "CHR ''%'' \<notin> set p"
      using pos [OF Some] by (auto simp: plain_def list_all_iff)
    show ?thesis
    proof (cases "ps = []")
      case True
      with Some colon quest p show ?thesis
        by (simp add: render_scope_def syntax_parse_def min_idx_def Let_def str_find_absent decode_uri_plain)
    next
      case False
      let ?s = "pre @ CHR '':'' # p @ CHR ''?'' # render_params ps"
      have "str_find CHR '':'' ?s = Some (length pre)"
        using colon by (rule str_find_absent)
      moreover have "str_find CHR ''?'' ?s = Some (Suc (length pre + length p))"
        using str_find_absent [of "CHR ''?''" "pre @ CHR '':'' # p"] quest p by simp
      ultimately show ?thesis
        using Some False q p
        by (simp add: render_scope_def syntax_parse_def min_idx_def Let_def decode_uri_plain)
    qed
  qed
qed

end

interpretation pct: url_decoder percent_decode
proof
  fix s :: string
  assume "CHR ''%'' \<notin> set s"
  then have "percent_bytes s = s"
    by (induction s) (auto simp: percent_bytes.simps split: list.splits)
  then show "percent_decode s = Some s" by (simp add: percent_decode_def)
qed

section \<open>Properties\<close>

text \<open>
  Property C35. Parsing a written scope gives back its prefix, its positional value and its
  parameters in order, for any decoder that leaves text without percent signs alone.
\<close>

theorem syntax_roundtrip:
  assumes "url_decoder decode"
    and "plain '':?'' pre" and "\<And>p. pos = Some p \<Longrightarrow> plain ''?%'' p"
    and "list_all (\<lambda>(k, v). plain ''&=%+'' k \<and> plain ''&%+'' v) ps"
  shows "syntax_parse decode (render_scope pre pos ps) =
    \<lparr>scope_prefix = pre, positional = pos, params = ps, has_query = (ps \<noteq> [])\<rparr>"
  using url_decoder.syntax_parse_render [OF assms(1)] assms(2-4) by blast

theorem syntax_roundtrip_witness:
  "syntax_parse percent_decode (render_scope ''repo'' (Some ''com.example.post'') [(''action'', ''create'')]) =
    \<lparr>scope_prefix = ''repo'', positional = Some ''com.example.post'', params = [(''action'', ''create'')],
      has_query = True\<rparr>"
proof -
  have h: "plain '':?'' ''repo''" "plain ''?%'' ''com.example.post''"
    "list_all (\<lambda>(k, v). plain ''&=%+'' k \<and> plain ''&%+'' v) [(''action'', ''create'')]"
    by (simp_all add: plain_def)
  from syntax_roundtrip [OF pct.url_decoder_axioms h(1) _ h(3), of "Some ''com.example.post''"] h(2)
  show ?thesis by simp
qed

text \<open>
  The three readings of a key agree: absent, given once and repeated are the
  empty, singleton and longer value lists, and the key list names exactly the keys that have
  values, once each.
\<close>

theorem key_readings_agree:
  "get_single s key =
     (case get_multi s key of None \<Rightarrow> Absent | Some [v] \<Rightarrow> One v | Some _ \<Rightarrow> Repeated) \<and>
   (key \<in> set (syntax_keys s)) = (get_multi s key \<noteq> None) \<and> distinct (syntax_keys s)"
proof -
  have "key \<in> set (syntax_keys s) \<longleftrightarrow> get_multi s key \<noteq> None"
    by (auto simp: get_multi_def Let_def filter_empty_conv intro: rev_image_eqI)
  then show ?thesis by (simp add: get_single_multi syntax_keys_def distinct_keys_loop)
qed

end
