(* ===== verification/Scope_Resources.thy ===== *)
theory Scope_Resources
  imports Nsid Scope_Syntax
begin

text \<open>
  The protocol's resource permissions \<open>repo\<close>, \<open>rpc\<close>, \<open>blob\<close>, \<open>identity\<close>, \<open>account\<close> and
  \<open>space\<close> (crates/happyview-scopes/src/resources.rs): for each, the permission struct as a
  record, its parser from a scope string (\<open>decode\<close> is the percent-decoder of
  Scope\_Syntax), the validation shared with the permission-set path (\<open>from_parts\<close>) and the
  matcher. Action enums carry the resource's name, since the source reuses the variants
  \<open>Create\<close>, \<open>Update\<close>, \<open>Delete\<close> and \<open>Read\<close> in several types.
\<close>

section \<open>Shared parser rules\<close>

definition has_only_known_keys :: "ScopeSyntax \<Rightarrow> string list \<Rightarrow> bool" where
  "has_only_known_keys syn known \<longleftrightarrow> list_all (\<lambda>k. k \<in> set known) (syntax_keys syn)"

definition positional_conflicts :: "ScopeSyntax \<Rightarrow> string \<Rightarrow> bool" where
  "positional_conflicts syn name \<longleftrightarrow> positional syn \<noteq> None \<and> get_multi syn name \<noteq> None"

definition multi_or_positional :: "ScopeSyntax \<Rightarrow> string \<Rightarrow> string list option" where
  "multi_or_positional syn name =
     (case get_multi syn name of
        Some values \<Rightarrow> if values = [] then None else Some values
      | None \<Rightarrow> map_option (\<lambda>p. [p]) (positional syn))"

definition single_or_positional :: "ScopeSyntax \<Rightarrow> string \<Rightarrow> string option option" where
  "single_or_positional syn name =
     (case single_ok (get_single syn name) of
        None \<Rightarrow> None
      | Some (Some v) \<Rightarrow> Some (Some v)
      | Some None \<Rightarrow> Some (positional syn))"

definition is_nsid :: "string \<Rightarrow> bool" where
  "is_nsid value = is_ok (validate_nsid value)"

definition is_nsid_or_wildcard :: "string \<Rightarrow> bool" where
  "is_nsid_or_wildcard value \<longleftrightarrow> value = ''*'' \<or> is_nsid value"

section \<open>DID references\<close>

definition is_hostname :: "string \<Rightarrow> bool" where
  "is_hostname host \<longleftrightarrow>
     host \<noteq> [] \<and>
     list_all (\<lambda>label. label \<noteq> [] \<and> list_all (\<lambda>b. is_ascii_alphanumeric b \<or> b = CHR ''-'') label)
       (split_on CHR ''.'' host)"

definition is_supported_did :: "string \<Rightarrow> bool" where
  "is_supported_did did =
     (case strip_prefix did ''did:plc:'' of
        Some i \<Rightarrow>
          length i = 24 \<and>
          list_all (\<lambda>b. is_ascii_lowercase b \<or> (CHR ''2'' \<le> b \<and> b \<le> CHR ''7'')) i
      | None \<Rightarrow>
          (case strip_prefix did ''did:web:'' of
             Some host \<Rightarrow> is_hostname host
           | None \<Rightarrow> False))"

definition is_absolute_did_ref :: "string \<Rightarrow> bool" where
  "is_absolute_did_ref value =
     (case split_once CHR ''#'' value of
        None \<Rightarrow> False
      | Some (did, fragment) \<Rightarrow>
          if fragment = [] \<or> CHR ''#'' \<in> set fragment then False else is_supported_did did)"

section \<open>repo\<close>

datatype RepoAction = RepoCreate | RepoUpdate | RepoDelete

definition repo_action_as_str :: "RepoAction \<Rightarrow> string" where
  "repo_action_as_str a =
     (case a of RepoCreate \<Rightarrow> ''create'' | RepoUpdate \<Rightarrow> ''update'' | RepoDelete \<Rightarrow> ''delete'')"

definition repo_action_parse :: "string \<Rightarrow> RepoAction option" where
  "repo_action_parse value =
     (if value = ''create'' then Some RepoCreate
      else if value = ''update'' then Some RepoUpdate
      else if value = ''delete'' then Some RepoDelete
      else None)"

definition repo_action_ALL :: "RepoAction list" where
  "repo_action_ALL = [RepoCreate, RepoUpdate, RepoDelete]"

record RepoPermission =
  repo_collection :: "string list"
  repo_action :: "RepoAction list"

definition repo_from_parts :: "string list \<Rightarrow> string list option \<Rightarrow> RepoPermission option" where
  "repo_from_parts collection action =
     (if collection = [] \<or> \<not> list_all is_nsid_or_wildcard collection then None
      else (case (case action of
                    Some values \<Rightarrow>
                      if values = [] then None else those (map repo_action_parse values)
                  | None \<Rightarrow> Some repo_action_ALL) of
              None \<Rightarrow> None
            | Some act \<Rightarrow> Some \<lparr>repo_collection = collection, repo_action = act\<rparr>))"

definition repo_parse :: "decoder \<Rightarrow> string \<Rightarrow> RepoPermission option" where
  "repo_parse decode scope =
     (let syn = syntax_parse decode scope in
      if scope_prefix syn \<noteq> ''repo'' then None
      else if \<not> has_only_known_keys syn [''collection'', ''action''] then None
      else if positional_conflicts syn ''collection'' then None
      else (case multi_or_positional syn ''collection'' of
              None \<Rightarrow> None
            | Some collection \<Rightarrow> repo_from_parts collection (get_multi syn ''action'')))"

definition repo_matches :: "RepoPermission \<Rightarrow> string \<Rightarrow> RepoAction \<Rightarrow> bool" where
  "repo_matches p collection action \<longleftrightarrow>
     action \<in> set (repo_action p) \<and>
     (list_ex (\<lambda>c. c = ''*'') (repo_collection p) \<or> list_ex (\<lambda>c. c = collection) (repo_collection p))"

section \<open>rpc\<close>

record RpcPermission =
  rpc_aud :: string
  rpc_lxm :: "string list"

definition rpc_from_parts :: "string list \<Rightarrow> string option \<Rightarrow> RpcPermission option" where
  "rpc_from_parts lxm aud =
     (if lxm = [] \<or> \<not> list_all is_nsid_or_wildcard lxm then None
      else (case aud of
              None \<Rightarrow> None
            | Some aud \<Rightarrow>
                if aud \<noteq> ''*'' \<and> \<not> is_absolute_did_ref aud then None
                else if aud = ''*'' \<and> list_ex (\<lambda>l. l = ''*'') lxm then None
                else Some \<lparr>rpc_aud = aud, rpc_lxm = lxm\<rparr>))"

definition rpc_parse :: "decoder \<Rightarrow> string \<Rightarrow> RpcPermission option" where
  "rpc_parse decode scope =
     (let syn = syntax_parse decode scope in
      if scope_prefix syn \<noteq> ''rpc'' then None
      else if \<not> has_only_known_keys syn [''lxm'', ''aud''] then None
      else if positional_conflicts syn ''lxm'' then None
      else (case multi_or_positional syn ''lxm'' of
              None \<Rightarrow> None
            | Some lxm \<Rightarrow>
                (case single_ok (get_single syn ''aud'') of
                   None \<Rightarrow> None
                 | Some aud \<Rightarrow> rpc_from_parts lxm aud)))"

definition rpc_matches :: "RpcPermission \<Rightarrow> string \<Rightarrow> string \<Rightarrow> bool" where
  "rpc_matches p lxm aud \<longleftrightarrow>
     (rpc_aud p = ''*'' \<or> rpc_aud p = aud) \<and>
     (list_ex (\<lambda>l. l = ''*'') (rpc_lxm p) \<or> list_ex (\<lambda>l. l = lxm) (rpc_lxm p))"

section \<open>blob\<close>

record BlobPermission =
  blob_accept :: "string list"

definition is_type_slash_subtype :: "string \<Rightarrow> bool" where
  "is_type_slash_subtype value =
     (case str_find CHR ''/'' value of
        None \<Rightarrow> False
      | Some slash \<Rightarrow>
          slash \<noteq> 0 \<and> slash \<noteq> length value - 1 \<and>
          CHR ''/'' \<notin> set (drop (slash + 1) value) \<and> CHR '' '' \<notin> set value)"

definition is_mime :: "string \<Rightarrow> bool" where
  "is_mime value \<longleftrightarrow> is_type_slash_subtype value \<and> CHR ''*'' \<notin> set value"

definition is_accept :: "string \<Rightarrow> bool" where
  "is_accept value =
     (if value = ''*/*'' then True
      else if \<not> is_type_slash_subtype value then False
      else CHR ''*'' \<notin> set value \<or> ends_with value ''/*'')"

definition accept_covers :: "string \<Rightarrow> string \<Rightarrow> bool" where
  "accept_covers held wanted =
     (if held = ''*/*'' then True
      else if wanted = ''*/*'' then False
      else (case strip_suffix held ''*'' of
              Some pre \<Rightarrow> starts_with wanted pre
            | None \<Rightarrow> held = wanted))"

definition accept_matches :: "string \<Rightarrow> string \<Rightarrow> bool" where
  "accept_matches accept mime =
     (if accept = ''*/*'' then True
      else (case strip_suffix accept ''*'' of
              Some pre \<Rightarrow> starts_with mime pre
            | None \<Rightarrow> accept = mime))"

definition blob_parse :: "decoder \<Rightarrow> string \<Rightarrow> BlobPermission option" where
  "blob_parse decode scope =
     (let syn = syntax_parse decode scope in
      if scope_prefix syn \<noteq> ''blob'' then None
      else if \<not> has_only_known_keys syn [''accept''] then None
      else if positional_conflicts syn ''accept'' then None
      else (case multi_or_positional syn ''accept'' of
              None \<Rightarrow> None
            | Some accept \<Rightarrow>
                if \<not> list_all is_accept accept then None
                else Some \<lparr>blob_accept = accept\<rparr>))"

definition blob_matches :: "BlobPermission \<Rightarrow> string \<Rightarrow> bool" where
  "blob_matches p mime \<longleftrightarrow> is_mime mime \<and> list_ex (\<lambda>a. accept_matches a mime) (blob_accept p)"

section \<open>identity\<close>

record IdentityPermission =
  identity_attr :: string

definition IDENTITY_ATTRIBUTES :: "string list" where
  "IDENTITY_ATTRIBUTES = [''handle'', ''*'']"

definition identity_parse :: "decoder \<Rightarrow> string \<Rightarrow> IdentityPermission option" where
  "identity_parse decode scope =
     (let syn = syntax_parse decode scope in
      if scope_prefix syn \<noteq> ''identity'' then None
      else if \<not> has_only_known_keys syn [''attr''] then None
      else if positional_conflicts syn ''attr'' then None
      else (case single_or_positional syn ''attr'' of
              Some (Some attr) \<Rightarrow>
                if attr \<notin> set IDENTITY_ATTRIBUTES then None else Some \<lparr>identity_attr = attr\<rparr>
            | _ \<Rightarrow> None))"

definition identity_matches :: "IdentityPermission \<Rightarrow> string \<Rightarrow> bool" where
  "identity_matches p attr \<longleftrightarrow> identity_attr p = ''*'' \<or> identity_attr p = attr"

section \<open>account\<close>

datatype AccountAction = AccountRead | AccountManage

definition account_action_as_str :: "AccountAction \<Rightarrow> string" where
  "account_action_as_str a = (case a of AccountRead \<Rightarrow> ''read'' | AccountManage \<Rightarrow> ''manage'')"

definition account_action_parse :: "string \<Rightarrow> AccountAction option" where
  "account_action_parse value =
     (if value = ''read'' then Some AccountRead
      else if value = ''manage'' then Some AccountManage
      else None)"

definition ACCOUNT_ATTRIBUTES :: "string list" where
  "ACCOUNT_ATTRIBUTES = [''email'', ''repo'', ''status'']"

record AccountPermission =
  account_attr :: string
  account_action :: "AccountAction list"

definition account_parse :: "decoder \<Rightarrow> string \<Rightarrow> AccountPermission option" where
  "account_parse decode scope =
     (let syn = syntax_parse decode scope in
      if scope_prefix syn \<noteq> ''account'' then None
      else if \<not> has_only_known_keys syn [''attr'', ''action''] then None
      else if positional_conflicts syn ''attr'' then None
      else (case single_or_positional syn ''attr'' of
              Some (Some attr) \<Rightarrow>
                if attr \<notin> set ACCOUNT_ATTRIBUTES then None
                else (case (case get_multi syn ''action'' of
                              Some values \<Rightarrow>
                                if values = [] then None else those (map account_action_parse values)
                            | None \<Rightarrow> Some [AccountRead]) of
                        None \<Rightarrow> None
                      | Some action \<Rightarrow> Some \<lparr>account_attr = attr, account_action = action\<rparr>)
            | _ \<Rightarrow> None))"

definition account_matches :: "AccountPermission \<Rightarrow> string \<Rightarrow> AccountAction \<Rightarrow> bool" where
  "account_matches p attr action \<longleftrightarrow>
     account_attr p = attr \<and>
     (AccountManage \<in> set (account_action p) \<or> action \<in> set (account_action p))"

section \<open>space\<close>

datatype SpaceAction = SpaceReadSelf | SpaceRead | SpaceCreate | SpaceUpdate | SpaceDelete

definition space_action_as_str :: "SpaceAction \<Rightarrow> string" where
  "space_action_as_str a =
     (case a of SpaceReadSelf \<Rightarrow> ''read_self'' | SpaceRead \<Rightarrow> ''read'' | SpaceCreate \<Rightarrow> ''create''
      | SpaceUpdate \<Rightarrow> ''update'' | SpaceDelete \<Rightarrow> ''delete'')"

definition space_action_parse :: "string \<Rightarrow> SpaceAction option" where
  "space_action_parse value =
     (if value = ''read_self'' then Some SpaceReadSelf
      else if value = ''read'' then Some SpaceRead
      else if value = ''create'' then Some SpaceCreate
      else if value = ''update'' then Some SpaceUpdate
      else if value = ''delete'' then Some SpaceDelete
      else None)"

definition space_action_ALL :: "SpaceAction list" where
  "space_action_ALL = [SpaceReadSelf, SpaceRead, SpaceCreate, SpaceUpdate, SpaceDelete]"

definition space_action_DEFAULT :: "SpaceAction list" where
  "space_action_DEFAULT = [SpaceRead, SpaceCreate, SpaceUpdate, SpaceDelete]"

datatype ManageOp = ManageCreate | ManageUpdate | ManageDelete

definition manage_op_as_str :: "ManageOp \<Rightarrow> string" where
  "manage_op_as_str a =
     (case a of ManageCreate \<Rightarrow> ''create'' | ManageUpdate \<Rightarrow> ''update'' | ManageDelete \<Rightarrow> ''delete'')"

definition manage_op_parse :: "string \<Rightarrow> ManageOp option" where
  "manage_op_parse value =
     (if value = ''create'' then Some ManageCreate
      else if value = ''update'' then Some ManageUpdate
      else if value = ''delete'' then Some ManageDelete
      else None)"

definition manage_op_ALL :: "ManageOp list" where
  "manage_op_ALL = [ManageCreate, ManageUpdate, ManageDelete]"

datatype SpaceTarget =
    TargetRead
  | TargetReadSelf
  | TargetWrite SpaceAction string
  | TargetManage ManageOp

definition is_valid_did :: "string \<Rightarrow> bool" where
  "is_valid_did value =
     (case strip_prefix value ''did:'' of
        None \<Rightarrow> False
      | Some rest \<Rightarrow>
          (case split_once CHR '':'' rest of
             None \<Rightarrow> False
           | Some (method, i) \<Rightarrow>
               if method = [] \<or> \<not> list_all is_ascii_lowercase method then False
               else if i = [] \<or> ends_with i '':'' then False
               else list_all (\<lambda>b. is_ascii_alphanumeric b \<or> b \<in> set ''.-_:%'') i))"

definition is_valid_record_key :: "string \<Rightarrow> bool" where
  "is_valid_record_key value =
     (if value = [] \<or> length value > 512 \<or> value = ''.'' \<or> value = ''..'' then False
      else list_all (\<lambda>b. is_ascii_alphanumeric b \<or> b \<in> set ''.-_:~'') value)"

record SpacePermission =
  space_type :: string
  space_authority :: string
  space_skey :: string
  space_collection :: "string list"
  space_action :: "SpaceAction list"
  space_manage :: "ManageOp list"

definition space_collections :: "string list option \<Rightarrow> string list option" where
  "space_collections collection =
     (case collection of
        Some values \<Rightarrow>
          if values = [] \<or> \<not> list_all is_nsid_or_wildcard values then None
          else if list_ex (\<lambda>c. c = ''*'') values then Some [''*'']
          else Some (remdups_adj (sort values))
      | None \<Rightarrow> Some [])"

definition space_actions :: "string list option \<Rightarrow> SpaceAction list option" where
  "space_actions action =
     (case action of
        Some values \<Rightarrow>
          if values = [] then None
          else map_option (\<lambda>parsed. filter (\<lambda>a. a \<in> set parsed) space_action_ALL)
                 (those (map space_action_parse values))
      | None \<Rightarrow> Some space_action_DEFAULT)"

definition space_manages :: "string list option \<Rightarrow> ManageOp list option" where
  "space_manages manage =
     (case manage of
        Some values \<Rightarrow>
          if values = [] then None
          else map_option (\<lambda>parsed. filter (\<lambda>m. m \<in> set parsed) manage_op_ALL)
                 (those (map manage_op_parse values))
      | None \<Rightarrow> Some [])"

definition space_from_parts ::
    "string \<Rightarrow> string option \<Rightarrow> string option \<Rightarrow> string list option \<Rightarrow> string list option \<Rightarrow>
     string list option \<Rightarrow> SpacePermission option" where
  "space_from_parts typ authority skey collection action manage =
     (if \<not> is_nsid_or_wildcard typ then None
      else let authority = unwrap_or authority ''self'' in
      if authority \<noteq> ''self'' \<and> authority \<noteq> ''*'' \<and> \<not> is_valid_did authority then None
      else let skey = unwrap_or skey ''*'' in
      if skey \<noteq> ''*'' \<and> \<not> is_valid_record_key skey then None
      else (case space_collections collection of
              None \<Rightarrow> None
            | Some collection \<Rightarrow>
                (case space_actions action of
                   None \<Rightarrow> None
                 | Some action \<Rightarrow>
                     (case space_manages manage of
                        None \<Rightarrow> None
                      | Some manage \<Rightarrow>
                          Some \<lparr>space_type = typ, space_authority = authority, space_skey = skey,
                            space_collection = collection, space_action = action,
                            space_manage = manage\<rparr>))))"

definition space_parse :: "decoder \<Rightarrow> string \<Rightarrow> SpacePermission option" where
  "space_parse decode scope =
     (let syn = syntax_parse decode scope in
      if scope_prefix syn \<noteq> ''space'' then None
      else if \<not> has_only_known_keys syn [''authority'', ''skey'', ''collection'', ''action'', ''manage'']
      then None
      else if positional_conflicts syn ''type'' then None
      else (case positional syn of
              None \<Rightarrow> None
            | Some typ \<Rightarrow>
                (case single_ok (get_single syn ''authority'') of
                   None \<Rightarrow> None
                 | Some authority \<Rightarrow>
                     (case single_ok (get_single syn ''skey'') of
                        None \<Rightarrow> None
                      | Some skey \<Rightarrow>
                          space_from_parts typ authority skey
                            (get_multi syn ''collection'') (get_multi syn ''action'')
                            (get_multi syn ''manage'')))))"

definition collection_allows :: "SpacePermission \<Rightarrow> string \<Rightarrow> bool" where
  "collection_allows p collection = list_ex (\<lambda>c. c = ''*'' \<or> c = collection) (space_collection p)"

definition space_matches ::
    "SpacePermission \<Rightarrow> string \<Rightarrow> string \<Rightarrow> string \<Rightarrow> SpaceTarget \<Rightarrow> bool" where
  "space_matches p typ authority skey target =
     (if space_type p \<noteq> ''*'' \<and> space_type p \<noteq> typ then False
      else if space_authority p \<noteq> ''*'' \<and> space_authority p \<noteq> authority then False
      else if space_skey p \<noteq> ''*'' \<and> space_skey p \<noteq> skey then False
      else (case target of
              TargetManage op \<Rightarrow> op \<in> set (space_manage p)
            | TargetRead \<Rightarrow> SpaceRead \<in> set (space_action p)
            | TargetReadSelf \<Rightarrow>
                SpaceRead \<in> set (space_action p) \<or> SpaceReadSelf \<in> set (space_action p)
            | TargetWrite action collection \<Rightarrow>
                action \<in> set (space_action p) \<and> collection_allows p collection))"

definition has_collections :: "SpacePermission \<Rightarrow> bool" where
  "has_collections p \<longleftrightarrow> space_collection p \<noteq> []"

definition is_self_authority :: "SpacePermission \<Rightarrow> bool" where
  "is_self_authority p \<longleftrightarrow> space_authority p = ''self''"

definition with_default_collections :: "SpacePermission \<Rightarrow> string list \<Rightarrow> SpacePermission" where
  "with_default_collections p collections =
     (if has_collections p \<or> collections = [] then p
      else p\<lparr>space_collection := collections\<rparr>)"

definition with_resolved_authority :: "SpacePermission \<Rightarrow> string \<Rightarrow> SpacePermission" where
  "with_resolved_authority p user_did =
     (if space_authority p = ''self'' then p\<lparr>space_authority := user_did\<rparr> else p)"

section \<open>Well-formed permissions\<close>

definition repo_wf :: "RepoPermission \<Rightarrow> bool" where
  "repo_wf p \<longleftrightarrow>
     repo_collection p \<noteq> [] \<and> list_all is_nsid_or_wildcard (repo_collection p) \<and> repo_action p \<noteq> []"

definition rpc_wf :: "RpcPermission \<Rightarrow> bool" where
  "rpc_wf p \<longleftrightarrow>
     rpc_lxm p \<noteq> [] \<and> list_all is_nsid_or_wildcard (rpc_lxm p) \<and>
     (rpc_aud p = ''*'' \<or> is_absolute_did_ref (rpc_aud p)) \<and>
     \<not> (rpc_aud p = ''*'' \<and> ''*'' \<in> set (rpc_lxm p))"

definition blob_wf :: "BlobPermission \<Rightarrow> bool" where
  "blob_wf p \<longleftrightarrow> blob_accept p \<noteq> [] \<and> list_all is_accept (blob_accept p)"

definition account_wf :: "AccountPermission \<Rightarrow> bool" where
  "account_wf p \<longleftrightarrow> account_attr p \<in> set ACCOUNT_ATTRIBUTES \<and> account_action p \<noteq> []"

text \<open>
  A space grant is normalised: the collections are \<open>*\<close> alone or strictly sorted NSIDs, the
  actions and management operations are in declaration order without repeats.
\<close>

definition space_wf :: "SpacePermission \<Rightarrow> bool" where
  "space_wf p \<longleftrightarrow>
     is_nsid_or_wildcard (space_type p) \<and>
     (space_authority p = ''self'' \<or> space_authority p = ''*'' \<or> is_valid_did (space_authority p)) \<and>
     (space_skey p = ''*'' \<or> is_valid_record_key (space_skey p)) \<and>
     (space_collection p = [''*''] \<or>
        sorted_wrt (<) (space_collection p) \<and> list_all is_nsid (space_collection p)) \<and>
     space_action p \<noteq> [] \<and> space_action p = filter (\<lambda>a. a \<in> set (space_action p)) space_action_ALL \<and>
     space_manage p = filter (\<lambda>m. m \<in> set (space_manage p)) manage_op_ALL"

lemmas resource_parse_defs =
  repo_parse_def rpc_parse_def blob_parse_def identity_parse_def account_parse_def space_parse_def

lemma those_map_nonempty: "those (map f xs) = Some ys \<Longrightarrow> xs \<noteq> [] \<Longrightarrow> ys \<noteq> []"
  by (auto simp: those_Some_iff)

lemma repo_from_parts_wf: "repo_from_parts c a = Some p \<Longrightarrow> repo_wf p"
  by (auto simp: repo_from_parts_def repo_wf_def repo_action_ALL_def those_Some_iff
      split: if_splits option.splits)

lemma repo_parse_wf: "repo_parse decode s = Some p \<Longrightarrow> repo_wf p"
  by (auto simp: repo_parse_def Let_def intro: repo_from_parts_wf split: if_splits option.splits)

lemma rpc_from_parts_wf: "rpc_from_parts l a = Some p \<Longrightarrow> rpc_wf p"
  by (auto simp: rpc_from_parts_def rpc_wf_def list_ex_iff split: if_splits option.splits)

lemma rpc_parse_wf: "rpc_parse decode s = Some p \<Longrightarrow> rpc_wf p"
  by (auto simp: rpc_parse_def Let_def intro: rpc_from_parts_wf split: if_splits option.splits)

lemma multi_or_positional_nonempty: "multi_or_positional syn name = Some vs \<Longrightarrow> vs \<noteq> []"
  by (auto simp: multi_or_positional_def split: if_splits option.splits)

lemma blob_parse_wf: "blob_parse decode s = Some p \<Longrightarrow> blob_wf p"
  by (auto simp: blob_parse_def blob_wf_def Let_def dest: multi_or_positional_nonempty
      split: if_splits option.splits)

lemma account_parse_wf: "account_parse decode s = Some p \<Longrightarrow> account_wf p"
  by (auto simp: account_parse_def account_wf_def Let_def those_Some_iff
      split: if_splits option.splits)

lemma space_collections_Some:
  "space_collections (Some vs) = Some cs \<Longrightarrow>
     vs \<noteq> [] \<and> list_all is_nsid_or_wildcard vs \<and>
     cs = (if ''*'' \<in> set vs then [''*''] else sorted_list_of_set (set vs))"
  by (auto simp: space_collections_def remdups_adj_sort list_ex_iff split: if_splits)

lemma space_collections_wf:
  assumes "space_collections c = Some cs"
  shows "cs = [''*''] \<or> sorted_wrt (<) cs \<and> list_all is_nsid cs"
proof (cases c)
  case None
  with assms show ?thesis by (simp add: space_collections_def)
next
  case (Some vs)
  from space_collections_Some [OF assms [unfolded Some]]
  have vs: "list_all is_nsid_or_wildcard vs"
    and cs: "cs = (if ''*'' \<in> set vs then [''*''] else sorted_list_of_set (set vs))"
    by auto
  show ?thesis
  proof (cases "''*'' \<in> set vs")
    case True
    with cs show ?thesis by simp
  next
    case False
    with vs have "list_all is_nsid (sorted_list_of_set (set vs))"
      by (auto simp: list_all_iff is_nsid_or_wildcard_def)
    with cs False show ?thesis by simp
  qed
qed

lemma space_actions_wf:
  assumes "space_actions a = Some acts"
  shows "acts \<noteq> [] \<and> acts = filter (\<lambda>x. x \<in> set acts) space_action_ALL"
proof (cases a)
  case None
  with assms show ?thesis by (auto simp: space_actions_def space_action_DEFAULT_def space_action_ALL_def)
next
  case (Some vs)
  with assms obtain parsed where p: "those (map space_action_parse vs) = Some parsed" "vs \<noteq> []"
      and acts: "acts = filter (\<lambda>x. x \<in> set parsed) space_action_ALL"
    by (auto simp: space_actions_def split: if_splits)
  from p have "parsed \<noteq> []" by (rule those_map_nonempty)
  then obtain x where x: "x \<in> set parsed" by (cases parsed) auto
  moreover have "x \<in> set space_action_ALL" by (cases x) (auto simp: space_action_ALL_def)
  ultimately show ?thesis by (auto simp: acts filter_empty_conv intro!: filter_cong)
qed

lemma space_manages_wf:
  "space_manages m = Some ms \<Longrightarrow> ms = filter (\<lambda>x. x \<in> set ms) manage_op_ALL"
  by (auto simp: space_manages_def intro!: filter_cong split: if_splits option.splits)

lemma space_from_parts_wf: "space_from_parts t au sk c a m = Some p \<Longrightarrow> space_wf p"
  unfolding space_from_parts_def Let_def
  by (auto simp: space_wf_def split: if_splits option.splits
      dest: space_collections_wf space_actions_wf space_manages_wf)

lemma space_parse_wf: "space_parse decode s = Some p \<Longrightarrow> space_wf p"
  by (auto simp: space_parse_def Let_def intro: space_from_parts_wf split: if_splits option.splits)

section \<open>Writing a repo permission\<close>

definition render_repo :: "RepoPermission \<Rightarrow> string" where
  "render_repo p =
     render_scope ''repo'' None
       (map (\<lambda>c. (''collection'', c)) (repo_collection p) @
        map (\<lambda>a. (''action'', repo_action_as_str a)) (repo_action p))"

lemma repo_action_roundtrip [simp]: "repo_action_parse (repo_action_as_str a) = Some a"
  by (cases a) (simp_all add: repo_action_parse_def repo_action_as_str_def)

lemma those_roundtrip: "(\<And>x. f (g x) = Some x) \<Longrightarrow> those (map (f \<circ> g) xs) = Some xs"
  by (induction xs) auto

lemma label_char_plain: "list_all label_char s \<Longrightarrow> plain ''&%+'' s"
  unfolding plain_def
  by (erule list.pred_mono_strong)
    (auto simp: label_char_def is_ascii_alphanumeric_def is_ascii_alphabetic_def
        is_ascii_lowercase_def is_ascii_uppercase_def is_ascii_digit_def byte_def)

lemma plain_join:
  "list_all (plain r) xs \<Longrightarrow> CHR ''.'' \<notin> set r \<Longrightarrow> plain r (join ''.'' xs)"
proof (induction xs)
  case (Cons x xs)
  then show ?case by (cases xs) (auto simp: plain_def)
qed (simp add: plain_def)

lemma nsid_plain:
  assumes "is_nsid_or_wildcard c"
  shows "plain ''&%+'' c"
proof (cases "c = ''*''")
  case True
  then show ?thesis by (simp add: plain_def)
next
  case False
  with assms have "is_nsid_shape c" by (simp add: is_nsid_or_wildcard_def is_nsid_def is_ok_validate_nsid)
  then obtain a ls n where c: "c = join ''.'' (a # ls @ [n])"
      and l: "is_label a" "list_all is_label ls" "is_name n"
    by (auto simp: is_nsid_shape_join)
  then have "list_all (\<lambda>x. list_all label_char x) (a # ls @ [n])"
    using is_name_label [of n] by (auto simp: is_label_def list_all_iff)
  then have "list_all (plain ''&%+'') (a # ls @ [n])"
    by (rule list.pred_mono_strong) (rule label_char_plain)
  then show ?thesis unfolding c by (rule plain_join) simp
qed

lemma filter_key_map:
  "filter (\<lambda>(k, _). k = key) (map (\<lambda>x. (name, f x)) xs) = (if name = key then map (\<lambda>x. (name, f x)) xs else [])"
  by (induction xs) auto

section \<open>Properties\<close>

text \<open>
  A repo permission that a parser can return is recovered from its written form,
  the collections and actions in the same order.
\<close>

theorem repo_roundtrip:
  assumes "url_decoder decode" and "repo_wf p"
  shows "repo_parse decode (render_repo p) = Some p"
proof -
  let ?ps = "map (\<lambda>c. (''collection'', c)) (repo_collection p) @
        map (\<lambda>a. (''action'', repo_action_as_str a)) (repo_action p)"
  from assms(2) have c: "repo_collection p \<noteq> []" "list_all is_nsid_or_wildcard (repo_collection p)"
    and a: "repo_action p \<noteq> []" by (auto simp: repo_wf_def)
  have "plain ''&%+'' (repo_action_as_str x)" for x
    by (cases x) (simp_all add: repo_action_as_str_def plain_def)
  with c nsid_plain have "list_all (\<lambda>(k, v). plain ''&=%+'' k \<and> plain ''&%+'' v) ?ps"
    by (auto simp: list_all_iff) (simp_all add: plain_def)
  then have syn: "syntax_parse decode (render_repo p) =
      \<lparr>scope_prefix = ''repo'', positional = None, params = ?ps, has_query = True\<rparr>" (is "_ = ?syn")
    unfolding render_repo_def using c
    by (subst url_decoder.syntax_parse_render [OF assms(1)]) (auto simp: plain_def)
  have m: "get_multi ?syn ''collection'' = Some (repo_collection p)"
    "get_multi ?syn ''action'' = Some (map repo_action_as_str (repo_action p))"
    using c a by (simp_all add: get_multi_def filter_key_map comp_def)
  have k: "has_only_known_keys ?syn [''collection'', ''action'']"
    by (auto simp: has_only_known_keys_def list_all_iff)
  have "those (map repo_action_parse (map repo_action_as_str (repo_action p))) = Some (repo_action p)"
    by (simp add: those_roundtrip)
  with c a show ?thesis
    by (simp add: repo_parse_def syn k m positional_conflicts_def multi_or_positional_def repo_from_parts_def)
qed

theorem repo_roundtrip_witness:
  "repo_parse percent_decode (render_repo
     \<lparr>repo_collection = [''com.example.post'', ''*''], repo_action = [RepoCreate, RepoDelete]\<rparr>) =
   Some \<lparr>repo_collection = [''com.example.post'', ''*''], repo_action = [RepoCreate, RepoDelete]\<rparr>"
proof -
  have "repo_wf \<lparr>repo_collection = [''com.example.post'', ''*''], repo_action = [RepoCreate, RepoDelete]\<rparr>"
    by code_simp
  from repo_roundtrip [OF pct.url_decoder_axioms this] show ?thesis .
qed

text \<open>
  No rpc scope grants every method at every audience: each parsed permission
  refuses some call.
\<close>

theorem rpc_never_universal:
  assumes "rpc_parse decode s = Some p"
  shows "\<exists>lxm aud. \<not> rpc_matches p lxm aud"
proof -
  have fresh: "\<exists>x :: string. x \<notin> A" if "finite A" for A
    using that ex_new_if_finite infinite_UNIV_listI by blast
  from rpc_parse_wf [OF assms] consider "rpc_aud p \<noteq> ''*''" | "''*'' \<notin> set (rpc_lxm p)"
    by (auto simp: rpc_wf_def)
  then show ?thesis
  proof cases
    case 1
    from fresh [of "{rpc_aud p}"] obtain a where "a \<noteq> rpc_aud p" by auto
    with 1 show ?thesis by (auto simp: rpc_matches_def)
  next
    case 2
    from fresh [of "set (rpc_lxm p)"] obtain l where "l \<notin> set (rpc_lxm p)" by auto
    with 2 show ?thesis by (auto simp: rpc_matches_def list_ex_iff)
  qed
qed

theorem rpc_never_universal_witness:
  "rpc_parse percent_decode ''rpc:com.example.getPost?aud=*'' =
     Some \<lparr>rpc_aud = ''*'', rpc_lxm = [''com.example.getPost'']\<rparr> \<and>
   (\<exists>lxm aud. \<not> rpc_matches \<lparr>rpc_aud = ''*'', rpc_lxm = [''com.example.getPost'']\<rparr> lxm aud)"
proof -
  have h: "rpc_parse percent_decode ''rpc:com.example.getPost?aud=*'' =
      Some \<lparr>rpc_aud = ''*'', rpc_lxm = [''com.example.getPost'']\<rparr>" by code_simp
  from rpc_never_universal [OF h] h show ?thesis by blast
qed

lemma those_map_eq:
  "those (map f xs) = (if list_all (\<lambda>x. f x \<noteq> None) xs then Some (map (\<lambda>x. the (f x)) xs) else None)"
  by (induction xs) (auto split: option.splits)

lemma space_lists_by_set:
  "set vs = set ws \<Longrightarrow> space_collections (Some vs) = space_collections (Some ws)"
  "set as = set bs \<Longrightarrow> space_actions (Some as) = space_actions (Some bs)"
  "set ms = set ns \<Longrightarrow> space_manages (Some ms) = space_manages (Some ns)"
  by (auto simp: space_collections_def space_actions_def space_manages_def list_all_iff list_ex_iff
      remdups_adj_sort those_map_eq)

text \<open>
  A space grant is normalised: the order and the repetition of the collections,
  actions and management operations it is written with do not matter, so equal grants are equal
  values.
\<close>

theorem space_grant_normalised:
  assumes "set collections = set collections'" and "set actions = set actions'"
    and "set manages = set manages'"
  shows "space_from_parts ty authority skey (Some collections) (Some actions) (Some manages) =
    space_from_parts ty authority skey (Some collections') (Some actions') (Some manages')"
  unfolding space_from_parts_def space_lists_by_set(1) [OF assms(1)] space_lists_by_set(2) [OF assms(2)]
    space_lists_by_set(3) [OF assms(3)] ..

theorem space_grant_normalised_witness:
  "space_from_parts ''com.example.forum'' None None
     (Some [''com.example.b'', ''com.example.a'', ''com.example.b'']) (Some [''update'', ''read''])
     (Some [''delete'', ''delete'']) =
   space_from_parts ''com.example.forum'' None None
     (Some [''com.example.a'', ''com.example.b'']) (Some [''read'', ''update'']) (Some [''delete'']) \<and>
   space_from_parts ''com.example.forum'' None None
     (Some [''com.example.a'', ''com.example.b'']) (Some [''read'', ''update'']) (Some [''delete'']) \<noteq> None"
proof -
  have "space_from_parts ''com.example.forum'' None None
     (Some [''com.example.a'', ''com.example.b'']) (Some [''read'', ''update'']) (Some [''delete'']) \<noteq> None"
    by code_simp
  moreover have "set [''com.example.b'', ''com.example.a'', ''com.example.b''] = set [''com.example.a'', ''com.example.b'']"
    "set [''update'', ''read''] = set [''read'', ''update'']" "set [''delete'', ''delete''] = set [''delete'']"
    by auto
  ultimately show ?thesis using space_grant_normalised by blast
qed

end
