(* ===== verification/Scope_Include.thy ===== *)
theory Scope_Include
  imports Scope_Resources
begin

text \<open>
  \<open>include:\<close> scopes and the expansion of a lexicon permission set
  (crates/happyview-scopes/src/include.rs). The expansion is given the resolved document, so
  the model has no lookup either. The lemmas at the end are the containment argument: an
  included permission names only NSIDs under the including scope's authority group.
\<close>

section \<open>Data\<close>

datatype LexValue = LexScalar string | LexList "string list" | LexBool bool

record LexPermission =
  lex_resource :: string
  lex_params :: "(string \<times> LexValue) list"

record LexPermissionSet =
  lex_permissions :: "LexPermission list"

datatype IncludedPermission =
    IncRepo RepoPermission
  | IncRpc RpcPermission
  | IncSpace SpacePermission

record IncludeScope =
  inc_nsid :: string
  inc_aud :: "string option"

section \<open>Operations\<close>

definition lex_get :: "LexPermission \<Rightarrow> string \<Rightarrow> LexValue option" where
  "lex_get p key = map_option snd (find (\<lambda>(k, _). k = key) (lex_params p))"

definition lex_keys :: "LexPermission \<Rightarrow> string list" where
  "lex_keys p = map fst (lex_params p)"

definition lex_list :: "LexPermission \<Rightarrow> string \<Rightarrow> string list option" where
  "lex_list p key = (case lex_get p key of Some (LexList v) \<Rightarrow> Some v | _ \<Rightarrow> None)"

definition lex_scalar :: "LexPermission \<Rightarrow> string \<Rightarrow> string option" where
  "lex_scalar p key = (case lex_get p key of Some (LexScalar v) \<Rightarrow> Some v | _ \<Rightarrow> None)"

definition lex_bool :: "LexPermission \<Rightarrow> string \<Rightarrow> bool option" where
  "lex_bool p key = (case lex_get p key of Some (LexBool v) \<Rightarrow> Some v | _ \<Rightarrow> None)"

definition include_parse :: "decoder \<Rightarrow> string \<Rightarrow> IncludeScope option" where
  "include_parse decode scope =
     (let syn = syntax_parse decode scope in
      if scope_prefix syn \<noteq> ''include'' then None
      else if \<not> list_all (\<lambda>k. k \<in> set [''nsid'', ''aud'']) (syntax_keys syn) then None
      else if positional syn \<noteq> None \<and> get_multi syn ''nsid'' \<noteq> None then None
      else (case (case single_ok (get_single syn ''nsid'') of
                    None \<Rightarrow> None
                  | Some (Some v) \<Rightarrow> Some v
                  | Some None \<Rightarrow> positional syn) of
              None \<Rightarrow> None
            | Some nsid \<Rightarrow>
                if \<not> is_ok (validate_nsid nsid) then None
                else (case single_ok (get_single syn ''aud'') of
                        None \<Rightarrow> None
                      | Some aud \<Rightarrow>
                          if is_some_and aud (\<lambda>a. \<not> is_absolute_did_ref a) then None
                          else Some \<lparr>inc_nsid = nsid, inc_aud = aud\<rparr>)))"

definition expand_repo :: "LexPermission \<Rightarrow> IncludedPermission option" where
  "expand_repo permission =
     (if \<not> list_all (\<lambda>k. k \<in> set [''collection'', ''action'']) (lex_keys permission) then None
      else (case lex_list permission ''collection'' of
              None \<Rightarrow> None
            | Some collection \<Rightarrow>
                map_option IncRepo (repo_from_parts collection (lex_list permission ''action''))))"

definition expand_space :: "LexPermission \<Rightarrow> IncludedPermission option" where
  "expand_space permission =
     (if \<not> list_all
            (\<lambda>k. k \<in> set [''spaceType'', ''authority'', ''skey'', ''collection'', ''action'', ''manage''])
            (lex_keys permission)
      then None
      else (case lex_scalar permission ''spaceType'' of
              None \<Rightarrow> None
            | Some typ \<Rightarrow>
                map_option IncSpace
                  (space_from_parts typ (lex_scalar permission ''authority'')
                     (lex_scalar permission ''skey'') (lex_list permission ''collection'')
                     (lex_list permission ''action'') (lex_list permission ''manage''))))"

definition expand_rpc :: "IncludeScope \<Rightarrow> LexPermission \<Rightarrow> IncludedPermission option" where
  "expand_rpc self permission =
     (let declared_aud = lex_scalar permission ''aud'' in
      if is_some_and declared_aud (\<lambda>a. a \<noteq> ''*'') then None
      else
        let inherit = unwrap_or (lex_bool permission ''inheritAud'') False;
            (aud, allowed_keys) =
              (if inherit \<and> declared_aud = None \<and> inc_aud self \<noteq> None
               then (inc_aud self, [''lxm'', ''aud'', ''inheritAud''])
               else (declared_aud, [''lxm'', ''aud'']))
        in if \<not> list_all (\<lambda>k. k \<in> set allowed_keys) (lex_keys permission) then None
           else (case lex_list permission ''lxm'' of
                   None \<Rightarrow> None
                 | Some lxm \<Rightarrow> map_option IncRpc (rpc_from_parts lxm aud)))"

definition expand_one :: "IncludeScope \<Rightarrow> LexPermission \<Rightarrow> IncludedPermission option" where
  "expand_one self permission =
     (if lex_resource permission = ''repo'' then expand_repo permission
      else if lex_resource permission = ''space'' then expand_space permission
      else if lex_resource permission = ''rpc'' then expand_rpc self permission
      else None)"

definition is_parent_authority_of :: "IncludeScope \<Rightarrow> string \<Rightarrow> bool" where
  "is_parent_authority_of self other =
     (if other = ''*'' then False
      else (case str_rfind CHR ''.'' (inc_nsid self) of
              None \<Rightarrow> False
            | Some group_prefix_end \<Rightarrow>
                if length other \<le> group_prefix_end + 1 then False
                else take (group_prefix_end + 1) (inc_nsid self) = take (group_prefix_end + 1) other))"

definition is_allowed :: "IncludeScope \<Rightarrow> IncludedPermission \<Rightarrow> bool" where
  "is_allowed self permission =
     (case permission of
        IncRepo p \<Rightarrow> list_all (is_parent_authority_of self) (repo_collection p)
      | IncRpc p \<Rightarrow> list_all (is_parent_authority_of self) (rpc_lxm p)
      | IncSpace p \<Rightarrow> is_parent_authority_of self (space_type p))"

definition expand :: "IncludeScope \<Rightarrow> LexPermissionSet \<Rightarrow> IncludedPermission list" where
  "expand self s = filter (is_allowed self) (List.map_filter (expand_one self) (lex_permissions s))"

section \<open>Containment\<close>

lemma parent_authority_prefix:
  assumes "is_parent_authority_of self other"
  shows "\<exists>g n rest. inc_nsid self = g @ CHR ''.'' # n \<and> CHR ''.'' \<notin> set n \<and>
    other = g @ CHR ''.'' # rest \<and> rest \<noteq> []"
proof -
  from assms obtain e where e: "str_rfind CHR ''.'' (inc_nsid self) = Some e"
      and len: "e + 1 < length other"
      and eq: "take (e + 1) (inc_nsid self) = take (e + 1) other"
    by (auto simp: is_parent_authority_of_def not_le split: if_splits option.splits)
  from str_rfind_Some [OF e] have e': "e < length (inc_nsid self)" "inc_nsid self ! e = CHR ''.''"
      "CHR ''.'' \<notin> set (drop (Suc e) (inc_nsid self))" by auto
  have "inc_nsid self = take e (inc_nsid self) @ CHR ''.'' # drop (Suc e) (inc_nsid self)"
    using e' id_take_nth_drop by metis
  moreover have "other = take e (inc_nsid self) @ CHR ''.'' # drop (Suc e) other"
  proof -
    have "other = take (e + 1) other @ drop (e + 1) other" by simp
    also have "take (e + 1) other = take e (inc_nsid self) @ [CHR ''.'']"
      using eq [symmetric] e' by (simp add: take_Suc_conv_app_nth)
    finally show ?thesis by simp
  qed
  ultimately show ?thesis using e'(3) len by fastforce
qed

text \<open>
  The group of an NSID is everything below its authority. A permission that \<open>is_allowed\<close> keeps is
  held to the group in what it is about: the collections of a repository, methods, or the types of
  spaces. The collections inside a space are not held to it.
\<close>

definition in_group :: "IncludeScope \<Rightarrow> string \<Rightarrow> bool" where
  "in_group self nsid \<longleftrightarrow> (\<exists>g n rest. inc_nsid self = g @ CHR ''.'' # n \<and> CHR ''.'' \<notin> set n \<and>
     nsid = g @ CHR ''.'' # rest \<and> rest \<noteq> [])"

lemma parent_authority_group: "is_parent_authority_of self nsid \<Longrightarrow> in_group self nsid"
  using parent_authority_prefix by (simp add: in_group_def)

lemma no_wildcard_group: "\<not> is_parent_authority_of self ''*''"
  by (simp add: is_parent_authority_of_def)

lemma allowed_repo_reach: "is_allowed self (IncRepo p) \<Longrightarrow> repo_matches p c a \<Longrightarrow> in_group self c"
  using no_wildcard_group [of self]
  by (auto simp: is_allowed_def repo_matches_def list_all_iff list_ex_iff intro!: parent_authority_group)

lemma allowed_rpc_reach: "is_allowed self (IncRpc p) \<Longrightarrow> rpc_matches p m aud \<Longrightarrow> in_group self m"
  using no_wildcard_group [of self]
  by (auto simp: is_allowed_def rpc_matches_def list_all_iff list_ex_iff intro!: parent_authority_group)

lemma allowed_space_reach: "is_allowed self (IncSpace p) \<Longrightarrow> space_matches p t authority skey target \<Longrightarrow> in_group self t"
  using no_wildcard_group [of self]
  by (auto simp: is_allowed_def space_matches_def intro!: parent_authority_group split: if_splits)

text \<open>What a document says of the collections of a space.\<close>

definition names_collection :: "LexPermissionSet \<Rightarrow> string \<Rightarrow> bool" where
  "names_collection doc c \<longleftrightarrow> (\<exists>perm \<in> set (lex_permissions doc). lex_resource perm = ''space'' \<and>
     (\<exists>cs. lex_list perm ''collection'' = Some cs \<and> (c \<in> set cs \<or> ''*'' \<in> set cs)))"

lemma expand_space_collections:
  assumes "expand_space perm = Some (IncSpace p)" and "collection_allows p c"
  shows "\<exists>cs. lex_list perm ''collection'' = Some cs \<and> (c \<in> set cs \<or> ''*'' \<in> set cs)"
proof -
  from assms(1) have "Some (space_collection p) = space_collections (lex_list perm ''collection'')"
    by (auto simp: expand_space_def space_from_parts_def Let_def split: if_splits option.splits)
  with assms(2) show ?thesis
    by (cases "lex_list perm ''collection''")
      (auto simp: space_collections_def collection_allows_def list_ex_iff split: if_splits)
qed

section \<open>Properties\<close>

text \<open>
  Property C10. Authority containment: whatever the permission-set document declares, the collections
  of a repository, the methods and the types of spaces that an expanded permission matches lie below
  the namespace group of the including scope's own NSID. The collections inside a space may lie
  anywhere; a write to one is matched only in a space whose type is of the group, and only when the
  document names the collection or the wildcard.
\<close>

theorem expand_stays_in_authority:
  assumes "perm \<in> set (expand self doc)"
  shows "case perm of
      IncRepo p \<Rightarrow> (\<forall>c action. repo_matches p c action \<longrightarrow> in_group self c)
    | IncRpc p \<Rightarrow> (\<forall>m aud. rpc_matches p m aud \<longrightarrow> in_group self m)
    | IncSpace p \<Rightarrow> (\<forall>t authority skey target. space_matches p t authority skey target \<longrightarrow>
        in_group self t \<and> (\<forall>action c. target = TargetWrite action c \<longrightarrow> names_collection doc c))"
proof -
  from assms obtain lp where lp: "lp \<in> set (lex_permissions doc)" "expand_one self lp = Some perm"
      and ok: "is_allowed self perm" by (auto simp: expand_def List.map_filter_def)
  show ?thesis
  proof (cases perm)
    case (IncSpace p)
    with lp(2) have "lex_resource lp = ''space''" "expand_space lp = Some (IncSpace p)"
      by (auto simp: expand_one_def expand_repo_def expand_rpc_def Let_def split: if_splits option.splits)
    with lp(1) have "names_collection doc c" if "collection_allows p c" for c
      using expand_space_collections that by (force simp: names_collection_def)
    moreover have "collection_allows p c" if "space_matches p t authority skey (TargetWrite action c)"
      for t authority skey action c using that by (simp add: space_matches_def split: if_splits)
    ultimately show ?thesis using IncSpace ok allowed_space_reach by auto
  qed (use ok allowed_repo_reach allowed_rpc_reach in auto)
qed

text \<open>The document of the repository's own example: its space type is of the group, its collection is not.\<close>

theorem expand_stays_in_authority_witness:
  "\<exists>self doc p. expand self doc = [IncSpace p] \<and>
     space_matches p ''my.bulletin.board'' ''self'' ''k'' (TargetWrite SpaceCreate ''org.example.reaction'') \<and>
     in_group self ''my.bulletin.board'' \<and> names_collection doc ''org.example.reaction''"
proof -
  let ?doc = "\<lparr>lex_permissions = [\<lparr>lex_resource = ''space'',
    lex_params = [(''spaceType'', LexScalar ''my.bulletin.board''),
      (''collection'', LexList [''org.example.reaction''])]\<rparr>]\<rparr>"
  let ?self = "\<lparr>inc_nsid = ''my.bulletin.permissions'', inc_aud = None\<rparr>"
  define p where "p = the (space_from_parts ''my.bulletin.board'' None None (Some [''org.example.reaction'']) None None)"
  have e: "expand ?self ?doc = [IncSpace p]" unfolding p_def by code_simp
  have m: "space_matches p ''my.bulletin.board'' ''self'' ''k'' (TargetWrite SpaceCreate ''org.example.reaction'')"
    unfolding p_def by code_simp
  from e have "IncSpace p \<in> set (expand ?self ?doc)" by simp
  from expand_stays_in_authority [OF this] m
  have "in_group ?self ''my.bulletin.board''" "names_collection ?doc ''org.example.reaction''" by auto
  with e m show ?thesis by blast
qed

text \<open>A repository collection of another authority is dropped; the same collection inside a space is not.\<close>

lemma foreign_collection_only_in_spaces:
  "expand \<lparr>inc_nsid = ''my.bulletin.permissions'', inc_aud = None\<rparr>
     \<lparr>lex_permissions = [\<lparr>lex_resource = ''repo'', lex_params = [(''collection'', LexList [''org.example.reaction''])]\<rparr>]\<rparr> = []"
  "\<not> in_group \<lparr>inc_nsid = ''my.bulletin.permissions'', inc_aud = None\<rparr> ''org.example.reaction''"
proof -
  have "g = ''my.bulletin''" if "''my.bulletin.permissions'' = g @ CHR ''.'' # n" "CHR ''.'' \<notin> set n" for g n
    using that by (auto simp: Cons_eq_append_conv)
  note group = this
  show "\<not> in_group \<lparr>inc_nsid = ''my.bulletin.permissions'', inc_aud = None\<rparr> ''org.example.reaction''"
  proof
    assume "in_group \<lparr>inc_nsid = ''my.bulletin.permissions'', inc_aud = None\<rparr> ''org.example.reaction''"
    then obtain g n rest where g: "''my.bulletin.permissions'' = g @ CHR ''.'' # n" "CHR ''.'' \<notin> set n"
        and other: "''org.example.reaction'' = g @ CHR ''.'' # rest" by (auto simp: in_group_def)
    from other show False unfolding group [OF g] by simp
  qed
qed code_simp

text \<open>
  The audience of an expanded method permission is never the document's choice:
  it is the wildcard or the audience the user granted on the including scope.
\<close>

theorem expand_rpc_audience:
  assumes "IncRpc p \<in> set (expand self doc)"
  shows "rpc_aud p = ''*'' \<or> inc_aud self = Some (rpc_aud p)"
proof -
  from assms obtain perm where "expand_one self perm = Some (IncRpc p)"
    by (auto simp: expand_def List.map_filter_def)
  then have "expand_rpc self perm = Some (IncRpc p)"
    by (auto simp: expand_one_def expand_repo_def expand_space_def split: if_splits option.splits)
  then show ?thesis
    by (auto simp: expand_rpc_def rpc_from_parts_def Let_def is_some_and_def
        split: if_splits option.splits)
qed

theorem expand_rpc_audience_witness:
  "expand \<lparr>inc_nsid = ''com.example.authFull'', inc_aud = Some ''did:web:example.com#svc''\<rparr>
     \<lparr>lex_permissions = [\<lparr>lex_resource = ''rpc'',
       lex_params = [(''lxm'', LexList [''com.example.getPost'']), (''inheritAud'', LexBool True)]\<rparr>]\<rparr> =
   [IncRpc \<lparr>rpc_aud = ''did:web:example.com#svc'', rpc_lxm = [''com.example.getPost'']\<rparr>]"
  (is "expand ?self ?doc = [IncRpc ?p]")
proof -
  have e: "expand ?self ?doc = [IncRpc ?p]" by code_simp
  then have "IncRpc ?p \<in> set (expand ?self ?doc)" by simp
  from expand_rpc_audience [OF this] e show ?thesis by blast
qed

end
