(* ===== verification/Scope_Permissions.thy ===== *)
theory Scope_Permissions
  imports Scope_Include
begin

text \<open>
  A granted scope set and the questions it answers (crates/happyview-scopes/src/lib.rs). Every
  question parses each held scope as one resource and asks whether some parsed permission
  matches; the locale \<open>scope_resource\<close> states that pattern once, with the law that makes
  \<open>covers_scope\<close> sound: what a permission matches follows from one of the finitely many
  grants it is checked by. It is interpreted for every resource.
\<close>

section \<open>Data and construction\<close>

record ScopePermissions =
  scopes :: "string list"

fun parse_scope_list_loop :: "string list \<Rightarrow> string list \<Rightarrow> string list" where
  "parse_scope_list_loop out [] = out"
| "parse_scope_list_loop out (token # tokens) =
     parse_scope_list_loop (if list_ex (\<lambda>s. s = token) out then out else out @ [token]) tokens"

definition parse_scope_list :: "string \<Rightarrow> string list" where
  "parse_scope_list input = parse_scope_list_loop [] (split_whitespace input)"

definition permissions_parse :: "string \<Rightarrow> ScopePermissions" where
  "permissions_parse scope = \<lparr>scopes = parse_scope_list scope\<rparr>"

definition from_scopes :: "string list \<Rightarrow> ScopePermissions" where
  "from_scopes ss = \<lparr>scopes = ss\<rparr>"

section \<open>Questions\<close>

definition has :: "ScopePermissions \<Rightarrow> string \<Rightarrow> bool" where
  "has self scope = list_ex (\<lambda>s. s = scope) (scopes self)"

definition has_transition_generic :: "ScopePermissions \<Rightarrow> bool" where
  "has_transition_generic self = has self ''transition:generic''"

definition has_transition_email :: "ScopePermissions \<Rightarrow> bool" where
  "has_transition_email self = has self ''transition:email''"

definition has_transition_chat_bsky :: "ScopePermissions \<Rightarrow> bool" where
  "has_transition_chat_bsky self = has self ''transition:chat.bsky''"

definition allows_repo :: "decoder \<Rightarrow> ScopePermissions \<Rightarrow> string \<Rightarrow> RepoAction \<Rightarrow> bool" where
  "allows_repo decode self collection action =
     (if has_transition_generic self then True
      else list_ex (\<lambda>p. repo_matches p collection action)
             (List.map_filter (repo_parse decode) (scopes self)))"

definition allows_rpc :: "decoder \<Rightarrow> ScopePermissions \<Rightarrow> string \<Rightarrow> string \<Rightarrow> bool" where
  "allows_rpc decode self lxm aud =
     (if has_transition_generic self \<and> \<not> starts_with lxm ''chat.bsky.'' then True
      else if has_transition_chat_bsky self \<and> starts_with lxm ''chat.bsky.'' then True
      else list_ex (\<lambda>p. rpc_matches p lxm aud)
             (List.map_filter (rpc_parse decode) (scopes self)))"

definition allows_blob :: "decoder \<Rightarrow> ScopePermissions \<Rightarrow> string \<Rightarrow> bool" where
  "allows_blob decode self mime =
     (if has_transition_generic self then True
      else list_ex (\<lambda>p. blob_matches p mime)
             (List.map_filter (blob_parse decode) (scopes self)))"

definition allows_space ::
    "decoder \<Rightarrow> ScopePermissions \<Rightarrow> string \<Rightarrow> string \<Rightarrow> string \<Rightarrow> SpaceTarget \<Rightarrow> bool" where
  "allows_space decode self typ authority skey target =
     list_ex (\<lambda>p. space_matches p typ authority skey target)
       (List.map_filter (space_parse decode) (scopes self))"

definition allows_space_for_user ::
    "decoder \<Rightarrow> ScopePermissions \<Rightarrow> string \<Rightarrow> string \<Rightarrow> string \<Rightarrow> string \<Rightarrow> SpaceTarget \<Rightarrow> bool" where
  "allows_space_for_user decode self user_did typ authority skey target =
     list_ex (\<lambda>p. space_matches p typ authority skey target)
       (map (\<lambda>p. with_resolved_authority p user_did)
         (List.map_filter (space_parse decode) (scopes self)))"

definition allows_identity :: "decoder \<Rightarrow> ScopePermissions \<Rightarrow> string \<Rightarrow> bool" where
  "allows_identity decode self attr =
     list_ex (\<lambda>p. identity_matches p attr)
       (List.map_filter (identity_parse decode) (scopes self))"

definition allows_accept :: "decoder \<Rightarrow> ScopePermissions \<Rightarrow> string \<Rightarrow> bool" where
  "allows_accept decode self accept =
     (if has_transition_generic self then True
      else list_ex (\<lambda>p. list_ex (\<lambda>held. accept_covers held accept) (blob_accept p))
             (List.map_filter (blob_parse decode) (scopes self)))"

definition allows_account :: "decoder \<Rightarrow> ScopePermissions \<Rightarrow> string \<Rightarrow> AccountAction \<Rightarrow> bool" where
  "allows_account decode self attr action =
     (if has_transition_email self \<and> attr = ''email'' \<and> action = AccountRead then True
      else list_ex (\<lambda>p. account_matches p attr action)
             (List.map_filter (account_parse decode) (scopes self)))"

section \<open>Containment of one scope in a grant\<close>

definition covers_space :: "decoder \<Rightarrow> ScopePermissions \<Rightarrow> SpacePermission \<Rightarrow> bool" where
  "covers_space decode self p =
     (let allowed = allows_space decode self (space_type p) (space_authority p) (space_skey p);
          reads = list_all (\<lambda>action.
            case action of
              SpaceRead \<Rightarrow> allowed TargetRead
            | SpaceReadSelf \<Rightarrow> allowed TargetReadSelf
            | _ \<Rightarrow> True) (space_action p);
          writes = list_all (\<lambda>action.
            if action = SpaceRead \<or> action = SpaceReadSelf then True
            else list_all (\<lambda>collection. allowed (TargetWrite action collection)) (space_collection p))
            (space_action p);
          manages = list_all (\<lambda>op. allowed (TargetManage op)) (space_manage p)
      in reads \<and> writes \<and> manages)"

definition covers_scope :: "decoder \<Rightarrow> ScopePermissions \<Rightarrow> string \<Rightarrow> bool" where
  "covers_scope decode self scope =
     (if scope = ''atproto'' \<or> has self scope then True
      else (case split_once_any [CHR '':'', CHR ''?''] scope of
              None \<Rightarrow> False
            | Some (pre, _) \<Rightarrow>
                if pre = ''repo'' then
                  is_some_and (repo_parse decode scope) (\<lambda>p.
                    list_all (\<lambda>collection. list_all (\<lambda>action. allows_repo decode self collection action)
                      (repo_action p)) (repo_collection p))
                else if pre = ''rpc'' then
                  is_some_and (rpc_parse decode scope) (\<lambda>p.
                    list_all (\<lambda>lxm. allows_rpc decode self lxm (rpc_aud p)) (rpc_lxm p))
                else if pre = ''blob'' then
                  is_some_and (blob_parse decode scope) (\<lambda>p.
                    list_all (\<lambda>a. allows_accept decode self a) (blob_accept p))
                else if pre = ''identity'' then
                  is_some_and (identity_parse decode scope) (\<lambda>p.
                    allows_identity decode self (identity_attr p))
                else if pre = ''space'' then
                  is_some_and (space_parse decode scope) (covers_space decode self)
                else if pre = ''account'' then
                  is_some_and (account_parse decode scope) (\<lambda>p.
                    list_all (\<lambda>action. allows_account decode self (account_attr p) action)
                      (account_action p))
                else False))"

lemma set_parse_scope_list [simp]: "set (parse_scope_list s) = set (split_whitespace s)"
proof -
  have "set (parse_scope_list_loop out ts) = set out \<union> set ts" for out ts
    by (induction out ts rule: parse_scope_list_loop.induct) (auto simp: list_ex_iff)
  then show ?thesis by (simp add: parse_scope_list_def)
qed

section \<open>The resource interface\<close>

locale scope_resource =
  fixes parse :: "string \<Rightarrow> 'p option"
    and matches :: "'p \<Rightarrow> 'q \<Rightarrow> bool"
    and covers :: "'p \<Rightarrow> 'g \<Rightarrow> bool"
    and grants :: "'p \<Rightarrow> 'g list"
    and wf :: "'p \<Rightarrow> bool"
    and question :: "'q \<Rightarrow> bool"
  assumes parse_wf: "parse s = Some p \<Longrightarrow> wf p"
    and grants_suffice: "wf p \<Longrightarrow> question q \<Longrightarrow> matches p q \<Longrightarrow>
      \<exists>g\<in>set (grants p). \<forall>h. wf h \<longrightarrow> covers h g \<longrightarrow> matches h q"
begin

lemma answers_mono:
  "set held \<subseteq> set held' \<Longrightarrow> list_ex P (List.map_filter parse held) \<Longrightarrow>
     list_ex P (List.map_filter parse held')"
  by (auto simp: list_ex_map_filter)

lemma covered_matches:
  assumes "parse s = Some p" and "question q" and "matches p q"
    and "list_all (\<lambda>g. B g \<or> list_ex (\<lambda>h. covers h g) (List.map_filter parse held)) (grants p)"
    and "\<And>g. g \<in> set (grants p) \<Longrightarrow> B g \<Longrightarrow> (\<And>h. wf h \<Longrightarrow> covers h g \<Longrightarrow> matches h q) \<Longrightarrow> C"
  shows "C \<or> list_ex (\<lambda>h. matches h q) (List.map_filter parse held)"
proof -
  from assms(1-3) parse_wf grants_suffice obtain g where
    g: "g \<in> set (grants p)" "\<And>h. wf h \<Longrightarrow> covers h g \<Longrightarrow> matches h q" by blast
  with assms(4) consider "B g" | "list_ex (\<lambda>h. covers h g) (List.map_filter parse held)"
    by (auto simp: list_all_iff)
  then show ?thesis
  proof cases
    case 1
    with g assms(5) show ?thesis by blast
  next
    case 2
    then obtain t h where "t \<in> set held" "parse t = Some h" "covers h g"
      by (auto simp: list_ex_map_filter)
    moreover from this g(2) have "matches h q" by (simp add: parse_wf)
    ultimately show ?thesis by (auto simp: list_ex_map_filter)
  qed
qed

lemma token_contained:
  assumes tok: "list_ex (\<lambda>p. matches p q) (List.map_filter parse token)" and q: "question q"
    and cov: "\<And>s p. s \<in> set token \<Longrightarrow> parse s = Some p \<Longrightarrow> s \<notin> set held \<Longrightarrow>
      list_all (\<lambda>g. B g \<or> list_ex (\<lambda>h. covers h g) (List.map_filter parse held)) (grants p)"
    and B: "\<And>p g. wf p \<Longrightarrow> g \<in> set (grants p) \<Longrightarrow> B g \<Longrightarrow>
      (\<And>h. wf h \<Longrightarrow> covers h g \<Longrightarrow> matches h q) \<Longrightarrow> C"
  shows "C \<or> list_ex (\<lambda>h. matches h q) (List.map_filter parse held)"
proof -
  from tok obtain s p where s: "s \<in> set token" "parse s = Some p" "matches p q"
    by (auto simp: list_ex_map_filter)
  show ?thesis
  proof (cases "s \<in> set held")
    case True
    with s show ?thesis by (auto simp: list_ex_map_filter)
  next
    case False
    show ?thesis
      by (rule covered_matches [OF s(2) q s(3) cov [OF s(1,2) False]])
        (rule B [OF parse_wf [OF s(2)]])
  qed
qed

end

section \<open>The resources implement the interface\<close>

interpretation repo: scope_resource "repo_parse decode"
    "\<lambda>p (c, a). repo_matches p c a" "\<lambda>p (c, a). repo_matches p c a"
    "\<lambda>p. List.product (repo_collection p) (repo_action p)" repo_wf "\<lambda>_. True"
  for decode
proof
  fix p and q :: "string \<times> RepoAction"
  assume m: "case q of (c, a) \<Rightarrow> repo_matches p c a"
  obtain c a where q: "q = (c, a)" by (cases q)
  with m consider "''*'' \<in> set (repo_collection p)" | "c \<in> set (repo_collection p)"
    by (auto simp: repo_matches_def list_ex_iff)
  then show "\<exists>g\<in>set (List.product (repo_collection p) (repo_action p)).
      \<forall>h. repo_wf h \<longrightarrow> (case g of (c, a) \<Rightarrow> repo_matches h c a) \<longrightarrow> (case q of (c, a) \<Rightarrow> repo_matches h c a)"
  proof cases
    case 1
    with m q show ?thesis
      by (intro bexI [of _ "(''*'', a)"]) (auto simp: repo_matches_def list_ex_iff)
  next
    case 2
    with m q show ?thesis
      by (intro bexI [of _ "(c, a)"]) (auto simp: repo_matches_def list_ex_iff)
  qed
qed (rule repo_parse_wf)

interpretation rpc: scope_resource "rpc_parse decode"
    "\<lambda>p (l, au). rpc_matches p l au" "\<lambda>p (l, au). rpc_matches p l au"
    "\<lambda>p. map (\<lambda>l. (l, rpc_aud p)) (rpc_lxm p)" rpc_wf "\<lambda>_. True"
  for decode
proof
  fix p and q :: "string \<times> string"
  assume m: "case q of (l, au) \<Rightarrow> rpc_matches p l au"
  obtain l au where q: "q = (l, au)" by (cases q)
  with m consider "''*'' \<in> set (rpc_lxm p)" | "l \<in> set (rpc_lxm p)"
    by (auto simp: rpc_matches_def list_ex_iff)
  then show "\<exists>g\<in>set (map (\<lambda>l. (l, rpc_aud p)) (rpc_lxm p)).
      \<forall>h. rpc_wf h \<longrightarrow> (case g of (l, au) \<Rightarrow> rpc_matches h l au) \<longrightarrow> (case q of (l, au) \<Rightarrow> rpc_matches h l au)"
  proof cases
    case 1
    with m q show ?thesis
      by (intro bexI [of _ "(''*'', rpc_aud p)"]) (auto simp: rpc_matches_def list_ex_iff)
  next
    case 2
    with m q show ?thesis
      by (intro bexI [of _ "(l, rpc_aud p)"]) (auto simp: rpc_matches_def list_ex_iff)
  qed
qed (rule rpc_parse_wf)

text \<open>A pattern that covers another matches every concrete type the other one matches.\<close>

lemma accept_covers_prefix:
  assumes "accept_covers held (wpre @ ''*'')" and "is_accept held" and "wpre @ ''*'' \<noteq> ''*/*''"
  shows "held = ''*/*'' \<or> (\<exists>pre. held = pre @ ''*'' \<and> prefix pre wpre)"
proof (cases "strip_suffix held ''*''")
  case None
  with assms show ?thesis by (auto simp: accept_covers_def split: if_splits)
next
  case (Some pre)
  then have held: "held = pre @ ''*''" by (simp add: strip_suffix_Some_iff)
  have "pre \<noteq> wpre @ ''*''"
    using assms(2) held by (auto simp: is_accept_def ends_with_def suffix_def split: if_splits)
  with assms(1,3) Some held show ?thesis
    by (auto simp: accept_covers_def starts_with_def split: if_splits)
qed

lemma accept_covers_matches:
  assumes c: "accept_covers held wanted" and h: "is_accept held" and m: "accept_matches wanted mime"
  shows "accept_matches held mime"
proof (cases "held = ''*/*'' \<or> wanted = ''*/*''")
  case True
  with c show ?thesis by (auto simp: accept_covers_def accept_matches_def split: if_splits)
next
  case False
  show ?thesis
  proof (cases "strip_suffix wanted ''*''")
    case None
    with False m have "wanted = mime" by (simp add: accept_matches_def)
    with False c show ?thesis by (simp add: accept_covers_def accept_matches_def)
  next
    case (Some wpre)
    then have w: "wanted = wpre @ ''*''" by (simp add: strip_suffix_Some_iff)
    with False accept_covers_prefix [of held wpre] c h obtain pre
      where pre: "held = pre @ ''*''" "prefix pre wpre" by auto
    from False m Some have "prefix wpre mime" by (simp add: accept_matches_def starts_with_def)
    with pre have "prefix pre mime" by simp
    with False pre show ?thesis by (simp add: accept_matches_def starts_with_def)
  qed
qed

interpretation blob: scope_resource "blob_parse decode"
    blob_matches "\<lambda>p a. list_ex (\<lambda>held. accept_covers held a) (blob_accept p)"
    blob_accept blob_wf "\<lambda>_. True"
  for decode
proof
  fix p mime
  assume "blob_matches p mime"
  then obtain a where "a \<in> set (blob_accept p)" "is_mime mime" "accept_matches a mime"
    by (auto simp: blob_matches_def list_ex_iff)
  then show "\<exists>g\<in>set (blob_accept p).
      \<forall>h. blob_wf h \<longrightarrow> list_ex (\<lambda>held. accept_covers held g) (blob_accept h) \<longrightarrow> blob_matches h mime"
    by (intro bexI [of _ a])
      (auto simp: blob_matches_def blob_wf_def list_ex_iff list_all_iff intro: accept_covers_matches)
qed (rule blob_parse_wf)

interpretation identity: scope_resource "identity_parse decode"
    identity_matches identity_matches "\<lambda>p. [identity_attr p]" "\<lambda>_. True" "\<lambda>_. True"
  for decode
  by unfold_locales (auto simp: identity_matches_def)

interpretation account: scope_resource "account_parse decode"
    "\<lambda>p (attr, a). account_matches p attr a" "\<lambda>p (attr, a). account_matches p attr a"
    "\<lambda>p. map (\<lambda>a. (account_attr p, a)) (account_action p)" account_wf "\<lambda>_. True"
  for decode
proof
  fix p and q :: "string \<times> AccountAction"
  assume m: "case q of (attr, a) \<Rightarrow> account_matches p attr a"
  obtain attr a where q: "q = (attr, a)" by (cases q)
  with m obtain b where "attr = account_attr p" "b \<in> set (account_action p)" "b = AccountManage \<or> b = a"
    by (auto simp: account_matches_def)
  then show "\<exists>g\<in>set (map (\<lambda>a. (account_attr p, a)) (account_action p)). \<forall>h. account_wf h \<longrightarrow>
      (case g of (attr, a) \<Rightarrow> account_matches h attr a) \<longrightarrow> (case q of (attr, a) \<Rightarrow> account_matches h attr a)"
    by (auto simp: account_matches_def q)
qed (rule account_parse_wf)

text \<open>
  A \<open>space\<close> grant is asked either as held or with \<open>self\<close> read as the user; the targets it
  makes are its reads, each write against each collection, and its management operations. A
  write target carries a write action: \<open>Write\<close> with a read action is not a question.
\<close>

definition space_as_seen :: "string option \<Rightarrow> SpacePermission \<Rightarrow> SpacePermission" where
  "space_as_seen user p = (case user of None \<Rightarrow> p | Some did \<Rightarrow> with_resolved_authority p did)"

definition space_targets :: "SpacePermission \<Rightarrow> SpaceTarget list" where
  "space_targets p =
     concat (map (\<lambda>a. case a of
                        SpaceRead \<Rightarrow> [TargetRead]
                      | SpaceReadSelf \<Rightarrow> [TargetReadSelf]
                      | _ \<Rightarrow> map (TargetWrite a) (space_collection p)) (space_action p)) @
     map TargetManage (space_manage p)"

definition write_target_ok :: "SpaceTarget \<Rightarrow> bool" where
  "write_target_ok t = (case t of TargetWrite a _ \<Rightarrow> a \<noteq> SpaceRead \<and> a \<noteq> SpaceReadSelf | _ \<Rightarrow> True)"

definition space_asks ::
    "SpacePermission \<Rightarrow> string option \<times> string \<times> string \<times> string \<times> SpaceTarget \<Rightarrow> bool" where
  "space_asks p q = (case q of (user, typ, authority, skey, target) \<Rightarrow>
     space_matches (space_as_seen user p) typ authority skey target)"

definition space_covers :: "SpacePermission \<Rightarrow> string \<times> string \<times> string \<times> SpaceTarget \<Rightarrow> bool" where
  "space_covers p g = (case g of (typ, authority, skey, target) \<Rightarrow> space_matches p typ authority skey target)"

definition space_address :: "SpacePermission \<Rightarrow> string \<Rightarrow> string \<Rightarrow> string \<Rightarrow> bool" where
  "space_address p typ authority skey \<longleftrightarrow>
     (space_type p = ''*'' \<or> space_type p = typ) \<and>
     (space_authority p = ''*'' \<or> space_authority p = authority) \<and>
     (space_skey p = ''*'' \<or> space_skey p = skey)"

definition target_granted :: "SpacePermission \<Rightarrow> SpaceTarget \<Rightarrow> bool" where
  "target_granted p target =
     (case target of
        TargetManage op \<Rightarrow> op \<in> set (space_manage p)
      | TargetRead \<Rightarrow> SpaceRead \<in> set (space_action p)
      | TargetReadSelf \<Rightarrow> SpaceRead \<in> set (space_action p) \<or> SpaceReadSelf \<in> set (space_action p)
      | TargetWrite action collection \<Rightarrow>
          action \<in> set (space_action p) \<and> collection_allows p collection)"

lemma space_matches_split:
  "space_matches p typ au sk t \<longleftrightarrow> space_address p typ au sk \<and> target_granted p t"
  by (auto simp: space_matches_def space_address_def target_granted_def)

lemma space_address_covers:
  "space_address h (space_type p) (space_authority p) (space_skey p) \<Longrightarrow>
   space_address (space_as_seen u p) typ au sk \<Longrightarrow> space_address (space_as_seen u h) typ au sk"
  by (auto simp: space_address_def space_as_seen_def with_resolved_authority_def split: option.splits if_splits)

lemma target_granted_seen [simp]: "target_granted (space_as_seen u p) t = target_granted p t"
  by (auto simp: space_as_seen_def with_resolved_authority_def target_granted_def collection_allows_def
      split: option.splits SpaceTarget.splits)

lemma target_granted_from_targets:
  assumes "target_granted p t" and "write_target_ok t"
  shows "\<exists>g\<in>set (space_targets p). \<forall>h. target_granted h g \<longrightarrow> target_granted h t"
proof (cases t)
  case TargetRead
  with assms show ?thesis
    by (intro bexI [of _ TargetRead])
      (auto simp: target_granted_def space_targets_def intro: bexI [of _ SpaceRead])
next
  case TargetReadSelf
  with assms consider "SpaceRead \<in> set (space_action p)" | "SpaceReadSelf \<in> set (space_action p)"
    by (auto simp: target_granted_def)
  then show ?thesis
  proof cases
    case 1
    with TargetReadSelf show ?thesis
      by (intro bexI [of _ TargetRead])
        (auto simp: target_granted_def space_targets_def intro: bexI [of _ SpaceRead])
  next
    case 2
    with TargetReadSelf show ?thesis
      by (intro bexI [of _ TargetReadSelf])
        (auto simp: target_granted_def space_targets_def intro: bexI [of _ SpaceReadSelf])
  qed
next
  case (TargetWrite a c)
  with assms obtain d where d: "a \<in> set (space_action p)" "d \<in> set (space_collection p)" "d = ''*'' \<or> d = c"
    by (auto simp: target_granted_def collection_allows_def list_ex_iff)
  moreover have "TargetWrite a d \<in> set (space_targets p)"
    using d assms(2) TargetWrite
    by (auto simp: space_targets_def write_target_ok_def intro!: bexI [of _ a] split: SpaceAction.splits)
  ultimately show ?thesis
    using TargetWrite
    by (intro bexI [of _ "TargetWrite a d"]) (auto simp: target_granted_def collection_allows_def list_ex_iff)
next
  case (TargetManage op)
  with assms show ?thesis
    by (intro bexI [of _ t]) (auto simp: target_granted_def space_targets_def)
qed

interpretation space: scope_resource "space_parse decode" space_asks space_covers
    "\<lambda>p. map (\<lambda>t. (space_type p, space_authority p, space_skey p, t)) (space_targets p)"
    space_wf "\<lambda>(user, typ, authority, skey, target). write_target_ok target"
  for decode
proof
  fix p and q :: "string option \<times> string \<times> string \<times> string \<times> SpaceTarget"
  obtain u ty au sk t where q: "q = (u, ty, au, sk, t)" by (cases q)
  assume "case q of (user, typ, authority, skey, target) \<Rightarrow> write_target_ok target"
    and "space_asks p q"
  with q have ok: "write_target_ok t" and addr: "space_address (space_as_seen u p) ty au sk"
      and t: "target_granted p t"
    by (simp_all add: space_asks_def space_matches_split)
  from target_granted_from_targets [OF t ok] obtain g where
    g: "g \<in> set (space_targets p)" "\<And>h. target_granted h g \<Longrightarrow> target_granted h t" by blast
  then show "\<exists>g\<in>set (map (\<lambda>t. (space_type p, space_authority p, space_skey p, t)) (space_targets p)).
      \<forall>h. space_wf h \<longrightarrow> space_covers h g \<longrightarrow> space_asks h q"
    using addr space_address_covers q
    by (intro bexI [of _ "(space_type p, space_authority p, space_skey p, g)"])
      (auto simp: space_asks_def space_covers_def space_matches_split)
qed (rule space_parse_wf)

section \<open>Covered scopes grant nothing new\<close>

lemma find_any_min_idx: "find_any [c, d] s = min_idx (str_find d s) (str_find c s)"
proof (induction s)
  case (Cons x s)
  then show ?case by (auto simp: min_idx_def split: option.splits)
qed (simp add: min_idx_def)

lemma scope_prefix_split:
  "split_once_any [CHR '':'', CHR ''?''] s = Some (pre, r) \<Longrightarrow> scope_prefix (syntax_parse decode s) = pre"
  by (auto simp: split_once_any_def find_any_min_idx syntax_parse_def Let_def split: prod.splits)

lemma resource_parse_prefix:
  "repo_parse decode s = Some p \<Longrightarrow> scope_prefix (syntax_parse decode s) = ''repo''"
  "rpc_parse decode s = Some q \<Longrightarrow> scope_prefix (syntax_parse decode s) = ''rpc''"
  "blob_parse decode s = Some b \<Longrightarrow> scope_prefix (syntax_parse decode s) = ''blob''"
  "identity_parse decode s = Some i \<Longrightarrow> scope_prefix (syntax_parse decode s) = ''identity''"
  "account_parse decode s = Some a \<Longrightarrow> scope_prefix (syntax_parse decode s) = ''account''"
  "space_parse decode s = Some t \<Longrightarrow> scope_prefix (syntax_parse decode s) = ''space''"
  by (auto simp: resource_parse_defs Let_def split: if_splits)

lemma atproto_prefix: "scope_prefix (syntax_parse decode ''atproto'') = ''atproto''"
  by (simp add: syntax_parse_def min_idx_def)

lemma covers_transition [simp]:
  "covers_scope decode self ''transition:generic'' = has self ''transition:generic''"
  "covers_scope decode self ''transition:email'' = has self ''transition:email''"
  "covers_scope decode self ''transition:chat.bsky'' = has self ''transition:chat.bsky''"
  by (simp_all add: covers_scope_def split_once_any_def)

lemma covers_scope_prefix:
  assumes "covers_scope decode self s" and "\<not> has self s"
    and "scope_prefix (syntax_parse decode s) = pre" and "pre \<noteq> ''atproto''"
  shows "s \<noteq> ''atproto'' \<and> (\<exists>r. split_once_any [CHR '':'', CHR ''?''] s = Some (pre, r))"
proof -
  from assms have s: "s \<noteq> ''atproto''" using atproto_prefix by auto
  with assms(1,2) obtain a r where ar: "split_once_any [CHR '':'', CHR ''?''] s = Some (a, r)"
    by (cases "split_once_any [CHR '':'', CHR ''?''] s") (auto simp: covers_scope_def)
  with assms(3) have "a = pre" by (simp add: scope_prefix_split)
  with s ar show ?thesis by simp
qed

lemma covers_repo:
  assumes "covers_scope decode self s" and "repo_parse decode s = Some p" and "\<not> has self s"
  shows "list_all (\<lambda>(c, a). allows_repo decode self c a) (List.product (repo_collection p) (repo_action p))"
  using covers_scope_prefix [OF assms(1,3) resource_parse_prefix(1) [OF assms(2)]] assms
  by (auto simp: covers_scope_def is_some_and_def list_all_iff)

lemma covers_rpc:
  assumes "covers_scope decode self s" and "rpc_parse decode s = Some p" and "\<not> has self s"
  shows "list_all (\<lambda>(l, au). allows_rpc decode self l au) (map (\<lambda>l. (l, rpc_aud p)) (rpc_lxm p))"
  using covers_scope_prefix [OF assms(1,3) resource_parse_prefix(2) [OF assms(2)]] assms
  by (auto simp: covers_scope_def is_some_and_def list_all_iff)

lemma covers_blob:
  assumes "covers_scope decode self s" and "blob_parse decode s = Some p" and "\<not> has self s"
  shows "list_all (allows_accept decode self) (blob_accept p)"
  using covers_scope_prefix [OF assms(1,3) resource_parse_prefix(3) [OF assms(2)]] assms
  by (auto simp: covers_scope_def is_some_and_def list_all_iff)

lemma covers_identity:
  assumes "covers_scope decode self s" and "identity_parse decode s = Some p" and "\<not> has self s"
  shows "list_all (allows_identity decode self) [identity_attr p]"
  using covers_scope_prefix [OF assms(1,3) resource_parse_prefix(4) [OF assms(2)]] assms
  by (auto simp: covers_scope_def is_some_and_def)

lemma covers_account:
  assumes "covers_scope decode self s" and "account_parse decode s = Some p" and "\<not> has self s"
  shows "list_all (\<lambda>(attr, a). allows_account decode self attr a)
    (map (\<lambda>a. (account_attr p, a)) (account_action p))"
  using covers_scope_prefix [OF assms(1,3) resource_parse_prefix(5) [OF assms(2)]] assms
  by (auto simp: covers_scope_def is_some_and_def list_all_iff)

lemma covers_space_targets:
  "covers_space decode self p \<longleftrightarrow>
     list_all (allows_space decode self (space_type p) (space_authority p) (space_skey p)) (space_targets p)"
  (is "?l \<longleftrightarrow> list_all ?ok _")
proof -
  let ?R = "\<lambda>a. case a of SpaceRead \<Rightarrow> ?ok TargetRead | SpaceReadSelf \<Rightarrow> ?ok TargetReadSelf | _ \<Rightarrow> True"
  let ?W = "\<lambda>a. if a = SpaceRead \<or> a = SpaceReadSelf then True
    else list_all (\<lambda>c. ?ok (TargetWrite a c)) (space_collection p)"
  let ?T = "\<lambda>a. case a of SpaceRead \<Rightarrow> [TargetRead] | SpaceReadSelf \<Rightarrow> [TargetReadSelf]
    | _ \<Rightarrow> map (TargetWrite a) (space_collection p)"
  have pt: "?R a \<and> ?W a \<longleftrightarrow> list_all ?ok (?T a)" for a
    by (cases a) (auto simp: list_all_iff)
  have "?l \<longleftrightarrow> (\<forall>a\<in>set (space_action p). ?R a \<and> ?W a) \<and> (\<forall>op\<in>set (space_manage p). ?ok (TargetManage op))"
    unfolding covers_space_def Let_def list_all_iff by blast
  also have "\<dots> \<longleftrightarrow> (\<forall>a\<in>set (space_action p). list_all ?ok (?T a)) \<and>
      (\<forall>op\<in>set (space_manage p). ?ok (TargetManage op))"
    unfolding pt ..
  also have "\<dots> \<longleftrightarrow> list_all ?ok (space_targets p)"
    by (simp add: space_targets_def list_all_iff ball_Un)
  finally show ?thesis .
qed

lemma covers_space_scope:
  assumes "covers_scope decode self s" and "space_parse decode s = Some p" and "\<not> has self s"
  shows "list_all (\<lambda>(ty, au, sk, t). allows_space decode self ty au sk t)
    (map (\<lambda>t. (space_type p, space_authority p, space_skey p, t)) (space_targets p))"
  using covers_scope_prefix [OF assms(1,3) resource_parse_prefix(6) [OF assms(2)]] assms
  by (auto simp: covers_scope_def is_some_and_def covers_space_targets list_all_iff)

lemma has_iff [simp]: "has self s \<longleftrightarrow> s \<in> set (scopes self)"
  by (auto simp: has_def list_ex_iff)

lemma transition_covered:
  assumes "list_all (covers_scope decode client) (scopes token)"
  shows "has_transition_generic token \<Longrightarrow> has_transition_generic client"
    and "has_transition_email token \<Longrightarrow> has_transition_email client"
    and "has_transition_chat_bsky token \<Longrightarrow> has_transition_chat_bsky client"
  using assms
  by (auto simp: has_transition_generic_def has_transition_email_def has_transition_chat_bsky_def
      list_all_iff simp del: has_iff) (auto dest!: bspec)


text \<open>
  Property C7. A token whose every scope is covered by the client's registration may write a
  collection only if the client may.
\<close>

theorem covers_scope_repo_sound:
  assumes cov: "list_all (covers_scope decode client) (scopes token)"
    and tok: "allows_repo decode token collection action"
  shows "allows_repo decode client collection action"
proof (cases "has_transition_generic token")
  case True
  with transition_covered(1) [OF cov] show ?thesis by (simp add: allows_repo_def)
next
  case False
  with tok have "list_ex (\<lambda>p. case (collection, action) of (c, a) \<Rightarrow> repo_matches p c a)
      (List.map_filter (repo_parse decode) (scopes token))"
    by (simp add: allows_repo_def)
  then have "has_transition_generic client \<or>
      list_ex (\<lambda>p. case (collection, action) of (c, a) \<Rightarrow> repo_matches p c a)
        (List.map_filter (repo_parse decode) (scopes client))"
  proof (rule repo.token_contained [where B = "\<lambda>_. has_transition_generic client"])
    fix s p
    assume "s \<in> set (scopes token)" "repo_parse decode s = Some p" "s \<notin> set (scopes client)"
    with cov covers_repo [of decode client s p] show "list_all (\<lambda>g. has_transition_generic client \<or>
        list_ex (\<lambda>h. case g of (c, a) \<Rightarrow> repo_matches h c a)
          (List.map_filter (repo_parse decode) (scopes client)))
        (List.product (repo_collection p) (repo_action p))"
      by (auto simp: allows_repo_def list_all_iff split: if_splits)
  qed simp_all
  then show ?thesis by (auto simp: allows_repo_def)
qed

theorem covers_scope_repo_sound_witness:
  "list_all (covers_scope percent_decode (from_scopes [''repo:*?action=create&action=update'', ''blob:image/*''])) (scopes (from_scopes [''atproto'', ''repo:com.example.post?action=create''])) \<and>
   allows_repo percent_decode (from_scopes [''atproto'', ''repo:com.example.post?action=create'']) ''com.example.post'' RepoCreate \<and>
   allows_repo percent_decode (from_scopes [''repo:*?action=create&action=update'', ''blob:image/*'']) ''com.example.post'' RepoCreate"
proof -
  have h0: "list_all (covers_scope percent_decode (from_scopes [''repo:*?action=create&action=update'', ''blob:image/*''])) (scopes (from_scopes [''atproto'', ''repo:com.example.post?action=create'']))"
    by code_simp
  have h1: "allows_repo percent_decode (from_scopes [''atproto'', ''repo:com.example.post?action=create'']) ''com.example.post'' RepoCreate"
    by code_simp
  from h0 h1 covers_scope_repo_sound [OF h0 h1] show ?thesis by blast
qed

text \<open>
  Property C20. The same containment for method calls, except where it fails: a call under
  \<open>chat.bsky.\<close> by a client that holds \<open>transition:generic\<close> and not \<open>transition:chat.bsky\<close>.
\<close>

theorem covers_scope_rpc_sound:
  assumes cov: "list_all (covers_scope decode client) (scopes token)"
    and tok: "allows_rpc decode token lxm aud"
    and exc: "\<not> (starts_with lxm ''chat.bsky.'' \<and> has_transition_generic client \<and>
      \<not> has_transition_chat_bsky client)"
  shows "allows_rpc decode client lxm aud"
proof (cases "if starts_with lxm ''chat.bsky.'' then has_transition_chat_bsky token
    else has_transition_generic token")
  case True
  with transition_covered [OF cov] show ?thesis by (auto simp: allows_rpc_def split: if_splits)
next
  case False
  let ?C = "\<lambda>l. if starts_with l ''chat.bsky.'' then has_transition_chat_bsky client
    else has_transition_generic client"
  have allows: "allows_rpc decode client l au \<longleftrightarrow>
      ?C l \<or> list_ex (\<lambda>p. rpc_matches p l au) (List.map_filter (rpc_parse decode) (scopes client))" for l au
    by (auto simp: allows_rpc_def)
  from False tok have "list_ex (\<lambda>p. case (lxm, aud) of (l, au) \<Rightarrow> rpc_matches p l au)
      (List.map_filter (rpc_parse decode) (scopes token))"
    by (auto simp: allows_rpc_def split: if_splits)
  then have "?C lxm \<or> list_ex (\<lambda>p. case (lxm, aud) of (l, au) \<Rightarrow> rpc_matches p l au)
        (List.map_filter (rpc_parse decode) (scopes client))"
  proof (rule rpc.token_contained [where B = "\<lambda>(l, au). ?C l"])
    fix s p
    assume "s \<in> set (scopes token)" "rpc_parse decode s = Some p" "s \<notin> set (scopes client)"
    with cov covers_rpc [of decode client s p] show "list_all (\<lambda>g. (case g of (l, au) \<Rightarrow> ?C l) \<or>
        list_ex (\<lambda>h. case g of (l, au) \<Rightarrow> rpc_matches h l au)
          (List.map_filter (rpc_parse decode) (scopes client))) (map (\<lambda>l. (l, rpc_aud p)) (rpc_lxm p))"
      by (auto simp: allows list_all_iff)
  next
    fix p g
    assume p: "rpc_wf p" "g \<in> set (map (\<lambda>l. (l, rpc_aud p)) (rpc_lxm p))" "case g of (l, au) \<Rightarrow> ?C l"
      and g: "\<And>h. rpc_wf h \<Longrightarrow> (case g of (l, au) \<Rightarrow> rpc_matches h l au) \<Longrightarrow>
        (case (lxm, aud) of (l, au) \<Rightarrow> rpc_matches h l au)"
    from p(2) obtain l where l: "g = (l, rpc_aud p)" "l \<in> set (rpc_lxm p)" by auto
    with p(1) have "rpc_wf \<lparr>rpc_aud = rpc_aud p, rpc_lxm = [l]\<rparr>"
      by (auto simp: rpc_wf_def list_all_iff)
    from g [OF this] l have "l = ''*'' \<or> l = lxm" by (auto simp: rpc_matches_def)
    with p(3) l exc show "?C lxm" by (auto simp: starts_with_def split: if_splits)
  qed simp
  then show ?thesis by (simp add: allows)
qed

theorem covers_scope_rpc_sound_witness:
  "list_all (covers_scope percent_decode (from_scopes [''rpc:com.example.getPost?aud=*''])) (scopes (from_scopes [''rpc:com.example.getPost?aud=did:web:example.com%23svc''])) \<and>
   allows_rpc percent_decode (from_scopes [''rpc:com.example.getPost?aud=did:web:example.com%23svc'']) ''com.example.getPost'' ''did:web:example.com#svc'' \<and>
   \<not> (starts_with ''com.example.getPost'' ''chat.bsky.'' \<and> has_transition_generic (from_scopes [''rpc:com.example.getPost?aud=*'']) \<and> \<not> has_transition_chat_bsky (from_scopes [''rpc:com.example.getPost?aud=*''])) \<and>
   allows_rpc percent_decode (from_scopes [''rpc:com.example.getPost?aud=*'']) ''com.example.getPost'' ''did:web:example.com#svc''"
proof -
  have h0: "list_all (covers_scope percent_decode (from_scopes [''rpc:com.example.getPost?aud=*''])) (scopes (from_scopes [''rpc:com.example.getPost?aud=did:web:example.com%23svc'']))"
    by code_simp
  have h1: "allows_rpc percent_decode (from_scopes [''rpc:com.example.getPost?aud=did:web:example.com%23svc'']) ''com.example.getPost'' ''did:web:example.com#svc''"
    by code_simp
  have h2: "\<not> (starts_with ''com.example.getPost'' ''chat.bsky.'' \<and> has_transition_generic (from_scopes [''rpc:com.example.getPost?aud=*'']) \<and> \<not> has_transition_chat_bsky (from_scopes [''rpc:com.example.getPost?aud=*'']))"
    by code_simp
  from h0 h1 h2 covers_scope_rpc_sound [OF h0 h1 h2] show ?thesis by blast
qed

text \<open>
  Property C21. The exception of the rpc containment is real: a client holding only
  \<open>transition:generic\<close> covers \<open>rpc:*\<close> for one audience, which lets a token call a
  \<open>chat.bsky.\<close> method the client itself may not call.
\<close>

theorem covers_scope_rpc_wildcard_gap:
  "\<exists>client s. covers_scope percent_decode client s \<and>
     allows_rpc percent_decode (from_scopes [s]) ''chat.bsky.convo.getLog'' ''did:web:api.bsky.chat#bsky_chat'' \<and>
     \<not> allows_rpc percent_decode client ''chat.bsky.convo.getLog'' ''did:web:api.bsky.chat#bsky_chat''"
  by (rule exI [of _ "from_scopes [''transition:generic'']"],
      rule exI [of _ "''rpc:*?aud=did:web:api.bsky.chat%23bsky_chat''"]) code_simp

text \<open>
  Property C19. Containment for uploads: a token whose scopes are covered uploads a MIME type
  only if the client may, although coverage compares patterns and uploads name concrete types.
\<close>

theorem covers_scope_blob_sound:
  assumes cov: "list_all (covers_scope decode client) (scopes token)"
    and tok: "allows_blob decode token mime"
  shows "allows_blob decode client mime"
proof (cases "has_transition_generic token")
  case True
  with transition_covered(1) [OF cov] show ?thesis by (simp add: allows_blob_def)
next
  case False
  with tok have "list_ex (\<lambda>p. blob_matches p mime) (List.map_filter (blob_parse decode) (scopes token))"
    by (simp add: allows_blob_def)
  then have "has_transition_generic client \<or>
      list_ex (\<lambda>p. blob_matches p mime) (List.map_filter (blob_parse decode) (scopes client))"
  proof (rule blob.token_contained [where B = "\<lambda>_. has_transition_generic client"])
    fix s p
    assume "s \<in> set (scopes token)" "blob_parse decode s = Some p" "s \<notin> set (scopes client)"
    with cov covers_blob [of decode client s p] show "list_all (\<lambda>g. has_transition_generic client \<or>
        list_ex (\<lambda>h. list_ex (\<lambda>held. accept_covers held g) (blob_accept h))
          (List.map_filter (blob_parse decode) (scopes client))) (blob_accept p)"
      by (auto simp: allows_accept_def list_all_iff split: if_splits)
  qed simp_all
  then show ?thesis by (auto simp: allows_blob_def)
qed

theorem covers_scope_blob_sound_witness:
  "list_all (covers_scope percent_decode (from_scopes [''blob:image/*''])) (scopes (from_scopes [''blob:image/png''])) \<and>
   allows_blob percent_decode (from_scopes [''blob:image/png'']) ''image/png'' \<and>
   allows_blob percent_decode (from_scopes [''blob:image/*'']) ''image/png''"
proof -
  have h0: "list_all (covers_scope percent_decode (from_scopes [''blob:image/*''])) (scopes (from_scopes [''blob:image/png'']))"
    by code_simp
  have h1: "allows_blob percent_decode (from_scopes [''blob:image/png'']) ''image/png''"
    by code_simp
  from h0 h1 covers_scope_blob_sound [OF h0 h1] show ?thesis by blast
qed

definition email_read :: "ScopePermissions \<Rightarrow> string \<times> AccountAction \<Rightarrow> bool" where
  "email_read self q \<longleftrightarrow> has_transition_email self \<and> q = (''email'', AccountRead)"

lemma allows_account_iff:
  "allows_account decode self attr action \<longleftrightarrow> email_read self (attr, action) \<or>
     list_ex (\<lambda>p. case (attr, action) of (at, ac) \<Rightarrow> account_matches p at ac)
       (List.map_filter (account_parse decode) (scopes self))"
  by (auto simp: allows_account_def email_read_def)

lemma email_read_grant:
  assumes "account_wf p" and "g \<in> set (map (\<lambda>a. (account_attr p, a)) (account_action p))"
    and "email_read client g"
    and "\<And>h. account_wf h \<Longrightarrow> (case g of (at, ac) \<Rightarrow> account_matches h at ac) \<Longrightarrow>
      (case q of (at, ac) \<Rightarrow> account_matches h at ac)"
  shows "email_read client q"
proof -
  have "account_wf \<lparr>account_attr = account_attr p, account_action = [snd g]\<rparr>"
    using assms(1) by (auto simp: account_wf_def)
  from assms(4) [OF this] assms(2,3) show ?thesis
    by (auto simp: account_matches_def email_read_def split: prod.splits)
qed

text \<open>
  Containment for account attributes, with \<open>transition:email\<close> read as
  \<open>account:email?action=read\<close> on both sides.
\<close>

theorem covers_scope_account_sound:
  assumes cov: "list_all (covers_scope decode client) (scopes token)"
    and tok: "allows_account decode token attr action"
  shows "allows_account decode client attr action"
  unfolding allows_account_iff
proof (cases "email_read token (attr, action)")
  case True
  with transition_covered(2) [OF cov] show "email_read client (attr, action) \<or>
      list_ex (\<lambda>p. case (attr, action) of (at, ac) \<Rightarrow> account_matches p at ac)
        (List.map_filter (account_parse decode) (scopes client))" by (simp add: email_read_def)
next
  case False
  with tok have "list_ex (\<lambda>p. case (attr, action) of (at, ac) \<Rightarrow> account_matches p at ac)
      (List.map_filter (account_parse decode) (scopes token))" by (simp add: allows_account_iff)
  then show "email_read client (attr, action) \<or>
      list_ex (\<lambda>p. case (attr, action) of (at, ac) \<Rightarrow> account_matches p at ac)
        (List.map_filter (account_parse decode) (scopes client))"
  proof (rule account.token_contained [OF _ _ _ email_read_grant])
    fix s p
    assume "s \<in> set (scopes token)" "account_parse decode s = Some p" "s \<notin> set (scopes client)"
    with cov covers_account [of decode client s p]
    show "list_all (\<lambda>g. email_read client g \<or> list_ex (\<lambda>h. case g of (at, ac) \<Rightarrow> account_matches h at ac)
          (List.map_filter (account_parse decode) (scopes client)))
        (map (\<lambda>a. (account_attr p, a)) (account_action p))"
      by (auto simp: allows_account_iff list_all_iff)
  qed simp_all
qed

theorem covers_scope_account_sound_witness:
  "list_all (covers_scope percent_decode (from_scopes [''transition:email''])) (scopes (from_scopes [''account:email''])) \<and>
   allows_account percent_decode (from_scopes [''account:email'']) ''email'' AccountRead \<and>
   allows_account percent_decode (from_scopes [''transition:email'']) ''email'' AccountRead"
proof -
  have h0: "list_all (covers_scope percent_decode (from_scopes [''transition:email''])) (scopes (from_scopes [''account:email'']))"
    by code_simp
  have h1: "allows_account percent_decode (from_scopes [''account:email'']) ''email'' AccountRead"
    by code_simp
  from h0 h1 covers_scope_account_sound [OF h0 h1] show ?thesis by blast
qed

text \<open>Containment for identity attributes, which no transition scope grants.\<close>

theorem covers_scope_identity_sound:
  assumes cov: "list_all (covers_scope decode client) (scopes token)"
    and tok: "allows_identity decode token attr"
  shows "allows_identity decode client attr"
proof -
  from tok have "False \<or> list_ex (\<lambda>p. identity_matches p attr)
      (List.map_filter (identity_parse decode) (scopes client))"
    unfolding allows_identity_def
  proof (rule identity.token_contained [where B = "\<lambda>_. False"])
    fix s p
    assume "s \<in> set (scopes token)" "identity_parse decode s = Some p" "s \<notin> set (scopes client)"
    with cov covers_identity [of decode client s p]
    show "list_all (\<lambda>g. False \<or> list_ex (\<lambda>h. identity_matches h g)
        (List.map_filter (identity_parse decode) (scopes client))) [identity_attr p]"
      by (auto simp: allows_identity_def list_all_iff)
  qed simp_all
  then show ?thesis by (simp add: allows_identity_def)
qed

theorem covers_scope_identity_sound_witness:
  "list_all (covers_scope percent_decode (from_scopes [''identity:*''])) (scopes (from_scopes [''identity:handle''])) \<and>
   allows_identity percent_decode (from_scopes [''identity:handle'']) ''handle'' \<and>
   allows_identity percent_decode (from_scopes [''identity:*'']) ''handle''"
proof -
  have h0: "list_all (covers_scope percent_decode (from_scopes [''identity:*''])) (scopes (from_scopes [''identity:handle'']))"
    by code_simp
  have h1: "allows_identity percent_decode (from_scopes [''identity:handle'']) ''handle''"
    by code_simp
  from h0 h1 covers_scope_identity_sound [OF h0 h1] show ?thesis by blast
qed

lemma list_ex_space_seen:
  "allows_space decode self ty au sk t \<longleftrightarrow>
     list_ex (\<lambda>p. space_asks p (None, ty, au, sk, t)) (List.map_filter (space_parse decode) (scopes self))"
  "allows_space_for_user decode self u ty au sk t \<longleftrightarrow>
     list_ex (\<lambda>p. space_asks p (Some u, ty, au, sk, t)) (List.map_filter (space_parse decode) (scopes self))"
  by (simp_all add: allows_space_def allows_space_for_user_def space_asks_def space_as_seen_def
      list_ex_iff)

lemma space_contained:
  assumes cov: "list_all (covers_scope decode client) (scopes token)" and ok: "write_target_ok t"
    and tok: "list_ex (\<lambda>p. space_asks p (u, ty, au, sk, t))
      (List.map_filter (space_parse decode) (scopes token))"
  shows "list_ex (\<lambda>p. space_asks p (u, ty, au, sk, t))
      (List.map_filter (space_parse decode) (scopes client))"
proof -
  from tok have "False \<or> list_ex (\<lambda>p. space_asks p (u, ty, au, sk, t))
      (List.map_filter (space_parse decode) (scopes client))"
  proof (rule space.token_contained [where B = "\<lambda>_. False"])
    fix s p
    assume "s \<in> set (scopes token)" "space_parse decode s = Some p" "s \<notin> set (scopes client)"
    with cov covers_space_scope [of decode client s p]
    show "list_all (\<lambda>g. False \<or> list_ex (\<lambda>h. space_covers h g)
          (List.map_filter (space_parse decode) (scopes client)))
        (map (\<lambda>t. (space_type p, space_authority p, space_skey p, t)) (space_targets p))"
      by (auto simp: allows_space_def space_covers_def list_all_iff)
  qed (use ok in simp_all)
  then show ?thesis by simp
qed

text \<open>
  Property C18. Containment for spaces as a user's session asks them: coverage compares grants
  with an unresolved \<open>self\<close> authority, and still a covered token reaches no space, read,
  write or management operation of the user that the client's own grants do not reach.
\<close>

theorem covers_scope_space_sound:
  assumes cov: "list_all (covers_scope decode client) (scopes token)"
    and tgt: "write_target_ok target"
    and tok: "allows_space_for_user decode token user_did ty authority skey target"
  shows "allows_space_for_user decode client user_did ty authority skey target"
  using space_contained [OF cov tgt] tok by (simp add: list_ex_space_seen)

theorem covers_scope_space_sound_witness:
  "list_all (covers_scope percent_decode (from_scopes [''space:com.example.forum?collection=*''])) (scopes (from_scopes [''space:com.example.forum?action=create&collection=com.example.post''])) \<and>
   write_target_ok (TargetWrite SpaceCreate ''com.example.post'') \<and>
   allows_space_for_user percent_decode (from_scopes [''space:com.example.forum?action=create&collection=com.example.post'']) ''did:plc:alice'' ''com.example.forum'' ''did:plc:alice'' ''main'' (TargetWrite SpaceCreate ''com.example.post'') \<and>
   allows_space_for_user percent_decode (from_scopes [''space:com.example.forum?collection=*'']) ''did:plc:alice'' ''com.example.forum'' ''did:plc:alice'' ''main'' (TargetWrite SpaceCreate ''com.example.post'')"
proof -
  have h0: "list_all (covers_scope percent_decode (from_scopes [''space:com.example.forum?collection=*''])) (scopes (from_scopes [''space:com.example.forum?action=create&collection=com.example.post'']))"
    by code_simp
  have h1: "write_target_ok (TargetWrite SpaceCreate ''com.example.post'')"
    by code_simp
  have h2: "allows_space_for_user percent_decode (from_scopes [''space:com.example.forum?action=create&collection=com.example.post'']) ''did:plc:alice'' ''com.example.forum'' ''did:plc:alice'' ''main'' (TargetWrite SpaceCreate ''com.example.post'')"
    by code_simp
  from h0 h1 h2 covers_scope_space_sound [OF h0 h1 h2] show ?thesis by blast
qed

lemma transition_prefix:
  assumes "starts_with s ''transition:''"
  shows "scope_prefix (syntax_parse decode s) = ''transition''"
proof -
  from assms obtain r where "s = ''transition'' @ CHR '':'' # r"
    by (auto simp: starts_with_def prefix_def)
  then have "split_once_any [CHR '':'', CHR ''?''] s = Some (''transition'', r)"
    by (simp add: split_once_any_def)
  then show ?thesis by (rule scope_prefix_split)
qed

lemma map_filter_drop_transition:
  assumes "\<And>s. scope_prefix (syntax_parse decode s) = ''transition'' \<Longrightarrow> parse s = None"
  shows "List.map_filter parse (filter (\<lambda>s. \<not> starts_with s ''transition:'') ss) = List.map_filter parse ss"
  by (induction ss) (auto simp: List.map_filter_def assms transition_prefix)

text \<open>
  The legacy \<open>transition:\<close> scopes grant no permissioned data and no identity
  change: dropping them from a session changes neither answer.
\<close>

theorem transition_scopes_reach_no_space:
  "allows_space_for_user decode
     (from_scopes (filter (\<lambda>s. \<not> starts_with s ''transition:'') (scopes self))) user_did ty authority skey target =
   allows_space_for_user decode self user_did ty authority skey target \<and>
   allows_identity decode (from_scopes (filter (\<lambda>s. \<not> starts_with s ''transition:'') (scopes self))) attr =
   allows_identity decode self attr"
  unfolding allows_space_for_user_def allows_identity_def from_scopes_def
  by (simp add: map_filter_drop_transition [of decode "space_parse decode"]
      map_filter_drop_transition [of decode "identity_parse decode"] space_parse_def identity_parse_def)

end
