(* ===== verification/Linked_Scope.thy ===== *)
theory Linked_Scope
  imports Scope_Permissions
begin

text \<open>
  Scope handling of linked repositories (src/linked\_repos/scope.rs) and the scope guards of the
  writes made through them (src/linked\_repos/pds.rs): operator-facing validation of a scope
  token, the advertised union of all grants, the base scopes of an API client, and the guards
  of put, create, delete and upload. An operator-facing message is a value of \<open>ScopeMessage\<close>,
  one constructor per wording, carrying what the wording interpolates.
\<close>

section \<open>Validation\<close>

datatype ScopeMessage =
    EmptyScope
  | UnknownScope string
  | RepoCommaActions string "string list"
  | InvalidRepoScope string
  | InvalidBlobScope string
  | RpcMissingAudience string
  | RpcBadAudience string
  | InvalidSpaceScope string
  | InvalidIdentityScope string
  | InvalidAccountScope string
  | InvalidIncludeScope string
  | TransitionNeedsValue
  | UnknownTransition string
  | UnknownPrefix string

definition TRANSITION_VALUES :: "string list" where
  "TRANSITION_VALUES = [''generic'', ''chat.bsky'', ''email'']"

fun repo_scope_error_loop :: "string \<Rightarrow> string list \<Rightarrow> ScopeMessage" where
  "repo_scope_error_loop scope [] = InvalidRepoScope scope"
| "repo_scope_error_loop scope (pair # pairs) =
     (case strip_prefix pair ''action='' of
        Some value \<Rightarrow>
          if CHR '','' \<in> set value then
            RepoCommaActions scope
              (map (\<lambda>a. ''action='' @ a) (filter (\<lambda>a. a \<noteq> []) (split_on CHR '','' value)))
          else repo_scope_error_loop scope pairs
      | None \<Rightarrow> repo_scope_error_loop scope pairs)"

definition repo_scope_error :: "string \<Rightarrow> ScopeMessage" where
  "repo_scope_error scope =
     (case split_once CHR ''?'' scope of
        Some (_, query) \<Rightarrow> repo_scope_error_loop scope (split_on CHR ''&'' query)
      | None \<Rightarrow> InvalidRepoScope scope)"

definition ok_or :: "'a option \<Rightarrow> 'e \<Rightarrow> 'e + unit" where
  "ok_or x e = (case x of Some _ \<Rightarrow> Ok () | None \<Rightarrow> Err e)"

definition scope_validate :: "decoder \<Rightarrow> string \<Rightarrow> ScopeMessage + unit" where
  "scope_validate decode scope =
     (if scope = [] then Err EmptyScope
      else if scope = ''atproto'' then Ok ()
      else (case split_once_any [CHR '':'', CHR ''?''] scope of
              None \<Rightarrow> Err (UnknownScope scope)
            | Some (pre, _) \<Rightarrow>
                if pre = ''repo'' then ok_or (repo_parse decode scope) (repo_scope_error scope)
                else if pre = ''blob'' then ok_or (blob_parse decode scope) (InvalidBlobScope scope)
                else if pre = ''rpc'' then
                  ok_or (rpc_parse decode scope)
                    (if \<not> sublist ''aud='' scope then RpcMissingAudience scope else RpcBadAudience scope)
                else if pre = ''space'' then ok_or (space_parse decode scope) (InvalidSpaceScope scope)
                else if pre = ''identity'' then
                  ok_or (identity_parse decode scope) (InvalidIdentityScope scope)
                else if pre = ''account'' then
                  ok_or (account_parse decode scope) (InvalidAccountScope scope)
                else if pre = ''include'' then
                  ok_or (include_parse decode scope) (InvalidIncludeScope scope)
                else if pre = ''transition'' then
                  (case strip_prefix scope ''transition:'' of
                     Some value \<Rightarrow>
                       if value \<in> set TRANSITION_VALUES then Ok ()
                       else if value = [] then Err TransitionNeedsValue
                       else Err (UnknownTransition value)
                   | None \<Rightarrow> Err TransitionNeedsValue)
                else Err (UnknownPrefix pre)))"

section \<open>Base scopes and the advertised union\<close>

fun client_scope_loop :: "decoder \<Rightarrow> string list \<Rightarrow> string" where
  "client_scope_loop decode [] = []"
| "client_scope_loop decode (pair # pairs) =
     (case strip_prefix pair ''scope='' of
        None \<Rightarrow> client_scope_loop decode pairs
      | Some value \<Rightarrow>
          let value = replace_char CHR ''+'' CHR '' '' value in unwrap_or (decode value) value)"

definition client_base_scopes :: "decoder \<Rightarrow> string option \<Rightarrow> string \<Rightarrow> string" where
  "client_base_scopes decode scope client_id =
     (case (case map_option trim scope of
              Some s \<Rightarrow> if s \<noteq> [] then Some s else None
            | None \<Rightarrow> None) of
        Some s \<Rightarrow> s
      | None \<Rightarrow>
          (case split_once CHR ''?'' client_id of
             None \<Rightarrow> []
           | Some (_, query) \<Rightarrow> client_scope_loop decode (split_on CHR ''&'' query)))"

fun push_new :: "string list \<Rightarrow> string list \<Rightarrow> string list" where
  "push_new all [] = all"
| "push_new all (scope # rest) = push_new (if scope \<in> set all then all else all @ [scope]) rest"

fun union_loop :: "string list \<Rightarrow> string list \<Rightarrow> string list" where
  "union_loop all [] = all"
| "union_loop all (grant_scopes # rest) = union_loop (push_new all (parse_scope_list grant_scopes)) rest"

definition scope_union :: "string list \<Rightarrow> string \<Rightarrow> string" where
  "scope_union scope_strings base =
     join '' '' (sort (union_loop (parse_scope_list base) scope_strings))"

section \<open>Questions of a grant and the write guards\<close>

definition linked_allows_repo :: "decoder \<Rightarrow> string list \<Rightarrow> string \<Rightarrow> RepoAction \<Rightarrow> bool" where
  "linked_allows_repo decode ss collection action = allows_repo decode (from_scopes ss) collection action"

definition linked_allows_blob :: "decoder \<Rightarrow> string list \<Rightarrow> string \<Rightarrow> bool" where
  "linked_allows_blob decode ss mime =
     (let mime = to_ascii_lowercase (trim (hd (split_on CHR '';'' mime)));
          canonical = map (\<lambda>s. if starts_with s ''blob:'' then to_ascii_lowercase s else s) ss
      in allows_blob decode (from_scopes canonical) mime)"

record LinkedRepo =
  linked_id :: string
  linked_did :: "string option"
  linked_handle :: "string option"
  linked_reason :: "string option"
  linked_scopes :: string
  linked_status :: string
  linked_last_error :: "string option"
  linked_last_refreshed_at :: "string option"
  linked_authorized_at :: "string option"
  linked_created_by :: string
  linked_created_at :: string

datatype LinkedError =
    NotAuthorizedYet string
  | LacksRepoScope string RepoAction string
  | LacksPutUpdate string string
  | LacksPutBoth string string
  | LacksBlobScope string string

definition grant_name :: "LinkedRepo \<Rightarrow> string" where
  "grant_name grant = unwrap_or (linked_did grant) (linked_id grant)"

definition require_did :: "LinkedRepo \<Rightarrow> LinkedError + string" where
  "require_did grant =
     (case linked_did grant of Some did \<Rightarrow> Ok did | None \<Rightarrow> Err (NotAuthorizedYet (linked_id grant)))"

definition require_repo_scope ::
    "decoder \<Rightarrow> LinkedRepo \<Rightarrow> string \<Rightarrow> RepoAction \<Rightarrow> LinkedError + unit" where
  "require_repo_scope decode grant collection action =
     (let ss = parse_scope_list (linked_scopes grant) in
      if linked_allows_repo decode ss collection action then Ok ()
      else Err (LacksRepoScope (grant_name grant) action collection))"

definition require_put_scope :: "decoder \<Rightarrow> LinkedRepo \<Rightarrow> string \<Rightarrow> bool \<Rightarrow> LinkedError + unit" where
  "require_put_scope decode grant collection has_swap =
     (let ss = parse_scope_list (linked_scopes grant) in
      if has_swap then
        (if linked_allows_repo decode ss collection RepoUpdate then Ok ()
         else Err (LacksPutUpdate (grant_name grant) collection))
      else
        let can_create = linked_allows_repo decode ss collection RepoCreate;
            can_update = linked_allows_repo decode ss collection RepoUpdate
        in if can_create \<and> can_update then Ok ()
           else Err (LacksPutBoth (grant_name grant) collection))"

definition require_blob_scope :: "decoder \<Rightarrow> LinkedRepo \<Rightarrow> string \<Rightarrow> LinkedError + unit" where
  "require_blob_scope decode grant mime =
     (let ss = parse_scope_list (linked_scopes grant) in
      if linked_allows_blob decode ss mime then Ok ()
      else Err (LacksBlobScope (grant_name grant) mime))"

section \<open>Validation accepts what some parser reads\<close>

lemma no_separator_parse:
  assumes "split_once_any [CHR '':'', CHR ''?''] s = None"
  shows "repo_parse decode s = None" "rpc_parse decode s = None" "blob_parse decode s = None"
    "identity_parse decode s = None" "account_parse decode s = None" "space_parse decode s = None"
    "include_parse decode s = None"
proof -
  from assms have "min_idx (str_find CHR ''?'' s) (str_find CHR '':'' s) = None"
    by (simp add: split_once_any_def find_any_min_idx)
  then have syn: "syntax_parse decode s =
      \<lparr>scope_prefix = s, positional = None, params = [], has_query = False\<rparr>"
    by (simp add: syntax_parse_def)
  show "repo_parse decode s = None" "rpc_parse decode s = None" "blob_parse decode s = None"
    "identity_parse decode s = None" "account_parse decode s = None" "space_parse decode s = None"
    "include_parse decode s = None"
    by (simp_all add: resource_parse_defs include_parse_def syn multi_or_positional_def
        single_or_positional_def get_multi_def get_single_def single_ok_def Let_def)
qed

lemma include_parse_prefix:
  "include_parse decode s = Some i \<Longrightarrow> scope_prefix (syntax_parse decode s) = ''include''"
  by (auto simp: include_parse_def Let_def split: if_splits)

lemma parse_prefix_split:
  assumes "split_once_any [CHR '':'', CHR ''?''] s = Some (pre, r)"
  shows "pre \<noteq> ''repo'' \<Longrightarrow> repo_parse decode s = None"
    "pre \<noteq> ''rpc'' \<Longrightarrow> rpc_parse decode s = None"
    "pre \<noteq> ''blob'' \<Longrightarrow> blob_parse decode s = None"
    "pre \<noteq> ''identity'' \<Longrightarrow> identity_parse decode s = None"
    "pre \<noteq> ''account'' \<Longrightarrow> account_parse decode s = None"
    "pre \<noteq> ''space'' \<Longrightarrow> space_parse decode s = None"
    "pre \<noteq> ''include'' \<Longrightarrow> include_parse decode s = None"
proof -
  have pre: "scope_prefix (syntax_parse decode s) = pre" by (rule scope_prefix_split [OF assms])
  show "pre \<noteq> ''repo'' \<Longrightarrow> repo_parse decode s = None"
    "pre \<noteq> ''rpc'' \<Longrightarrow> rpc_parse decode s = None"
    "pre \<noteq> ''blob'' \<Longrightarrow> blob_parse decode s = None"
    "pre \<noteq> ''identity'' \<Longrightarrow> identity_parse decode s = None"
    "pre \<noteq> ''account'' \<Longrightarrow> account_parse decode s = None"
    "pre \<noteq> ''space'' \<Longrightarrow> space_parse decode s = None"
    "pre \<noteq> ''include'' \<Longrightarrow> include_parse decode s = None"
    by (simp_all add: resource_parse_defs include_parse_def pre)
qed

lemma transition_split:
  "split_once_any [CHR '':'', CHR ''?''] (''transition:'' @ v) = Some (''transition'', v)"
  by (simp add: split_once_any_def)

lemma strip_prefix_transition:
  "is_ok (case strip_prefix s ''transition:'' of
       Some value \<Rightarrow>
         if value \<in> set TRANSITION_VALUES then Ok ()
         else if value = [] then Err TransitionNeedsValue
         else Err (UnknownTransition value)
     | None \<Rightarrow> Err TransitionNeedsValue) \<longleftrightarrow> (\<exists>v\<in>set TRANSITION_VALUES. s = ''transition:'' @ v)"
  by (cases "strip_prefix s ''transition:''")
    (auto simp: is_ok_def strip_prefix_Some_iff simp del: append.simps) 

lemma is_ok_ok_or [simp]: "is_ok (ok_or x e) \<longleftrightarrow> x \<noteq> None"
  by (auto simp: ok_or_def is_ok_def split: option.splits)

lemma is_ok_simps [simp]: "is_ok (Ok x)" "\<not> is_ok (Err e)"
  by (simp_all add: is_ok_def)

text \<open>Some parser of the scope grammar reads the token.\<close>

definition readable_scope :: "decoder \<Rightarrow> string \<Rightarrow> bool" where
  "readable_scope decode s \<longleftrightarrow>
     repo_parse decode s \<noteq> None \<or> rpc_parse decode s \<noteq> None \<or> blob_parse decode s \<noteq> None \<or>
     identity_parse decode s \<noteq> None \<or> account_parse decode s \<noteq> None \<or> space_parse decode s \<noteq> None \<or>
     include_parse decode s \<noteq> None"

section \<open>The union\<close>

lemma set_push_new [simp]: "set (push_new all xs) = set all \<union> set xs"
  by (induction all xs rule: push_new.induct) auto

lemma distinct_push_new: "distinct all \<Longrightarrow> distinct (push_new all xs)"
  by (induction all xs rule: push_new.induct) auto

lemma set_union_loop [simp]:
  "set (union_loop all ss) = set all \<union> (\<Union>s\<in>set ss. set (parse_scope_list s))"
  by (induction all ss rule: union_loop.induct) auto

lemma distinct_union_loop: "distinct all \<Longrightarrow> distinct (union_loop all ss)"
  by (induction all ss rule: union_loop.induct) (auto simp: distinct_push_new)

lemma parse_scope_list_push_new: "parse_scope_list_loop out ts = push_new out ts"
  by (induction out ts rule: push_new.induct) (auto simp: list_ex_iff)

lemma distinct_parse_scope_list: "distinct (parse_scope_list s)"
  by (simp add: parse_scope_list_def parse_scope_list_push_new distinct_push_new)

lemma push_new_distinct: "distinct (all @ ts) \<Longrightarrow> push_new all ts = all @ ts"
  by (induction all ts rule: push_new.induct) auto

lemma parse_scope_list_join:
  assumes "list_all (\<lambda>t. t \<noteq> [] \<and> ws_free t) ts" and "distinct ts"
  shows "parse_scope_list (join '' '' ts) = ts"
  using assms by (simp add: parse_scope_list_def parse_scope_list_push_new split_whitespace_join push_new_distinct)

section \<open>Properties\<close>

text \<open>
  Validation dispatches on the text before the first separator, and accepts exactly
  \<open>atproto\<close>, the three known transition scopes and the tokens some parser of the grammar reads.
\<close>

theorem scope_validate_accepts:
  "is_ok (scope_validate decode s) =
     (s = ''atproto'' \<or> s \<in> set (map (\<lambda>v. ''transition:'' @ v) TRANSITION_VALUES) \<or> readable_scope decode s)"
proof (cases "split_once_any [CHR '':'', CHR ''?''] s")
  case None
  have "s \<noteq> ''transition:'' @ v" for v using None transition_split by force
  with None show ?thesis
    by (auto simp: scope_validate_def readable_scope_def no_separator_parse)
next
  case (Some pr)
  obtain pre r where pr: "pr = (pre, r)" by (cases pr)
  note only = parse_prefix_split [OF Some [unfolded pr], of decode]
  define T where "T \<longleftrightarrow> (\<exists>v\<in>set TRANSITION_VALUES. s = ''transition:'' @ v)"
  have tr: "\<not> T" if "pre \<noteq> ''transition''"
    using that Some pr transition_split unfolding T_def by force
  have ne: "s \<noteq> ''atproto''" "s \<noteq> []" using Some by (auto simp: split_once_any_def)
  have "is_ok (scope_validate decode s) \<longleftrightarrow>
      (if pre = ''repo'' then repo_parse decode s \<noteq> None else if pre = ''blob'' then blob_parse decode s \<noteq> None
       else if pre = ''rpc'' then rpc_parse decode s \<noteq> None
       else if pre = ''space'' then space_parse decode s \<noteq> None
       else if pre = ''identity'' then identity_parse decode s \<noteq> None
       else if pre = ''account'' then account_parse decode s \<noteq> None
       else if pre = ''include'' then include_parse decode s \<noteq> None
       else if pre = ''transition'' then T else False)"
    unfolding scope_validate_def Some pr option.case prod.case if_not_P [OF ne(1)] if_not_P [OF ne(2)]
      if_distrib [of is_ok] is_ok_ok_or strip_prefix_transition T_def
    by (simp only: is_ok_simps)
  also have "\<dots> \<longleftrightarrow> readable_scope decode s \<or> T"
  proof -
    consider "pre = ''repo''" | "pre = ''blob''" | "pre = ''rpc''" | "pre = ''space''" | "pre = ''identity''"
      | "pre = ''account''" | "pre = ''include''" | "pre = ''transition''"
      | "pre \<notin> set [''repo'', ''blob'', ''rpc'', ''space'', ''identity'', ''account'', ''include'', ''transition'']"
      by auto
    then show ?thesis
      unfolding readable_scope_def by cases (simp_all add: only tr)
  qed
  finally show ?thesis using ne(1) by (auto simp: T_def)
qed

text \<open>
  The advertised union read back is the sorted list, without repeats, of exactly
  the scopes of the base and of every grant.
\<close>

theorem scope_union_spec:
  "parse_scope_list (scope_union scope_strings base) =
     sorted_list_of_set (\<Union>s\<in>set (base # scope_strings). set (parse_scope_list s))"
proof -
  let ?all = "union_loop (parse_scope_list base) scope_strings"
  have "list_all (\<lambda>t. t \<noteq> [] \<and> ws_free t) (sort ?all)"
    using split_whitespace_words by (auto simp: list_all_iff)
  moreover have d: "distinct ?all" by (simp add: distinct_union_loop distinct_parse_scope_list)
  ultimately have "parse_scope_list (scope_union scope_strings base) = sort ?all"
    unfolding scope_union_def by (intro parse_scope_list_join) auto
  also have "\<dots> = sorted_list_of_set (set ?all)"
    by (simp only: sorted_list_of_set_sort_remdups distinct_remdups_id [OF d])
  finally show ?thesis by simp
qed

end
