(* ===== verification/Scope_Check.thy ===== *)
theory Scope_Check
  imports Scope_Permissions
begin

text \<open>
  Forward-time scope checking of service-proxied requests (src/xrpc/scope\_check.rs): which
  permissions a forwarded method needs, read from the JSON body, and the refusal when one is
  not held. The refusal carries the method and the scopes it says are needed.
\<close>

section \<open>Requirements of a request\<close>

datatype Required =
    RequiredRepo string "RepoAction list"
  | RequiredBlob string
  | RequiredRpc string string

definition body_collection :: "json \<Rightarrow> string option" where
  "body_collection body = Option.bind (json_get body ''collection'') json_as_str"

definition write_permission :: "json \<Rightarrow> Required option" where
  "write_permission write =
     (case Option.bind (json_get write ''collection'') json_as_str of
        None \<Rightarrow> None
      | Some collection \<Rightarrow>
          (case Option.bind (json_get write ''$type'') json_as_str of
             None \<Rightarrow> None
           | Some ty \<Rightarrow>
               (case rsplit_once CHR ''#'' ty of
                  None \<Rightarrow> None
                | Some (_, op) \<Rightarrow>
                    if op = ''create'' then Some (RequiredRepo collection [RepoCreate])
                    else if op = ''update'' then Some (RequiredRepo collection [RepoUpdate])
                    else if op = ''delete'' then Some (RequiredRepo collection [RepoDelete])
                    else None)))"

definition required_for :: "string \<Rightarrow> json \<Rightarrow> string option \<Rightarrow> Required list" where
  "required_for method body proxy_aud =
     (case proxy_aud of
        Some aud \<Rightarrow> [RequiredRpc method aud]
      | None \<Rightarrow>
          if method = ''com.atproto.repo.createRecord'' then
            unwrap_or (map_option (\<lambda>c. [RequiredRepo c [RepoCreate]]) (body_collection body)) []
          else if method = ''com.atproto.repo.deleteRecord'' then
            unwrap_or (map_option (\<lambda>c. [RequiredRepo c [RepoDelete]]) (body_collection body)) []
          else if method = ''com.atproto.repo.putRecord'' then
            unwrap_or (map_option (\<lambda>c.
                let actions =
                      (if is_some_and (json_get body ''swapCid'') (\<lambda>v. \<not> json_is_null v)
                       then [RepoUpdate] else [RepoCreate, RepoUpdate])
                in [RequiredRepo c actions]) (body_collection body)) []
          else if method = ''com.atproto.repo.applyWrites'' then
            unwrap_or (map_option (List.map_filter write_permission)
              (Option.bind (json_get body ''writes'') json_as_array)) []
          else [])"

section \<open>The check\<close>

definition requirement_held :: "decoder \<Rightarrow> ScopePermissions \<Rightarrow> Required \<Rightarrow> bool" where
  "requirement_held decode granted requirement =
     (case requirement of
        RequiredRepo collection actions \<Rightarrow> list_all (\<lambda>a. allows_repo decode granted collection a) actions
      | RequiredBlob mime \<Rightarrow> allows_blob decode granted mime
      | RequiredRpc lxm aud \<Rightarrow> allows_rpc decode granted lxm aud)"

definition needed :: "Required \<Rightarrow> string" where
  "needed requirement =
     (case requirement of
        RequiredRepo collection actions \<Rightarrow>
          join '' '' (map (\<lambda>a. ''repo:'' @ collection @ ''?action='' @ repo_action_as_str a) actions)
      | RequiredBlob mime \<Rightarrow> ''blob:'' @ mime
      | RequiredRpc lxm aud \<Rightarrow> ''rpc:'' @ lxm @ ''?aud='' @ aud)"

datatype ScopeRefusal = NotAuthorizedFor string string

fun scope_check :: "decoder \<Rightarrow> ScopePermissions \<Rightarrow> Required list \<Rightarrow> string \<Rightarrow> ScopeRefusal + unit" where
  "scope_check decode granted [] method = Ok ()"
| "scope_check decode granted (requirement # required) method =
     (if \<not> requirement_held decode granted requirement
      then Err (NotAuthorizedFor method (needed requirement))
      else scope_check decode granted required method)"

section \<open>Facts\<close>

lemma scope_check_refusal:
  "scope_check decode granted required method = Err e \<Longrightarrow>
     \<exists>r \<in> set required. \<not> requirement_held decode granted r \<and> e = NotAuthorizedFor method (needed r)"
  by (induction required) (auto split: if_splits)

lemma scope_check_ok_iff:
  "scope_check decode granted required method = Ok () \<longleftrightarrow> list_all (requirement_held decode granted) required"
  by (induction required) auto

lemma nsid_word:
  assumes "is_nsid c"
  shows "list_all (\<lambda>x. label_char x \<or> x = CHR ''.'') c"
proof -
  from assms have "is_nsid_shape c" by (simp add: is_nsid_def is_ok_validate_nsid)
  then obtain a ls n where c: "c = join ''.'' (a # ls @ [n])"
      and l: "is_label a" "list_all is_label ls" "is_name n" by (auto simp: is_nsid_shape_join)
  then have "list_all (list_all label_char) (a # ls @ [n])"
    using is_name_label [of n] by (auto simp: is_label_def list_all_iff)
  moreover have "list_all (list_all label_char) xs \<Longrightarrow>
      list_all (\<lambda>x. label_char x \<or> x = CHR ''.'') (join ''.'' xs)" for xs
  proof (induction xs)
    case (Cons x xs)
    then show ?case by (cases xs) (auto simp: list_all_iff)
  qed simp
  ultimately show ?thesis unfolding c by blast
qed

text \<open>Printable ASCII contains no white space of any encoding length.\<close>

lemma ws_free_ascii: "list_all (\<lambda>x. 33 \<le> byte x \<and> byte x < 128) s \<Longrightarrow> ws_free s"
  by (induction s) (auto simp: ws_len_def ascii_ws_def ws2_def ws3_def split: list.splits)

lemma label_char_printable: "label_char x \<or> x = CHR ''.'' \<Longrightarrow> 33 \<le> byte x \<and> byte x < 128"
  by (auto simp: label_char_def is_ascii_alphanumeric_def is_ascii_alphabetic_def
      is_ascii_lowercase_def is_ascii_uppercase_def is_ascii_digit_def byte_def)

abbreviation repo_token :: "string \<Rightarrow> RepoAction \<Rightarrow> string" where
  "repo_token c a \<equiv> ''repo:'' @ c @ ''?action='' @ repo_action_as_str a"

lemma repo_token_word:
  assumes "is_nsid c"
  shows "ws_free (repo_token c a)"
proof (rule ws_free_ascii)
  have "list_all (\<lambda>x. 33 \<le> byte x \<and> byte x < 128) c"
    using nsid_word [OF assms] label_char_printable by (auto simp: list_all_iff)
  moreover have "list_all (\<lambda>x. 33 \<le> byte x \<and> byte x < 128) (repo_action_as_str a)"
    by (cases a) (simp_all add: repo_action_as_str_def byte_def)
  ultimately show "list_all (\<lambda>x. 33 \<le> byte x \<and> byte x < 128) (repo_token c a)"
    by (simp add: byte_def)
qed

lemma repo_token_parse:
  assumes "url_decoder decode" and "is_nsid c"
  shows "repo_parse decode (repo_token c a) = Some \<lparr>repo_collection = [c], repo_action = [a]\<rparr>"
proof -
  have token: "repo_token c a = render_scope ''repo'' (Some c) [(''action'', repo_action_as_str a)]"
    by (simp add: render_scope_def render_params_def)
  have "list_all (\<lambda>x. x \<noteq> CHR ''?'' \<and> x \<noteq> CHR ''%'') c"
    using nsid_word [OF assms(2)]
    by (rule list.pred_mono_strong)
      (auto simp: label_char_def is_ascii_alphanumeric_def is_ascii_alphabetic_def
        is_ascii_lowercase_def is_ascii_uppercase_def is_ascii_digit_def byte_def)
  then have c: "plain ''?%'' c" by (simp add: plain_def)
  have "plain ''&%+'' (repo_action_as_str a)"
    by (cases a) (simp_all add: repo_action_as_str_def plain_def)
  then have "syntax_parse decode (repo_token c a) = \<lparr>scope_prefix = ''repo'', positional = Some c,
      params = [(''action'', repo_action_as_str a)], has_query = True\<rparr>"
    unfolding token using c
    by (subst url_decoder.syntax_parse_render [OF assms(1)]) (simp_all add: plain_def)
  with assms(2) show ?thesis
    by (simp add: repo_parse_def has_only_known_keys_def syntax_keys_def positional_conflicts_def
        multi_or_positional_def get_multi_def repo_from_parts_def is_nsid_or_wildcard_def)
qed

lemma allows_repo_token:
  assumes "t \<in> set (scopes self)" and "repo_parse decode t = Some p" and "repo_matches p c a"
  shows "allows_repo decode self c a"
  using assms by (auto simp: allows_repo_def list_ex_map_filter)

section \<open>What a request asks and what a session grants\<close>

text \<open>
  A request that writes records asks for an action on a collection: the one of its method on the
  collection of its body, or, for a batch, the one each write names after the last \<open>#\<close> of its type.
  Putting a record asks for an update, and for a creation unless the body is guarded by \<open>swapCid\<close>.
\<close>

definition str_member :: "json \<Rightarrow> string \<Rightarrow> string option" where
  "str_member j key = Option.bind (json_get j key) json_as_str"

definition guarded :: "json \<Rightarrow> bool" where
  "guarded body \<longleftrightarrow> (\<exists>v. json_get body ''swapCid'' = Some v \<and> \<not> json_is_null v)"

definition write_asks :: "json \<Rightarrow> string \<Rightarrow> RepoAction \<Rightarrow> bool" where
  "write_asks w c a \<longleftrightarrow> str_member w ''collection'' = Some c \<and>
     (\<exists>ns. str_member w ''$type'' = Some (ns @ ''#'' @ repo_action_as_str a))"

inductive asks :: "string \<Rightarrow> json \<Rightarrow> string \<Rightarrow> RepoAction \<Rightarrow> bool" where
  asks_create: "str_member body ''collection'' = Some c \<Longrightarrow> asks ''com.atproto.repo.createRecord'' body c RepoCreate"
| asks_delete: "str_member body ''collection'' = Some c \<Longrightarrow> asks ''com.atproto.repo.deleteRecord'' body c RepoDelete"
| asks_put: "str_member body ''collection'' = Some c \<Longrightarrow> asks ''com.atproto.repo.putRecord'' body c RepoUpdate"
| asks_put_new: "str_member body ''collection'' = Some c \<Longrightarrow> \<not> guarded body \<Longrightarrow>
    asks ''com.atproto.repo.putRecord'' body c RepoCreate"
| asks_write: "Option.bind (json_get body ''writes'') json_as_array = Some ws \<Longrightarrow> w \<in> set ws \<Longrightarrow> write_asks w c a \<Longrightarrow>
    asks ''com.atproto.repo.applyWrites'' body c a"

inductive_simps asks_create_simps: "asks ''com.atproto.repo.createRecord'' body c a"
inductive_simps asks_delete_simps: "asks ''com.atproto.repo.deleteRecord'' body c a"
inductive_simps asks_put_simps: "asks ''com.atproto.repo.putRecord'' body c a"
inductive_simps asks_write_simps: "asks ''com.atproto.repo.applyWrites'' body c a"

lemmas asks_simps = asks_create_simps asks_delete_simps asks_put_simps asks_write_simps

definition session_grants :: "decoder \<Rightarrow> ScopePermissions \<Rightarrow> string \<Rightarrow> RepoAction \<Rightarrow> bool" where
  "session_grants decode granted c a \<longleftrightarrow> ''transition:generic'' \<in> set (scopes granted) \<or>
     (\<exists>t \<in> set (scopes granted). \<exists>p. repo_parse decode t = Some p \<and>
        (c \<in> set (repo_collection p) \<or> ''*'' \<in> set (repo_collection p)) \<and> a \<in> set (repo_action p))"

lemma in_map_filter: "y \<in> set (List.map_filter f xs) \<longleftrightarrow> (\<exists>x \<in> set xs. f x = Some y)"
  by (force simp: List.map_filter_def)

lemma allows_repo_grants: "allows_repo decode granted c a \<longleftrightarrow> session_grants decode granted c a"
proof -
  have "repo_matches p c a \<longleftrightarrow> (c \<in> set (repo_collection p) \<or> ''*'' \<in> set (repo_collection p)) \<and> a \<in> set (repo_action p)"
    for p by (auto simp: repo_matches_def list_ex_iff)
  moreover have "has granted s \<longleftrightarrow> s \<in> set (scopes granted)" for s by (auto simp: has_def list_ex_iff)
  ultimately show ?thesis
    by (simp add: allows_repo_def session_grants_def has_transition_generic_def list_ex_map_filter)
qed

lemma session_grants_mono:
  "session_grants decode g c a \<Longrightarrow> set (scopes g) \<subseteq> set (scopes g') \<Longrightarrow> session_grants decode g' c a"
  by (auto simp: session_grants_def)

lemma str_rfind_last: "c \<notin> set q \<Longrightarrow> str_rfind c (p @ c # q) = Some (length p)"
proof (induction p)
  case Nil
  then show ?case by (simp add: option.case_eq_if)
qed simp

lemma rsplit_once_iff: "rsplit_once c s = Some (p, q) \<longleftrightarrow> s = p @ c # q \<and> c \<notin> set q"
proof
  assume "rsplit_once c s = Some (p, q)"
  then obtain i where "str_rfind c s = Some i" "p = take i s" "q = drop (Suc i) s"
    by (auto simp: rsplit_once_def)
  with str_rfind_Some [of c s i] show "s = p @ c # q \<and> c \<notin> set q"
    by (auto simp: id_take_nth_drop [symmetric])
next
  assume "s = p @ c # q \<and> c \<notin> set q"
  then show "rsplit_once c s = Some (p, q)" by (simp add: rsplit_once_def str_rfind_last)
qed

lemma action_no_hash: "CHR ''#'' \<notin> set (repo_action_as_str a)"
  by (cases a) (simp_all add: repo_action_as_str_def)

lemma write_permission_iff: "write_permission w = Some r \<longleftrightarrow> (\<exists>c a. r = RequiredRepo c [a] \<and> write_asks w c a)"
proof
  assume "write_permission w = Some r"
  then obtain c ty ns op where w: "str_member w ''collection'' = Some c" "str_member w ''$type'' = Some ty"
      "rsplit_once CHR ''#'' ty = Some (ns, op)"
      and r: "op = ''create'' \<and> r = RequiredRepo c [RepoCreate] \<or> op = ''update'' \<and> r = RequiredRepo c [RepoUpdate] \<or>
        op = ''delete'' \<and> r = RequiredRepo c [RepoDelete]"
    unfolding write_permission_def str_member_def [symmetric] by (auto split: option.splits if_splits)
  from r obtain a where "r = RequiredRepo c [a]" "op = repo_action_as_str a"
    by (auto simp: repo_action_as_str_def split: RepoAction.split)
  with w show "\<exists>c a. r = RequiredRepo c [a] \<and> write_asks w c a" by (auto simp: write_asks_def rsplit_once_iff)
next
  assume "\<exists>c a. r = RequiredRepo c [a] \<and> write_asks w c a"
  then obtain c a ns where "r = RequiredRepo c [a]" "str_member w ''collection'' = Some c"
      "str_member w ''$type'' = Some (ns @ CHR ''#'' # repo_action_as_str a)" by (auto simp: write_asks_def)
  moreover have "rsplit_once CHR ''#'' (ns @ CHR ''#'' # repo_action_as_str a) = Some (ns, repo_action_as_str a)"
    by (simp add: rsplit_once_iff action_no_hash)
  ultimately show "write_permission w = Some r"
    unfolding write_permission_def str_member_def [symmetric] by (cases a) (simp_all add: repo_action_as_str_def)
qed

lemma required_for_repo: "r \<in> set (required_for method body None) \<Longrightarrow> \<exists>c as. r = RequiredRepo c as"
  by (auto simp: required_for_def unwrap_or_def Let_def in_map_filter write_permission_iff
      split: if_splits option.splits)

lemma required_for_asks:
  "asks method body c a \<longleftrightarrow> (\<exists>as. RequiredRepo c as \<in> set (required_for method body None) \<and> a \<in> set as)"
proof -
  consider "method = ''com.atproto.repo.createRecord''" | "method = ''com.atproto.repo.deleteRecord''"
    | "method = ''com.atproto.repo.putRecord''" | "method = ''com.atproto.repo.applyWrites''"
    | (other) "method \<notin> {''com.atproto.repo.createRecord'', ''com.atproto.repo.deleteRecord'',
        ''com.atproto.repo.putRecord'', ''com.atproto.repo.applyWrites''}" by blast
  then show ?thesis
  proof cases
    case 3
    then show ?thesis
      by (cases "str_member body ''collection''"; cases "json_get body ''swapCid''")
        (auto simp: required_for_def asks_simps body_collection_def str_member_def [symmetric] unwrap_or_def Let_def
          guarded_def is_some_and_def)
  next
    case 4
    then show ?thesis
      by (cases "Option.bind (json_get body ''writes'') json_as_array")
        (auto simp: required_for_def asks_simps unwrap_or_def in_map_filter write_permission_iff
          intro!: exI [of _ "[a]"])
  next
    case other
    then have "required_for method body None = []" by (simp add: required_for_def)
    with other show ?thesis by (auto elim: asks.cases)
  qed (cases "str_member body ''collection''";
      auto simp: required_for_def asks_simps body_collection_def str_member_def [symmetric] unwrap_or_def)+
qed

lemma repo_requirement_held:
  "requirement_held decode granted (RequiredRepo c as) \<longleftrightarrow> (\<forall>a \<in> set as. session_grants decode granted c a)"
  by (simp add: requirement_held_def list_all_iff allows_repo_grants)

section \<open>Properties\<close>

text \<open>
  Property C36. A forwarded request that writes records passes exactly when the session grants every
  action on every collection the request asks for, by the transitional scope or by a scope string
  that parses to a permission for the two. Otherwise the refusal names a collection and
  actions that the request asks for and the session does not all grant.
\<close>

theorem record_writes_need_grants:
  "(scope_check decode granted (required_for method body None) method = Ok () \<longleftrightarrow>
      (\<forall>c a. asks method body c a \<longrightarrow> session_grants decode granted c a)) \<and>
   (\<forall>e. scope_check decode granted (required_for method body None) method = Err e \<longrightarrow>
      (\<exists>c as. e = NotAuthorizedFor method (needed (RequiredRepo c as)) \<and>
        (\<forall>a \<in> set as. asks method body c a) \<and> (\<exists>a \<in> set as. \<not> session_grants decode granted c a)))"
proof (intro conjI allI impI)
  have "(\<forall>r \<in> set (required_for method body None). requirement_held decode granted r) \<longleftrightarrow>
    (\<forall>c as. RequiredRepo c as \<in> set (required_for method body None) \<longrightarrow> requirement_held decode granted (RequiredRepo c as))"
    using required_for_repo by blast
  then show "scope_check decode granted (required_for method body None) method = Ok () \<longleftrightarrow>
      (\<forall>c a. asks method body c a \<longrightarrow> session_grants decode granted c a)"
    by (auto simp: scope_check_ok_iff list_all_iff repo_requirement_held required_for_asks)
next
  fix e assume "scope_check decode granted (required_for method body None) method = Err e"
  from scope_check_refusal [OF this] obtain r where r: "r \<in> set (required_for method body None)"
    "\<not> requirement_held decode granted r" "e = NotAuthorizedFor method (needed r)" by blast
  moreover from required_for_repo [OF r(1)] obtain c as where "r = RequiredRepo c as" by blast
  ultimately show "\<exists>c as. e = NotAuthorizedFor method (needed (RequiredRepo c as)) \<and>
      (\<forall>a \<in> set as. asks method body c a) \<and> (\<exists>a \<in> set as. \<not> session_grants decode granted c a)"
    by (auto simp: repo_requirement_held required_for_asks)
qed

definition demo_writes :: json where
  "demo_writes = JObject [(''writes'', JArray [
     JObject [(''$type'', JString ''com.atproto.repo.applyWrites#create''), (''collection'', JString ''com.example.post'')],
     JObject [(''$type'', JString ''com.atproto.repo.applyWrites#delete''), (''collection'', JString ''com.example.like'')]])]"

theorem record_writes_need_grants_witness:
  "session_grants percent_decode (from_scopes [''repo:com.example.post?action=create'', ''repo:com.example.like''])
     ''com.example.like'' RepoDelete \<and>
   (\<exists>c a. asks ''com.atproto.repo.applyWrites'' demo_writes c a \<and>
     \<not> session_grants percent_decode (from_scopes [''repo:com.example.post'']) c a)"
proof -
  let ?m = "''com.atproto.repo.applyWrites''"
  have asked: "asks ?m demo_writes ''com.example.like'' RepoDelete"
  proof -
    have "required_for ?m demo_writes None =
      [RequiredRepo ''com.example.post'' [RepoCreate], RequiredRepo ''com.example.like'' [RepoDelete]]" by code_simp
    then show ?thesis by (auto simp: required_for_asks)
  qed
  have "scope_check percent_decode (from_scopes [''repo:com.example.post?action=create'', ''repo:com.example.like''])
      (required_for ?m demo_writes None) ?m = Ok ()" by code_simp
  moreover have "\<not> scope_check percent_decode (from_scopes [''repo:com.example.post''])
      (required_for ?m demo_writes None) ?m = Ok ()" by code_simp
  ultimately show ?thesis using record_writes_need_grants [of percent_decode _ ?m demo_writes] asked by blast
qed

text \<open>
  The refusals as a client would follow them: after each one, the scopes it names are added to the
  session, and the request is sent again.
\<close>

fun grant_named :: "decoder \<Rightarrow> nat \<Rightarrow> Required list \<Rightarrow> string \<Rightarrow> ScopePermissions \<Rightarrow> ScopePermissions" where
  "grant_named decode 0 required method granted = granted"
| "grant_named decode (Suc n) required method granted =
     (case scope_check decode granted required method of
        Ok _ \<Rightarrow> granted
      | Err (NotAuthorizedFor _ names) \<Rightarrow>
          grant_named decode n required method (from_scopes (scopes granted @ parse_scope_list names)))"

lemma named_scopes:
  assumes "is_nsid c"
  shows "set (parse_scope_list (needed (RequiredRepo c as))) = set (map (repo_token c) as)"
proof -
  have "list_all (\<lambda>t. t \<noteq> [] \<and> ws_free t) (map (repo_token c) as)"
    using repo_token_word [OF assms] by (simp add: list_all_iff)
  then show ?thesis by (simp add: needed_def split_whitespace_join)
qed

lemma named_held:
  assumes "url_decoder decode" and "is_nsid c"
    and "set (parse_scope_list (needed (RequiredRepo c as))) \<subseteq> set (scopes g)"
  shows "requirement_held decode g (RequiredRepo c as)"
  unfolding repo_requirement_held
proof
  fix a assume "a \<in> set as"
  then have "repo_token c a \<in> set (scopes g)" using assms(3) unfolding named_scopes [OF assms(2)] by auto
  then show "session_grants decode g c a"
    using repo_token_parse [OF assms(1,2), of a] by (force simp: session_grants_def)
qed

lemma filter_shrinks:
  assumes "\<And>x. x \<in> set xs \<Longrightarrow> P x \<Longrightarrow> Q x" and "x \<in> set xs" "Q x" "\<not> P x"
  shows "length (filter P xs) < length (filter Q xs)"
proof -
  have "filter P xs = filter P (filter Q xs)" using assms(1) by (auto intro!: filter_cong)
  moreover have "length (filter P (filter Q xs)) < length (filter Q xs)"
    by (rule length_filter_less [of x]) (use assms in auto)
  ultimately show ?thesis by simp
qed

lemma grant_named_passes:
  assumes "url_decoder decode" and "\<forall>r \<in> set required. \<exists>c as. r = RequiredRepo c as \<and> is_nsid c"
  shows "length (filter (\<lambda>r. \<not> requirement_held decode granted r) required) \<le> n \<Longrightarrow>
    scope_check decode (grant_named decode n required method granted) required method = Ok ()"
proof (induction n arbitrary: granted)
  case 0
  then show ?case by (auto simp: scope_check_ok_iff list_all_iff filter_empty_conv)
next
  case (Suc n)
  show ?case
  proof (cases "scope_check decode granted required method")
    case (Inl e)
    from scope_check_refusal [OF Inl] obtain r where r: "r \<in> set required" "\<not> requirement_held decode granted r"
      "e = NotAuthorizedFor method (needed r)" by blast
    let ?g = "from_scopes (scopes granted @ parse_scope_list (needed r))"
    have more: "set (scopes granted) \<subseteq> set (scopes ?g)" "set (parse_scope_list (needed r)) \<subseteq> set (scopes ?g)"
      by (auto simp: from_scopes_def)
    have kept: "requirement_held decode ?g q" if "q \<in> set required" "requirement_held decode granted q" for q
      using that assms(2) session_grants_mono [OF _ more(1)] by (fastforce simp: repo_requirement_held)
    from assms(2) r(1) obtain c as where "r = RequiredRepo c as" "is_nsid c" by blast
    with more(2) named_held [OF assms(1)] have now: "requirement_held decode ?g r" by simp
    have "length (filter (\<lambda>q. \<not> requirement_held decode ?g q) required) <
      length (filter (\<lambda>q. \<not> requirement_held decode granted q) required)"
      by (rule filter_shrinks [of _ _ _ r]) (use r kept now in auto)
    then have "scope_check decode (grant_named decode n required method ?g) required method = Ok ()"
      using Suc by simp
    with Inl r(3) show ?thesis by simp
  qed simp
qed

text \<open>
  Property C37. The refusals of a record write are actionable, as long as the collections it asks for
  are NSIDs: starting from any session, adding the scopes each refusal names and sending the
  request again passes after at most as many refusals as the request has requirements.
\<close>

theorem refusals_lead_to_a_pass:
  assumes "url_decoder decode" and "\<And>c as. RequiredRepo c as \<in> set (required_for method body None) \<Longrightarrow> is_nsid c"
  shows "scope_check decode
      (grant_named decode (length (required_for method body None)) (required_for method body None) method granted)
      (required_for method body None) method = Ok ()"
  by (rule grant_named_passes [OF assms(1)]) (use required_for_repo assms(2) length_filter_le in blast)+

theorem refusals_lead_to_a_pass_witness:
  "scope_check percent_decode
     (grant_named percent_decode (length (required_for ''com.atproto.repo.applyWrites'' demo_writes None))
       (required_for ''com.atproto.repo.applyWrites'' demo_writes None) ''com.atproto.repo.applyWrites'' (from_scopes []))
     (required_for ''com.atproto.repo.applyWrites'' demo_writes None) ''com.atproto.repo.applyWrites'' = Ok ()"
proof (rule refusals_lead_to_a_pass [OF pct.url_decoder_axioms])
  have r: "required_for ''com.atproto.repo.applyWrites'' demo_writes None =
    [RequiredRepo ''com.example.post'' [RepoCreate], RequiredRepo ''com.example.like'' [RepoDelete]]" by code_simp
  have "is_nsid ''com.example.post''" "is_nsid ''com.example.like''" by code_simp+
  then show "is_nsid c" if "RequiredRepo c as \<in> set (required_for ''com.atproto.repo.applyWrites'' demo_writes None)" for c as
    using that unfolding r by auto
qed

text \<open>A collection the body leaves unvalidated has no such scope: the refusal names one that does not parse.\<close>

lemma refusal_without_nsid:
  "repo_parse percent_decode (needed (RequiredRepo ''foo'' [RepoCreate])) = None"
  by code_simp

text \<open>
  Property C38. The compare-and-swap that narrows \<open>putRecord\<close> to an update is recognised under
  the name \<open>swapCid\<close>. A body with \<open>swapRecord\<close>, the field the record writes of this
  repository send, is not narrowed, and a body with only \<open>swapCid\<close> is.
\<close>

theorem put_record_swap_field:
  "required_for ''com.atproto.repo.putRecord''
     (JObject [(''collection'', JString c), (''swapRecord'', JString cid)]) None =
     [RequiredRepo c [RepoCreate, RepoUpdate]] \<and>
   required_for ''com.atproto.repo.putRecord''
     (JObject [(''collection'', JString c), (''swapCid'', JString cid)]) None =
     [RequiredRepo c [RepoUpdate]]"
  by (simp add: required_for_def body_collection_def json_get_def json_as_str_def json_is_null_def
      unwrap_or_def is_some_and_def)

end
