(* ===== verification/Jobs.thy ===== *)
theory Jobs
  imports Nsid "HOL-Library.Multiset" "HOL-Library.Product_Lexorder"
begin

text \<open>
  The job queue: the table \<open>happyview_jobs\<close> and the statements that change it
  (src/jobs/db.rs), the lease a run holds (src/jobs/held.rs), what a worker does with a
  finished run (src/jobs/worker.rs), the operator's requests (src/admin/jobs.rs) and the
  admission of a job type (src/jobs/mod.rs).

  The table is the list of its rows. A statement is one atomic step, as it is in both
  databases; its argument \<open>up\<close> says whether the database answers, and a statement that fails
  changes nothing. \<open>scan\<close> is the order in which the database reads rows, which decides
  between rows that compare equal; the theorems ask only that it neither drops nor repeats a
  row. Clock readings (\<open>now\<close> in milliseconds, \<open>at\<close> as text), fresh identifiers and the JSON
  serialiser are arguments. Counters and times are unbounded integers: \<open>attempt\<close> grows by one
  per claim and \<open>now\<close> by the clock, both far from the limits of the columns' 64 bits.
\<close>

section \<open>Data\<close>

record Lease =
  lease_owner :: string
  lease_attempt :: int

record job_row =
  row_id :: string
  row_job_type :: string
  row_status :: string
  row_input :: string
  row_progress :: string
  row_result :: "string option"
  row_error :: "string option"
  row_created_by :: string
  row_started_at :: "string option"
  row_completed_at :: "string option"
  row_created_at :: string
  row_inherit_auth :: bool
  row_api_client_id :: "string option"
  row_dpop_key_id :: "string option"
  row_attempt :: int
  row_claimed_by :: "string option"
  row_lease_until :: "int option"
  row_lost_leases :: int

type_synonym job_table = "job_row list"

record Job =
  job_id :: string
  job_type :: string
  job_status :: string
  job_input :: json
  job_progress :: json
  job_result :: "json option"
  job_error :: "string option"
  job_created_by :: string
  job_started_at :: "string option"
  job_completed_at :: "string option"
  job_created_at :: string
  job_inherit_auth :: bool
  job_api_client_id :: "string option"
  job_dpop_key_id :: "string option"
  job_attempt :: int

record Held =
  held_id :: string
  held_lease :: Lease
  held_lost :: bool

datatype JobError = JobInternal | JobNotFound | JobConflict string | JobMovedOn | JobForbidden

definition LEASE :: int where
  "LEASE = 60 * 1000"

definition MAX_LOST_LEASES :: int where
  "MAX_LOST_LEASES = 3"

definition lease_until :: "int \<Rightarrow> int" where
  "lease_until now = now + LEASE"

section \<open>Statements on the table\<close>

definition update_rows :: "(job_row \<Rightarrow> bool) \<Rightarrow> (job_row \<Rightarrow> job_row) \<Rightarrow> job_table \<Rightarrow> job_table" where
  "update_rows sel upd t = map (\<lambda>r. if sel r then upd r else r) t"

definition rows_affected :: "(job_row \<Rightarrow> bool) \<Rightarrow> job_table \<Rightarrow> nat" where
  "rows_affected sel t = length (filter sel t)"

definition row_to_job :: "(string \<Rightarrow> json option) \<Rightarrow> job_row \<Rightarrow> Job" where
  "row_to_job from_str r =
     \<lparr>job_id = row_id r, job_type = row_job_type r, job_status = row_status r,
      job_input = unwrap_or (from_str (row_input r)) JNull,
      job_progress = unwrap_or (from_str (row_progress r)) JNull,
      job_result = Option.bind (row_result r) from_str,
      job_error = row_error r, job_created_by = row_created_by r,
      job_started_at = row_started_at r, job_completed_at = row_completed_at r,
      job_created_at = row_created_at r, job_inherit_auth = row_inherit_auth r,
      job_api_client_id = row_api_client_id r, job_dpop_key_id = row_dpop_key_id r,
      job_attempt = row_attempt r\<rparr>"

definition new_row ::
    "string \<Rightarrow> string \<Rightarrow> string \<Rightarrow> string \<Rightarrow> string \<Rightarrow> bool \<Rightarrow> string option \<Rightarrow> string option \<Rightarrow> job_row" where
  "new_row i typ input created_by at inherit_auth api_client_id dpop_key_id =
     \<lparr>row_id = i, row_job_type = typ, row_status = ''pending'', row_input = input,
      row_progress = ''{}'', row_result = None, row_error = None, row_created_by = created_by,
      row_started_at = None, row_completed_at = None, row_created_at = at,
      row_inherit_auth = inherit_auth, row_api_client_id = api_client_id,
      row_dpop_key_id = dpop_key_id, row_attempt = 0, row_claimed_by = None,
      row_lease_until = None, row_lost_leases = 0\<rparr>"

text \<open>The primary key refuses an identifier that is taken.\<close>

definition create_job ::
    "bool \<Rightarrow> (json \<Rightarrow> string) \<Rightarrow> string \<Rightarrow> string \<Rightarrow> string \<Rightarrow> json \<Rightarrow> string \<Rightarrow> bool \<Rightarrow> string option \<Rightarrow>
     string option \<Rightarrow> job_table \<Rightarrow> (JobError + string) \<times> job_table" where
  "create_job up to_str uuid at typ input created_by inherit_auth api_client_id dpop_key_id t =
     (if \<not> up \<or> list_ex (\<lambda>r. row_id r = uuid) t then (Err JobInternal, t)
      else (Ok uuid,
            t @ [new_row uuid typ (to_str input) created_by at inherit_auth api_client_id dpop_key_id]))"

definition get_row :: "string \<Rightarrow> job_table \<Rightarrow> job_row option" where
  "get_row i t = find (\<lambda>r. row_id r = i) t"

definition get_job :: "bool \<Rightarrow> (string \<Rightarrow> json option) \<Rightarrow> string \<Rightarrow> job_table \<Rightarrow> JobError + Job option" where
  "get_job up from_str i t =
     (if \<not> up then Err JobInternal else Ok (map_option (row_to_job from_str) (get_row i t)))"

definition list_jobs_any ::
    "bool \<Rightarrow> (string \<Rightarrow> json option) \<Rightarrow> string list \<Rightarrow> string option \<Rightarrow> nat \<Rightarrow> job_table \<Rightarrow> JobError + Job list" where
  "list_jobs_any up from_str statuses typ limit t =
     (if \<not> up then Err JobInternal
      else Ok (map (row_to_job from_str) (take limit
        (rev (sort_key (\<lambda>r. (row_created_at r, row_id r))
          (filter (\<lambda>r. (statuses \<noteq> [] \<longrightarrow> row_status r \<in> set statuses) \<and>
                       (case typ of Some ty \<Rightarrow> row_job_type r = ty | None \<Rightarrow> True)) t))))))"

definition newest_first :: "(job_row list \<Rightarrow> job_row list) \<Rightarrow> job_row list \<Rightarrow> job_row list" where
  "newest_first scan rows = rev (sort_key row_created_at (scan rows))"

definition page_rows ::
    "(job_row list \<Rightarrow> job_row list) \<Rightarrow> string option \<Rightarrow> string option \<Rightarrow> job_table \<Rightarrow> job_row list" where
  "page_rows scan status_filter cursor t =
     newest_first scan
       (filter (\<lambda>r. (case status_filter of Some s \<Rightarrow> row_status r = s | None \<Rightarrow> True) \<and>
                    (case cursor of Some c \<Rightarrow> row_created_at r < c | None \<Rightarrow> True)) t)"

text \<open>\<open>limit\<close> is clamped to 1..100 by the caller; the statement asks for one row more.\<close>

definition list_jobs ::
    "bool \<Rightarrow> (job_row list \<Rightarrow> job_row list) \<Rightarrow> (string \<Rightarrow> json option) \<Rightarrow> string option \<Rightarrow> nat \<Rightarrow>
     string option \<Rightarrow> job_table \<Rightarrow> JobError + (Job list \<times> string option)" where
  "list_jobs up scan from_str status_filter limit cursor t =
     (if \<not> up then Err JobInternal
      else let rows = take (limit + 1) (page_rows scan status_filter cursor t);
               has_more = limit < length rows;
               jobs = map (row_to_job from_str) (take limit rows);
               next_cursor =
                 (if has_more then (if jobs = [] then None else Some (job_created_at (last jobs)))
                  else None)
           in Ok (jobs, next_cursor))"

section \<open>The lease of a run\<close>

definition held_statuses :: "string list" where
  "held_statuses = [''running'', ''cancelling'', ''pausing'']"

text \<open>The fence of every write a run makes: the row is still held under this lease.\<close>

definition fenced :: "string \<Rightarrow> Lease \<Rightarrow> job_row \<Rightarrow> bool" where
  "fenced i lease r \<longleftrightarrow>
     row_id r = i \<and> row_claimed_by r = Some (lease_owner lease) \<and>
     row_attempt r = lease_attempt lease \<and> row_status r \<in> set held_statuses"

definition held_new :: "string \<Rightarrow> Lease \<Rightarrow> Held" where
  "held_new i lease = \<lparr>held_id = i, held_lease = lease, held_lost = False\<rparr>"

definition mark_lost :: "Held \<Rightarrow> Held" where
  "mark_lost h = h\<lparr>held_lost := True\<rparr>"

text \<open>\<open>run\<close> is the task-local lease of the run in progress, \<open>None\<close> outside every run.\<close>

definition held_current :: "string \<Rightarrow> Held option \<Rightarrow> Held option" where
  "held_current i run = (case run of Some h \<Rightarrow> if held_id h = i then Some h else None | None \<Rightarrow> None)"

definition update_progress ::
    "bool \<Rightarrow> (json \<Rightarrow> string) \<Rightarrow> string \<Rightarrow> json \<Rightarrow> Held option \<Rightarrow> job_table \<Rightarrow>
     (JobError + unit) \<times> Held option \<times> job_table" where
  "update_progress up to_str i progress run t =
     (case held_current i run of
        None \<Rightarrow> (Ok (), run, t)
      | Some held \<Rightarrow>
          if held_lost held then (Ok (), run, t)
          else if \<not> up then (Err JobInternal, run, t)
          else let sel = fenced i (held_lease held);
                   t' = update_rows sel (row_progress_update (\<lambda>_. to_str progress)) t
               in if rows_affected sel t = 0 then (Ok (), Some (mark_lost held), t')
                  else (Ok (), run, t'))"

text \<open>A failed read answers as a missing row does.\<close>

definition should_stop :: "bool \<Rightarrow> string \<Rightarrow> Held option \<Rightarrow> job_table \<Rightarrow> string option \<times> Held option" where
  "should_stop up i run t =
     (let held = held_current i run in
      if is_some_and held held_lost then (Some ''lost'', run)
      else let row = (if up then get_row i t else None) in
      case (held, row) of
        (Some h, Some r) \<Rightarrow>
          if row_claimed_by r \<noteq> Some (lease_owner (held_lease h)) \<or>
             row_attempt r \<noteq> lease_attempt (held_lease h)
          then (Some ''lost'', Some (mark_lost h))
          else if row_status r = ''cancelling'' then (Some ''cancelling'', run)
          else if row_status r = ''pausing'' then (Some ''pausing'', run)
          else (None, run)
      | (None, Some r) \<Rightarrow>
          if row_status r = ''cancelling'' then (Some ''cancelling'', run)
          else if row_status r = ''pausing'' then (Some ''pausing'', run)
          else (None, run)
      | (_, None) \<Rightarrow> (None, run))"

section \<open>Status changes, recovery and claims\<close>

definition change_status ::
    "bool \<Rightarrow> string \<Rightarrow> string \<Rightarrow> string \<Rightarrow> string \<Rightarrow> job_table \<Rightarrow> (JobError + bool) \<times> job_table" where
  "change_status up at i from to t =
     (if \<not> up then (Err JobInternal, t)
      else let sel = (\<lambda>r. row_id r = i \<and> row_status r = from);
               upd = (\<lambda>r. if to \<in> set [''completed'', ''failed'', ''cancelled'']
                          then r\<lparr>row_status := to, row_completed_at := Some at\<rparr>
                          else r\<lparr>row_status := to\<rparr>)
           in (Ok (rows_affected sel t > 0), update_rows sel upd t))"

definition expired :: "int \<Rightarrow> job_row \<Rightarrow> bool" where
  "expired now r = (case row_lease_until r of None \<Rightarrow> True | Some u \<Rightarrow> u < now)"

definition release :: "job_row \<Rightarrow> job_row" where
  "release r = r\<lparr>row_claimed_by := None, row_lease_until := None\<rparr>"

definition recovery_failure :: string where
  "recovery_failure = ''the job's worker stopped 3 times before it finished; it is not run again''"

definition settle_cancelled :: "string \<Rightarrow> job_row \<Rightarrow> job_row" where
  "settle_cancelled at r = release (r\<lparr>row_status := ''cancelled'', row_completed_at := Some at\<rparr>)"

definition settle_paused :: "job_row \<Rightarrow> job_row" where
  "settle_paused r = release (r\<lparr>row_status := ''paused''\<rparr>)"

definition settle_failed :: "string \<Rightarrow> job_row \<Rightarrow> job_row" where
  "settle_failed at r =
     release (r\<lparr>row_status := ''failed'', row_error := Some recovery_failure,
                row_completed_at := Some at, row_lost_leases := row_lost_leases r + 1\<rparr>)"

definition settle_pending :: "job_row \<Rightarrow> job_row" where
  "settle_pending r = release (r\<lparr>row_status := ''pending'', row_lost_leases := row_lost_leases r + 1\<rparr>)"

definition recovery_statements :: "int \<Rightarrow> string \<Rightarrow> ((job_row \<Rightarrow> bool) \<times> (job_row \<Rightarrow> job_row)) list" where
  "recovery_statements now at =
     [(\<lambda>r. row_status r = ''cancelling'' \<and> expired now r, settle_cancelled at),
      (\<lambda>r. row_status r = ''pausing'' \<and> expired now r, settle_paused),
      (\<lambda>r. row_status r = ''running'' \<and> expired now r \<and> row_lost_leases r + 1 \<ge> MAX_LOST_LEASES,
       settle_failed at),
      (\<lambda>r. row_status r = ''running'' \<and> expired now r, settle_pending)]"

text \<open>One \<open>up\<close> per statement: a failure keeps what the statements before it did.\<close>

fun run_statements ::
    "bool list \<Rightarrow> nat \<Rightarrow> ((job_row \<Rightarrow> bool) \<times> (job_row \<Rightarrow> job_row)) list \<Rightarrow> job_table \<Rightarrow>
     (JobError + nat) \<times> job_table" where
  "run_statements ups settled [] t = (Ok settled, t)"
| "run_statements (up # ups) settled ((sel, upd) # stmts) t =
     (if \<not> up then (Err JobInternal, t)
      else run_statements ups (settled + rows_affected sel t) stmts (update_rows sel upd t))"
| "run_statements [] settled (stmt # stmts) t = (Err JobInternal, t)"

definition recover_expired_jobs ::
    "bool list \<Rightarrow> int \<Rightarrow> string \<Rightarrow> job_table \<Rightarrow> (JobError + nat) \<times> job_table" where
  "recover_expired_jobs ups now at t = run_statements ups 0 (recovery_statements now at) t"

definition claim_row :: "string \<Rightarrow> string \<Rightarrow> int \<Rightarrow> job_row \<Rightarrow> job_row" where
  "claim_row at owner now r =
     r\<lparr>row_status := ''running'', row_started_at := Some at, row_attempt := row_attempt r + 1,
       row_claimed_by := Some owner, row_lease_until := Some (lease_until now)\<rparr>"

definition oldest_pending :: "(job_row list \<Rightarrow> job_row list) \<Rightarrow> job_table \<Rightarrow> string option" where
  "oldest_pending scan t =
     (case sort_key row_created_at (scan (filter (\<lambda>r. row_status r = ''pending'') t)) of
        [] \<Rightarrow> None
      | r # _ \<Rightarrow> Some (row_id r))"

definition hold_job ::
    "bool \<Rightarrow> (string \<Rightarrow> json option) \<Rightarrow> string \<Rightarrow> int \<Rightarrow> string \<Rightarrow> string \<Rightarrow> job_table \<Rightarrow>
     (JobError + Job option) \<times> job_table" where
  "hold_job up from_str at now i owner t =
     (if \<not> up then (Err JobInternal, t)
      else let sel = (\<lambda>r. row_id r = i \<and> row_status r = ''pending'');
               t' = update_rows sel (claim_row at owner now) t
           in (Ok (map_option (row_to_job from_str \<circ> claim_row at owner now) (find sel t)), t'))"

definition claim_next_job ::
    "bool \<Rightarrow> (job_row list \<Rightarrow> job_row list) \<Rightarrow> (string \<Rightarrow> json option) \<Rightarrow> string \<Rightarrow> int \<Rightarrow> string \<Rightarrow>
     job_table \<Rightarrow> (JobError + Job option) \<times> job_table" where
  "claim_next_job up scan from_str at now owner t =
     (if \<not> up then (Err JobInternal, t)
      else (case oldest_pending scan t of
              None \<Rightarrow> (Ok None, t)
            | Some i \<Rightarrow> hold_job up from_str at now i owner t))"

definition renew_lease :: "bool \<Rightarrow> int \<Rightarrow> string \<Rightarrow> Lease \<Rightarrow> job_table \<Rightarrow> (JobError + bool) \<times> job_table" where
  "renew_lease up now i lease t =
     (if \<not> up then (Err JobInternal, t)
      else (Ok (rows_affected (fenced i lease) t > 0),
            update_rows (fenced i lease) (row_lease_until_update (\<lambda>_. Some (lease_until now))) t))"

datatype Finish = FinishCompleted json | FinishFailed string | FinishPaused | FinishCancelled

definition finish_row :: "(json \<Rightarrow> string) \<Rightarrow> string \<Rightarrow> Finish \<Rightarrow> job_row \<Rightarrow> job_row" where
  "finish_row to_str at fin r =
     (case fin of
        FinishCompleted v \<Rightarrow>
          r\<lparr>row_status := ''completed'', row_result := Some (to_str v), row_completed_at := Some at,
            row_lease_until := None\<rparr>
      | FinishFailed e \<Rightarrow>
          r\<lparr>row_status := ''failed'', row_error := Some e, row_completed_at := Some at,
            row_lease_until := None\<rparr>
      | FinishCancelled \<Rightarrow>
          r\<lparr>row_status := ''cancelled'', row_completed_at := Some at, row_lease_until := None\<rparr>
      | FinishPaused \<Rightarrow> r\<lparr>row_status := ''paused'', row_lease_until := None\<rparr>)"

definition finish ::
    "bool \<Rightarrow> (json \<Rightarrow> string) \<Rightarrow> string \<Rightarrow> string \<Rightarrow> Lease \<Rightarrow> Finish \<Rightarrow> job_table \<Rightarrow>
     (JobError + bool) \<times> job_table" where
  "finish up to_str at i lease fin t =
     (if \<not> up then (Err JobInternal, t)
      else (Ok (rows_affected (fenced i lease) t > 0),
            update_rows (fenced i lease) (finish_row to_str at fin) t))"

section \<open>Worker\<close>

datatype JobOutcome = OutcomeCompleted json | OutcomeFailed string

datatype Severity = SevInfo | SevWarn | SevError

record EventLog =
  event_type :: string
  event_severity :: Severity
  event_actor_did :: "string option"
  event_subject :: "string option"
  event_detail :: json

definition final_record :: "Job \<Rightarrow> string option \<Rightarrow> JobOutcome \<Rightarrow> Finish \<times> string \<times> Severity \<times> json" where
  "final_record job stop outcome =
     (let id_entry = (''job_id'', JString (job_id job)) in
      if stop = Some ''pausing'' then (FinishPaused, ''job.paused'', SevInfo, JObject [id_entry])
      else if stop = Some ''cancelling'' then
        (FinishCancelled, ''job.cancelled'', SevInfo, JObject [id_entry])
      else (case outcome of
              OutcomeCompleted v \<Rightarrow>
                (FinishCompleted v, ''job.completed'', SevInfo, JObject [id_entry, (''result'', v)])
            | OutcomeFailed e \<Rightarrow>
                (FinishFailed e, ''job.failed'', SevError, JObject [(''error'', JString e), id_entry])))"

definition job_event :: "Job \<Rightarrow> string \<Rightarrow> Severity \<Rightarrow> json \<Rightarrow> EventLog" where
  "job_event job typ severity detail =
     \<lparr>event_type = typ, event_severity = severity, event_actor_did = Some (job_created_by job),
      event_subject = Some (job_type job), event_detail = detail\<rparr>"

text \<open>\<open>seen\<close> is the table when the stop request is read, \<open>t\<close> the one the outcome is written to.\<close>

definition finalize ::
    "bool \<Rightarrow> bool \<Rightarrow> (json \<Rightarrow> string) \<Rightarrow> string \<Rightarrow> Job \<Rightarrow> Lease \<Rightarrow> JobOutcome \<Rightarrow> Held option \<Rightarrow>
     job_table \<Rightarrow> job_table \<Rightarrow> EventLog option \<times> Held option \<times> job_table" where
  "finalize up_read up_write to_str at job lease outcome run seen t =
     (let (stop, run') = should_stop up_read (job_id job) run seen;
          (fin, typ, severity, detail) = final_record job stop outcome;
          (res, t') = finish up_write to_str at (job_id job) lease fin t;
          recorded = (case res of Ok b \<Rightarrow> b | Err _ \<Rightarrow> False)
      in (if recorded then Some (job_event job typ severity detail) else None, run', t'))"

text \<open>One turn of the renewal loop; the flag says whether it goes on.\<close>

definition renew_turn :: "bool \<Rightarrow> int \<Rightarrow> Held \<Rightarrow> job_table \<Rightarrow> bool \<times> Held \<times> job_table" where
  "renew_turn up now held t =
     (case renew_lease up now (held_id held) (held_lease held) t of
        (Ok True, t') \<Rightarrow> (True, held, t')
      | (Ok False, t') \<Rightarrow> (False, mark_lost held, t')
      | (Err _, t') \<Rightarrow> (True, held, t'))"

section \<open>Operator requests\<close>

definition cancel_target :: "string \<Rightarrow> string option" where
  "cancel_target status =
     (if status = ''running'' then Some ''cancelling''
      else if status = ''pending'' \<or> status = ''paused'' then Some ''cancelled''
      else None)"

definition pause_target :: "string \<Rightarrow> string option" where
  "pause_target status = (if status \<noteq> ''running'' then None else Some ''pausing'')"

definition resume_target :: "string \<Rightarrow> string option" where
  "resume_target status = (if status \<noteq> ''paused'' then None else Some ''pending'')"

definition request_status ::
    "(string \<Rightarrow> string option) \<Rightarrow> JobError option \<Rightarrow> bool \<Rightarrow> bool \<Rightarrow> (string \<Rightarrow> json option) \<Rightarrow> string \<Rightarrow>
     string \<Rightarrow> job_table \<Rightarrow> job_table \<Rightarrow> (JobError + string) \<times> job_table" where
  "request_status target denied up_read up_write from_str at i seen t =
     (case denied of
        Some e \<Rightarrow> (Err e, t)
      | None \<Rightarrow>
          (case get_job up_read from_str i seen of
             Err e \<Rightarrow> (Err e, t)
           | Ok None \<Rightarrow> (Err JobNotFound, t)
           | Ok (Some job) \<Rightarrow>
               (case target (job_status job) of
                  None \<Rightarrow> (Err (JobConflict (job_status job)), t)
                | Some to \<Rightarrow>
                    (case change_status up_write at i (job_status job) to t of
                       (Err e, t') \<Rightarrow> (Err e, t')
                     | (Ok False, t') \<Rightarrow> (Err JobMovedOn, t')
                     | (Ok True, t') \<Rightarrow> (Ok to, t')))))"

text \<open>
  The three handlers differ in the status they accept and the one they ask for. \<open>denied\<close> is
  the answer of the permission check, \<open>seen\<close> the table when the job is read.
\<close>

definition cancel_job ::
    "JobError option \<Rightarrow> bool \<Rightarrow> bool \<Rightarrow> (string \<Rightarrow> json option) \<Rightarrow> string \<Rightarrow> string \<Rightarrow> job_table \<Rightarrow>
     job_table \<Rightarrow> (JobError + string) \<times> job_table" where
  "cancel_job = request_status cancel_target"

definition pause_job ::
    "JobError option \<Rightarrow> bool \<Rightarrow> bool \<Rightarrow> (string \<Rightarrow> json option) \<Rightarrow> string \<Rightarrow> string \<Rightarrow> job_table \<Rightarrow>
     job_table \<Rightarrow> (JobError + string) \<times> job_table" where
  "pause_job = request_status pause_target"

definition resume_job ::
    "JobError option \<Rightarrow> bool \<Rightarrow> bool \<Rightarrow> (string \<Rightarrow> json option) \<Rightarrow> string \<Rightarrow> string \<Rightarrow> job_table \<Rightarrow>
     job_table \<Rightarrow> (JobError + string) \<times> job_table" where
  "resume_job = request_status resume_target"

section \<open>Job types\<close>

datatype JobTypeError = BadTypeLength string | BadTypeChars string | ReservedType string

definition job_type_first :: "char \<Rightarrow> bool" where
  "job_type_first c \<longleftrightarrow> is_ascii_lowercase c \<or> is_ascii_digit c"

definition job_type_char :: "char \<Rightarrow> bool" where
  "job_type_char c \<longleftrightarrow> job_type_first c \<or> c \<in> set ''._-''"

definition JOB_TYPE_RE :: rx where
  "JOB_TYPE_RE = Sq (Cls job_type_first) (Opt (Plus (Cls job_type_char)))"

definition is_reserved :: "string \<Rightarrow> bool" where
  "is_reserved typ = starts_with typ ''happyview.''"

definition validate_job_type :: "string \<Rightarrow> JobTypeError + unit" where
  "validate_job_type typ =
     (if typ = [] \<or> length typ > 128 then Err (BadTypeLength typ)
      else if \<not> rx_match JOB_TYPE_RE typ then Err (BadTypeChars typ)
      else if is_reserved typ then Err (ReservedType typ)
      else Ok ())"

end
