(* ===== verification/Job_Steps.thy ===== *)
theory Job_Steps
  imports Jobs
begin

text \<open>
  What the job queue's operations can do, and the properties of every history of them. Each
  operation of Jobs changes rows only by the transitions of \<open>row_step\<close>, so a fact about one
  row's transitions holds of every interleaving of workers, instances, recovery and operators
  (\<open>job_step\<close>).
\<close>

section \<open>What one row can do\<close>

definition terminal_statuses :: "string list" where
  "terminal_statuses = [''completed'', ''failed'', ''cancelled'']"

definition all_statuses :: "string list" where
  "all_statuses = [''pending'', ''paused''] @ held_statuses @ terminal_statuses"

definition requests :: "(string \<times> string) list" where
  "requests = [(''running'', ''cancelling''), (''pending'', ''cancelled''), (''paused'', ''cancelled''),
     (''running'', ''pausing''), (''paused'', ''pending'')]"

definition request_row :: "string \<Rightarrow> string \<Rightarrow> job_row \<Rightarrow> job_row" where
  "request_row at to r =
     (if to \<in> set terminal_statuses then r\<lparr>row_status := to, row_completed_at := Some at\<rparr>
      else r\<lparr>row_status := to\<rparr>)"

inductive row_step :: "job_row \<Rightarrow> job_row \<Rightarrow> bool" where
  claim: "row_status r = ''pending'' \<Longrightarrow> row_step r (claim_row at owner now r)"
| progress: "row_status r \<in> set held_statuses \<Longrightarrow> row_step r (r\<lparr>row_progress := p\<rparr>)"
| renew: "row_status r \<in> set held_statuses \<Longrightarrow> row_step r (r\<lparr>row_lease_until := Some u\<rparr>)"
| finish: "row_status r \<in> set held_statuses \<Longrightarrow> row_step r (finish_row to_str at fin r)"
| request: "(row_status r, to) \<in> set requests \<Longrightarrow> row_step r (request_row at to r)"
| cancelled: "row_status r = ''cancelling'' \<Longrightarrow> row_step r (settle_cancelled at r)"
| paused: "row_status r = ''pausing'' \<Longrightarrow> row_step r (settle_paused r)"
| failed: "row_status r = ''running'' \<Longrightarrow> row_step r (settle_failed at r)"
| requeued: "row_status r = ''running'' \<Longrightarrow> row_step r (settle_pending r)"

lemma status_facts [simp]:
  "''pending'' \<in> set all_statuses" "''pending'' \<notin> set held_statuses" "''pending'' \<notin> set terminal_statuses"
  "''paused'' \<in> set all_statuses" "''paused'' \<notin> set held_statuses" "''paused'' \<notin> set terminal_statuses"
  "''running'' \<in> set all_statuses" "''running'' \<in> set held_statuses" "''running'' \<notin> set terminal_statuses"
  "''cancelling'' \<in> set all_statuses" "''cancelling'' \<in> set held_statuses" "''cancelling'' \<notin> set terminal_statuses"
  "''pausing'' \<in> set all_statuses" "''pausing'' \<in> set held_statuses" "''pausing'' \<notin> set terminal_statuses"
  "''completed'' \<in> set all_statuses" "''completed'' \<notin> set held_statuses" "''completed'' \<in> set terminal_statuses"
  "''failed'' \<in> set all_statuses" "''failed'' \<notin> set held_statuses" "''failed'' \<in> set terminal_statuses"
  "''cancelled'' \<in> set all_statuses" "''cancelled'' \<notin> set held_statuses" "''cancelled'' \<in> set terminal_statuses"
  by (simp_all add: all_statuses_def held_statuses_def terminal_statuses_def)

lemma held_not_terminal: "s \<in> set held_statuses \<Longrightarrow> s \<notin> set terminal_statuses"
  by (auto simp: held_statuses_def terminal_statuses_def)

lemma requests_cases:
  assumes "(s, to) \<in> set requests"
  obtains "s = ''running''" "to = ''cancelling''" | "s = ''running''" "to = ''pausing''"
    | "s = ''pending''" "to = ''cancelled''" | "s = ''paused''" "to = ''cancelled''"
    | "s = ''paused''" "to = ''pending''"
  using assms unfolding requests_def list.set by (elim insertE emptyE) (simp_all only: prod.inject)

lemma row_fields [simp]:
  "row_status (claim_row at owner now r) = ''running''" "row_attempt (claim_row at owner now r) = row_attempt r + 1"
  "row_claimed_by (claim_row at owner now r) = Some owner"
  "row_lease_until (claim_row at owner now r) = Some (lease_until now)"
  "row_lost_leases (claim_row at owner now r) = row_lost_leases r"
  "row_completed_at (claim_row at owner now r) = row_completed_at r" "row_id (claim_row at owner now r) = row_id r"
  "row_status (settle_cancelled at r) = ''cancelled''" "row_status (settle_paused r) = ''paused''"
  "row_status (settle_failed at r) = ''failed''" "row_status (settle_pending r) = ''pending''"
  "row_id (settle_cancelled at r) = row_id r" "row_id (settle_paused r) = row_id r"
  "row_id (settle_failed at r) = row_id r" "row_id (settle_pending r) = row_id r"
  "row_attempt (settle_cancelled at r) = row_attempt r" "row_attempt (settle_paused r) = row_attempt r"
  "row_attempt (settle_failed at r) = row_attempt r" "row_attempt (settle_pending r) = row_attempt r"
  "row_claimed_by (settle_cancelled at r) = None" "row_claimed_by (settle_paused r) = None"
  "row_claimed_by (settle_failed at r) = None" "row_claimed_by (settle_pending r) = None"
  "row_lease_until (settle_cancelled at r) = None" "row_lease_until (settle_paused r) = None"
  "row_lease_until (settle_failed at r) = None" "row_lease_until (settle_pending r) = None"
  "row_lost_leases (settle_cancelled at r) = row_lost_leases r"
  "row_lost_leases (settle_paused r) = row_lost_leases r"
  "row_lost_leases (settle_failed at r) = row_lost_leases r + 1"
  "row_lost_leases (settle_pending r) = row_lost_leases r + 1"
  "row_completed_at (settle_cancelled at r) = Some at" "row_completed_at (settle_paused r) = row_completed_at r"
  "row_completed_at (settle_failed at r) = Some at" "row_completed_at (settle_pending r) = row_completed_at r"
  by (simp_all add: claim_row_def settle_cancelled_def settle_paused_def settle_failed_def
      settle_pending_def release_def)

lemma request_fields [simp]:
  "row_status (request_row at to r) = to" "row_id (request_row at to r) = row_id r"
  "row_attempt (request_row at to r) = row_attempt r"
  "row_claimed_by (request_row at to r) = row_claimed_by r"
  "row_lease_until (request_row at to r) = row_lease_until r"
  "row_lost_leases (request_row at to r) = row_lost_leases r"
  "row_completed_at (request_row at to r) = (if to \<in> set terminal_statuses then Some at else row_completed_at r)"
  by (simp_all add: request_row_def)

lemma finish_fields [simp]:
  "row_id (finish_row to_str at fin r) = row_id r" "row_attempt (finish_row to_str at fin r) = row_attempt r"
  "row_claimed_by (finish_row to_str at fin r) = row_claimed_by r"
  "row_lease_until (finish_row to_str at fin r) = None"
  "row_lost_leases (finish_row to_str at fin r) = row_lost_leases r"
  "row_status (finish_row to_str at fin r) =
     (case fin of FinishCompleted _ \<Rightarrow> ''completed'' | FinishFailed _ \<Rightarrow> ''failed''
      | FinishPaused \<Rightarrow> ''paused'' | FinishCancelled \<Rightarrow> ''cancelled'')"
  "row_completed_at (finish_row to_str at fin r) = (if fin = FinishPaused then row_completed_at r else Some at)"
  by (simp_all add: finish_row_def split: Finish.split)

text \<open>
  A row that is being run has an owner and a lease; no other row has a lease, though one that was run
  may keep the name of its last owner.
\<close>

definition row_shape :: "job_row \<Rightarrow> bool" where
  "row_shape r \<longleftrightarrow>
     row_status r \<in> set all_statuses \<and> 0 \<le> row_lost_leases r \<and>
     (row_status r \<in> set held_statuses \<longrightarrow>
        row_claimed_by r \<noteq> None \<and> row_lease_until r \<noteq> None \<and> row_lost_leases r < row_attempt r) \<and>
     (row_status r \<notin> set held_statuses \<longrightarrow>
        row_lease_until r = None \<and> row_lost_leases r \<le> row_attempt r) \<and>
     (row_claimed_by r \<noteq> None \<longrightarrow> 0 < row_attempt r) \<and>
     (row_completed_at r \<noteq> None \<longleftrightarrow> row_status r \<in> set terminal_statuses)"

definition lost_ok :: "job_row \<Rightarrow> bool" where
  "lost_ok r \<longleftrightarrow> row_lost_leases r \<le> MAX_LOST_LEASES \<and>
     (row_lost_leases r = MAX_LOST_LEASES \<longrightarrow> row_status r = ''failed'')"

definition row_ok :: "job_row \<Rightarrow> bool" where
  "row_ok r \<longleftrightarrow> row_shape r \<and> lost_ok r"

lemma row_step_id: "row_step r r' \<Longrightarrow> row_id r' = row_id r"
  by (induction rule: row_step.induct) simp_all

lemma row_step_attempt: "row_step r r' \<Longrightarrow> row_attempt r \<le> row_attempt r'"
  by (induction rule: row_step.induct) simp_all

lemma row_step_terminal: "row_step r r' \<Longrightarrow> row_status r \<notin> set terminal_statuses"
  by (induction rule: row_step.induct) (auto simp: held_not_terminal elim: requests_cases)

lemma row_step_shape: "row_step r r' \<Longrightarrow> row_shape r \<Longrightarrow> row_shape r'"
proof (induction rule: row_step.induct)
  case (claim r at owner now)
  then show ?case by (auto simp: row_shape_def)
next
  case (finish r to_str at fin)
  then show ?case by (cases fin) (auto simp: row_shape_def held_not_terminal)
next
  case (request r to at)
  from request(1) show ?case
    using request(2) by (cases rule: requests_cases) (simp_all add: row_shape_def)
qed (auto simp: row_shape_def)

text \<open>A lease that no longer holds the row and was not issued for a later attempt is dead.\<close>

definition lease_dead :: "string \<Rightarrow> Lease \<Rightarrow> job_row \<Rightarrow> bool" where
  "lease_dead i lease r \<longleftrightarrow> row_id r = i \<and> lease_attempt lease \<le> row_attempt r \<and> \<not> fenced i lease r"

lemma row_step_lease_dead: "row_step r r' \<Longrightarrow> lease_dead i lease r \<Longrightarrow> lease_dead i lease r'"
proof (induction rule: row_step.induct)
  case (request r to at)
  from request(1) show ?case
    using request(2) by (cases rule: requests_cases) (auto simp: lease_dead_def fenced_def)
qed (auto simp: lease_dead_def fenced_def split: Finish.splits)

section \<open>What the table can do\<close>

text \<open>
  Any sequence of the operations, by any number of workers, instances and operators: the reads
  of an operator's request may be of any earlier table. The statements of a recovery are steps of
  their own, since no transaction holds them together: anything may happen between two of them.
\<close>

inductive job_act :: "int \<Rightarrow> job_table \<Rightarrow> job_table \<Rightarrow> bool" for now :: int where
  create: "job_act now t (snd (create_job up to_str uuid at typ input by inherit api dpop t))"
| claim_next: "job_act now t (snd (claim_next_job up scan from_str at now owner t))"
| hold: "job_act now t (snd (hold_job up from_str at now i owner t))"
| progress: "job_act now t (snd (snd (update_progress up to_str i p run t)))"
| renew: "job_act now t (snd (renew_lease up now i lease t))"
| finish: "job_act now t (snd (finish up to_str at i lease fin t))"
| cancel: "job_act now t (snd (cancel_job denied up_read up_write from_str at i seen t))"
| pause: "job_act now t (snd (pause_job denied up_read up_write from_str at i seen t))"
| resume: "job_act now t (snd (resume_job denied up_read up_write from_str at i seen t))"

inductive job_step :: "job_table \<Rightarrow> job_table \<Rightarrow> bool" where
  act: "job_act now t t' \<Longrightarrow> job_step t t'"
| recover: "(sel, upd) \<in> set (recovery_statements now at) \<Longrightarrow> job_step t (update_rows sel upd t)"

definition evolves :: "job_table \<Rightarrow> job_table \<Rightarrow> bool" where
  "evolves t t' \<longleftrightarrow> (\<exists>u new. t' = u @ new \<and> list_all2 (row_step\<^sup>*\<^sup>*) t u)"

definition table_shaped :: "job_table \<Rightarrow> bool" where
  "table_shaped t \<longleftrightarrow> distinct (map row_id t) \<and> list_all row_shape t"

definition table_ok :: "job_table \<Rightarrow> bool" where
  "table_ok t \<longleftrightarrow> distinct (map row_id t) \<and> list_all row_ok t"

lemma row_steps_id: "row_step\<^sup>*\<^sup>* r r' \<Longrightarrow> row_id r' = row_id r"
  by (induction rule: rtranclp_induct) (auto dest: row_step_id)

lemma row_steps_shape: "row_step\<^sup>*\<^sup>* r r' \<Longrightarrow> row_shape r \<Longrightarrow> row_shape r'"
  by (induction rule: rtranclp_induct) (auto dest: row_step_shape)

lemma table_ok_shaped: "table_ok t \<longleftrightarrow> table_shaped t \<and> list_all lost_ok t"
  by (auto simp: table_ok_def table_shaped_def row_ok_def list_all_iff)

lemma evolves_refl [simp]: "evolves t t"
  unfolding evolves_def by (intro exI [of _ t] exI [of _ "[]"]) (simp add: list.rel_refl)

lemma evolves_trans:
  assumes "evolves t t'" and "evolves t' t''"
  shows "evolves t t''"
proof -
  from assms obtain u new v new' where t: "t' = u @ new" "list_all2 (row_step\<^sup>*\<^sup>*) t u"
      "t'' = v @ new'" "list_all2 (row_step\<^sup>*\<^sup>*) (u @ new) v"
    unfolding evolves_def by blast
  from t(4) obtain v1 v2 where v: "v = v1 @ v2" "list_all2 (row_step\<^sup>*\<^sup>*) u v1"
    by (auto simp: list_all2_append1)
  from t(2) v(2) have "list_all2 (row_step\<^sup>*\<^sup>*) t v1"
    by (rule list_all2_trans [rotated]) (rule rtranclp_trans)
  with t(3) v(1) show ?thesis
    unfolding evolves_def by (intro exI [of _ v1] exI [of _ "v2 @ new'"]) simp
qed

lemma evolves_update:
  assumes "\<And>r. r \<in> set t \<Longrightarrow> sel r \<Longrightarrow> row_step r (upd r)"
  shows "evolves t (update_rows sel upd t)"
  unfolding evolves_def update_rows_def
  by (intro exI [of _ "map (\<lambda>r. if sel r then upd r else r) t"] exI [of _ "[]"])
    (auto simp: list_all2_map2 assms intro!: list.rel_refl_strong)

lemma ids_evolve: "list_all2 (row_step\<^sup>*\<^sup>*) t u \<Longrightarrow> map row_id u = map row_id t"
  by (induction rule: list_all2_induct) (auto simp: row_steps_id)

lemma ids_update: "(\<And>r. row_id (upd r) = row_id r) \<Longrightarrow> map row_id (update_rows sel upd t) = map row_id t"
  by (simp add: update_rows_def comp_def if_distrib [of row_id] cong: if_cong)

lemma evolves_hold: "evolves t (snd (hold_job up from_str at now i owner t))"
  by (auto simp: hold_job_def Let_def intro!: evolves_update row_step.claim)

lemma evolves_claim: "evolves t (snd (claim_next_job up scan from_str at now owner t))"
  by (auto simp: claim_next_job_def evolves_hold split: option.splits)

lemma evolves_progress: "evolves t (snd (snd (update_progress up to_str i p run t)))"
  by (auto simp: update_progress_def Let_def fenced_def split: option.splits
      intro!: evolves_update row_step.progress)

lemma evolves_renew: "evolves t (snd (renew_lease up now i lease t))"
  by (auto simp: renew_lease_def fenced_def intro!: evolves_update row_step.renew)

lemma evolves_finish: "evolves t (snd (finish up to_str at i lease fin t))"
  by (auto simp: finish_def fenced_def intro!: evolves_update row_step.finish)

lemma evolves_change_status:
  "(from, to) \<in> set requests \<Longrightarrow> evolves t (snd (change_status up at i from to t))"
proof -
  assume ft: "(from, to) \<in> set requests"
  have "(\<lambda>r. if to \<in> set [''completed'', ''failed'', ''cancelled'']
      then r\<lparr>row_status := to, row_completed_at := Some at\<rparr> else r\<lparr>row_status := to\<rparr>) = request_row at to"
    by (simp add: request_row_def terminal_statuses_def fun_eq_iff)
  with ft show ?thesis
    by (auto simp: change_status_def Let_def simp del: list.set intro!: evolves_update row_step.request)
qed

lemma targets_requests:
  "cancel_target s = Some to \<Longrightarrow> (s, to) \<in> set requests"
  "pause_target s = Some to \<Longrightarrow> (s, to) \<in> set requests"
  "resume_target s = Some to \<Longrightarrow> (s, to) \<in> set requests"
  by (auto simp: cancel_target_def pause_target_def resume_target_def requests_def split: if_splits)

lemma evolves_request:
  assumes "\<And>s to. target s = Some to \<Longrightarrow> (s, to) \<in> set requests"
  shows "evolves t (snd (request_status target denied up_read up_write from_str at i seen t))"
proof -
  have "evolves t t'" if "change_status up_write at i s to t = (res, t')" "target s = Some to" for s to res t'
    using evolves_change_status [OF assms [OF that(2)], of t up_write at i] that(1) by simp
  then show ?thesis
    by (fastforce simp: request_status_def split: option.splits sum.splits prod.splits bool.splits)
qed


lemma evolves_append: "evolves t (t @ new)"
  unfolding evolves_def by (intro exI [of _ t] exI [of _ new]) (simp add: list.rel_refl)

lemma evolves_create: "evolves t (snd (create_job up to_str uuid at typ input by inherit api dpop t))"
  by (simp add: create_job_def evolves_append)

text \<open>What recovery does to each row, in one pass.\<close>

definition settle :: "int \<Rightarrow> string \<Rightarrow> job_row \<Rightarrow> job_row" where
  "settle now at r =
     (if \<not> expired now r then r
      else if row_status r = ''cancelling'' then settle_cancelled at r
      else if row_status r = ''pausing'' then settle_paused r
      else if row_status r = ''running'' then
        (if row_lost_leases r + 1 \<ge> MAX_LOST_LEASES then settle_failed at r else settle_pending r)
      else r)"

lemma update_rows_simps [simp]:
  "update_rows sel upd [] = []"
  "update_rows sel upd (r # t) = (if sel r then upd r else r) # update_rows sel upd t"
  by (simp_all add: update_rows_def)

lemma rows_affected_simps [simp]:
  "rows_affected sel [] = 0"
  "rows_affected sel (r # t) = (if sel r then 1 else 0) + rows_affected sel t"
  by (simp_all add: rows_affected_def)

lemma recover_all_up:
  "recover_expired_jobs [True, True, True, True] now at t =
     (Ok (length (filter (\<lambda>r. row_status r \<in> set held_statuses \<and> expired now r) t)),
      map (settle now at) t)"
proof (induction t)
  case Nil
  show ?case by (simp add: recover_expired_jobs_def recovery_statements_def)
next
  case (Cons r t)
  have e: "expired now (settle_cancelled at r)" "expired now (settle_paused r)"
    "expired now (settle_failed at r)" "expired now (settle_pending r)"
    by (simp_all add: expired_def)
  consider "\<not> expired now r" | "expired now r" "row_status r = ''cancelling''"
    | "expired now r" "row_status r = ''pausing''" | "expired now r" "row_status r = ''running''"
    | "expired now r" "row_status r \<notin> set held_statuses"
    by (auto simp: held_statuses_def)
  then show ?case
  proof cases
    case 5
    then have "row_status r \<noteq> ''cancelling''" "row_status r \<noteq> ''pausing''" "row_status r \<noteq> ''running''" by auto
    with 5 Cons show ?thesis
      by (simp add: recover_expired_jobs_def recovery_statements_def settle_def)
  qed (use Cons e in \<open>simp_all add: recover_expired_jobs_def recovery_statements_def settle_def\<close>)
qed

lemma evolves_statement:
  assumes "(sel, upd) \<in> set (recovery_statements now at)"
  shows "evolves t (update_rows sel upd t)"
proof (rule evolves_update)
  fix r
  assume "sel r"
  with assms show "row_step r (upd r)" by (auto simp: recovery_statements_def intro: row_step.intros)
qed

lemma job_act_evolves: "job_act now t t' \<Longrightarrow> evolves t t'"
proof (induction rule: job_act.induct)
  case cancel
  then show ?case unfolding cancel_job_def by (rule evolves_request) (rule targets_requests)
next
  case pause
  then show ?case unfolding pause_job_def by (rule evolves_request) (rule targets_requests)
next
  case resume
  then show ?case unfolding resume_job_def by (rule evolves_request) (rule targets_requests)
qed (rule evolves_create evolves_claim evolves_hold evolves_progress evolves_renew evolves_finish)+

lemma job_step_evolves: "job_step t t' \<Longrightarrow> evolves t t'"
  by (induction rule: job_step.induct) (auto intro: job_act_evolves evolves_statement)

text \<open>A recovery is a sequence of such steps.\<close>

lemma run_statements_steps:
  "set stmts \<subseteq> set (recovery_statements now at) \<Longrightarrow> job_step\<^sup>*\<^sup>* t (snd (run_statements ups n stmts t))"
proof (induction ups n stmts t rule: run_statements.induct)
  case (2 up ups n sel upd stmts t)
  have "job_step t (update_rows sel upd t)" using 2(2) by (intro job_step.recover [of sel upd now at]) simp
  then show ?case using 2 by (auto intro: converse_rtranclp_into_rtranclp)
qed simp_all

lemma recover_steps: "job_step\<^sup>*\<^sup>* t (snd (recover_expired_jobs ups now at t))"
  unfolding recover_expired_jobs_def by (rule run_statements_steps) (rule subset_refl)

lemma job_steps_evolve: "job_step\<^sup>*\<^sup>* t t' \<Longrightarrow> evolves t t'"
  by (induction rule: rtranclp_induct) (auto intro: evolves_trans dest: job_step_evolves)

section \<open>Rows by identifier\<close>

lemma length_update_rows [simp]: "length (update_rows sel upd t) = length t"
  by (simp add: update_rows_def)

lemma update_rows_none: "(\<And>r. r \<in> set t \<Longrightarrow> \<not> sel r) \<Longrightarrow> update_rows sel upd t = t"
  by (auto simp: update_rows_def intro: map_idI)

lemma rows_affected_0 [simp]: "rows_affected sel t = 0 \<longleftrightarrow> (\<forall>r\<in>set t. \<not> sel r)"
  by (auto simp: rows_affected_def filter_empty_conv)

lemma get_row_in: "get_row i t = Some r \<Longrightarrow> r \<in> set t \<and> row_id r = i"
  by (auto simp: get_row_def find_Some_iff)

lemma get_row_unique:
  assumes "distinct (map row_id t)" and "get_row i t = Some r" and "r' \<in> set t" and "row_id r' = i"
  shows "r' = r"
  using assms get_row_in [OF assms(2)] by (auto simp: distinct_map inj_on_def)

lemma get_row_all2:
  "list_all2 (row_step\<^sup>*\<^sup>*) t u \<Longrightarrow> get_row i t = Some r \<Longrightarrow> \<exists>r'. get_row i (u @ new) = Some r' \<and> row_step\<^sup>*\<^sup>* r r'"
proof (induction rule: list_all2_induct)
  case (Cons x xs y ys)
  then show ?case by (cases "row_id x = i") (auto simp: get_row_def row_steps_id)
qed (simp add: get_row_def)

lemma get_row_evolves:
  assumes "evolves t t'" and "get_row i t = Some r"
  obtains r' where "get_row i t' = Some r'" and "row_step\<^sup>*\<^sup>* r r'"
  using assms get_row_all2 unfolding evolves_def by blast

lemma table_shaped_evolves:
  assumes "evolves t t'" and "length t' = length t" and "table_shaped t"
  shows "table_shaped t'"
proof -
  from assms(1) obtain u new where u: "t' = u @ new" "list_all2 (row_step\<^sup>*\<^sup>*) t u"
    unfolding evolves_def by blast
  then have "new = []" using assms(2) list_all2_lengthD by fastforce
  moreover have "list_all row_shape u"
    using u(2) assms(3) row_steps_shape unfolding table_shaped_def list_all_length list_all2_conv_all_nth by metis
  ultimately show ?thesis
    using u assms(3) ids_evolve [OF u(2)] by (simp add: table_shaped_def)
qed

lemma length_hold: "length (snd (hold_job up from_str at now i owner t)) = length t"
  by (simp add: hold_job_def Let_def)

lemma length_run_statements: "length (snd (run_statements ups n stmts t)) = length t"
  by (induction ups n stmts t rule: run_statements.induct) auto

lemma length_change_status: "length (snd (change_status up at i from to t)) = length t"
  by (simp add: change_status_def Let_def)

lemma length_request: "length (snd (request_status target denied up_read up_write from_str at i seen t)) = length t"
proof -
  have "length t' = length t" if "change_status up_write at i s to t = (res, t')" for s to res t'
    using length_change_status [of up_write at i s to t] that by simp
  then show ?thesis
    by (auto simp: request_status_def split: option.splits sum.splits prod.splits bool.splits)
qed

lemma new_row_ok: "row_ok (new_row uuid typ input by at inherit api dpop)"
  by (simp add: row_ok_def row_shape_def lost_ok_def new_row_def MAX_LOST_LEASES_def)

lemma create_job_shaped:
  assumes "table_shaped t"
  shows "table_shaped (snd (create_job up to_str uuid at typ input by inherit api dpop t))"
  using assms new_row_ok [of uuid "typ" "to_str input" "by" at inherit api dpop]
  by (auto simp: create_job_def table_shaped_def list_ex_iff row_ok_def new_row_def)

lemma create_job_ok:
  assumes "table_ok t"
  shows "table_ok (snd (create_job up to_str uuid at typ input by inherit api dpop t))"
  using assms new_row_ok [of uuid "typ" "to_str input" "by" at inherit api dpop]
  by (auto simp: create_job_def table_ok_def list_ex_iff new_row_def)

lemma job_act_shaped:
  assumes "job_act now t t'" and "table_shaped t"
  shows "table_shaped t'"
  using assms(1)
proof cases
  case create
  with assms(2) show ?thesis by (simp add: create_job_shaped)
next
  case (claim_next up scan from_str at owner)
  then have "length t' = length t" by (simp add: claim_next_job_def length_hold split: option.split)
  with assms job_act_evolves table_shaped_evolves show ?thesis by blast
next
  case (progress up to_str i p run)
  then have "length t' = length t" by (simp add: update_progress_def Let_def split: option.split)
  with assms job_act_evolves table_shaped_evolves show ?thesis by blast
qed (use assms(2) job_act_evolves [OF assms(1)] table_shaped_evolves [of t t'] in
      \<open>simp_all add: length_hold renew_lease_def finish_def cancel_job_def pause_job_def resume_job_def length_request\<close>)

lemma job_step_shaped: "job_step t t' \<Longrightarrow> table_shaped t \<Longrightarrow> table_shaped t'"
proof (induction rule: job_step.induct)
  case (recover sel upd now at t)
  then show ?case using table_shaped_evolves [OF evolves_statement] by simp
qed (rule job_act_shaped)

lemma job_steps_shaped: "job_step\<^sup>*\<^sup>* t t' \<Longrightarrow> table_shaped t \<Longrightarrow> table_shaped t'"
  by (induction rule: rtranclp_induct) (auto intro: job_step_shaped)

lemma table_ok_empty [simp]: "table_ok []"
  by (simp add: table_ok_def)

section \<open>Facts for the properties\<close>

lemma row_steps_terminal: "row_step\<^sup>*\<^sup>* r r' \<Longrightarrow> row_status r \<in> set terminal_statuses \<Longrightarrow> r' = r"
  by (erule converse_rtranclpE) (auto dest: row_step_terminal)

lemma row_steps_lease_dead: "row_step\<^sup>*\<^sup>* r r' \<Longrightarrow> lease_dead i lease r \<Longrightarrow> lease_dead i lease r'"
  by (induction rule: rtranclp_induct) (auto dest: row_step_lease_dead)

lemma row_steps_attempt: "row_step\<^sup>*\<^sup>* r r' \<Longrightarrow> row_attempt r \<le> row_attempt r'"
  by (induction rule: rtranclp_induct) (auto dest: row_step_attempt)

lemma dead_lease_not_fenced:
  assumes "table_shaped t" and "get_row i t = Some r" and "\<not> fenced i lease r" and "x \<in> set t"
  shows "\<not> fenced i lease x"
proof
  assume f: "fenced i lease x"
  then have "x = r" using assms get_row_unique by (auto simp: fenced_def table_shaped_def)
  with f assms(3) show False by simp
qed

lemma hold_job_Some:
  assumes "hold_job up from_str at now i owner t = (Ok (Some job), t')"
  obtains r where "r \<in> set t" "row_id r = i" "row_status r = ''pending''"
    "job = row_to_job from_str (claim_row at owner now r)"
    "t' = update_rows (\<lambda>r. row_id r = i \<and> row_status r = ''pending'') (claim_row at owner now) t"
proof -
  from assms obtain r where r: "find (\<lambda>r. row_id r = i \<and> row_status r = ''pending'') t = Some r"
      "job = row_to_job from_str (claim_row at owner now r)"
      "t' = update_rows (\<lambda>r. row_id r = i \<and> row_status r = ''pending'') (claim_row at owner now) t"
    by (auto simp: hold_job_def Let_def split: if_splits)
  from r(1) have "r \<in> set t" "row_id r = i" "row_status r = ''pending''"
    by (auto simp: find_Some_iff)
  with r that show ?thesis by blast
qed

lemma hold_job_row:
  assumes "table_shaped t" and "hold_job up from_str at now i owner t = (Ok (Some job), t')"
  obtains r where "get_row i t = Some r" "row_status r = ''pending''"
    "job = row_to_job from_str (claim_row at owner now r)" "get_row i t' = Some (claim_row at owner now r)"
proof -
  from hold_job_Some [OF assms(2)] obtain r where r: "r \<in> set t" "row_id r = i" "row_status r = ''pending''"
      "job = row_to_job from_str (claim_row at owner now r)"
      "t' = update_rows (\<lambda>r. row_id r = i \<and> row_status r = ''pending'') (claim_row at owner now) t" by blast
  have "get_row i t \<noteq> None" using r(1,2) by (auto simp: get_row_def find_None_iff)
  then obtain r0 where r0: "get_row i t = Some r0" by auto
  with assms(1) r have e: "r0 = r" using get_row_unique by (metis table_shaped_def)
  have "get_row i (update_rows sel upd t) = Some (upd r)"
    if "sel r" "\<And>x. row_id (upd x) = row_id x" for sel upd
    using r0 e that unfolding get_row_def update_rows_def
    by (induction t) (auto split: if_splits)
  with r show ?thesis using that r0 e by simp
qed

lemma row_to_job_fields [simp]:
  "job_id (row_to_job f r) = row_id r" "job_attempt (row_to_job f r) = row_attempt r"
  "job_status (row_to_job f r) = row_status r" "job_created_at (row_to_job f r) = row_created_at r"
  by (simp_all add: row_to_job_def)

text \<open>A history for the closed examples: a job is created, claimed, lost and claimed again.\<close>

definition demo_created :: job_table where
  "demo_created = snd (create_job True (\<lambda>_. ''{}'') ''j1'' ''09:00'' ''nightly'' JNull ''did:plc:a'' False None None [])"

definition demo_claimed :: job_table where
  "demo_claimed = snd (claim_next_job True id (\<lambda>_. Some JNull) ''09:01'' 0 ''w'' demo_created)"

definition demo_requeued :: job_table where
  "demo_requeued = snd (recover_expired_jobs [True, True, True, True] 60001 ''09:03'' demo_claimed)"

definition demo_done :: job_table where
  "demo_done = snd (finish True (\<lambda>_. ''{}'') ''09:02'' ''j1'' \<lparr>lease_owner = ''w'', lease_attempt = 1\<rparr>
     (FinishCompleted JNull) demo_claimed)"

lemma demo_steps:
  "job_step [] demo_created" "job_step demo_created demo_claimed"
  "job_step\<^sup>*\<^sup>* demo_claimed demo_requeued" "job_step demo_claimed demo_done"
  unfolding demo_created_def demo_claimed_def demo_requeued_def demo_done_def
  by (rule recover_steps job_step.act job_act.create job_act.claim_next job_act.finish)+

lemma demo_ok: "table_ok demo_created" "table_ok demo_claimed" "table_ok demo_requeued" "table_ok demo_done"
  by code_simp+

section \<open>Properties\<close>

text \<open>
  Property C22. A completed, failed or cancelled job is final: no later operation changes any
  column of its row.
\<close>

theorem finished_jobs_are_final:
  assumes "job_step\<^sup>*\<^sup>* t t'" and "get_row i t = Some r" and "row_status r \<in> set terminal_statuses"
  shows "get_row i t' = Some r"
proof -
  from get_row_evolves [OF job_steps_evolve [OF assms(1)] assms(2)] obtain r'
    where r': "get_row i t' = Some r'" "row_step\<^sup>*\<^sup>* r r'" .
  with row_steps_terminal [OF r'(2) assms(3)] show ?thesis by simp
qed

theorem finished_jobs_are_final_witness:
  "get_row ''j1'' (snd (recover_expired_jobs [True, True, True, True] 60001 ''09:03'' demo_done)) =
   get_row ''j1'' demo_done \<and> get_row ''j1'' demo_done \<noteq> None"
proof -
  let ?t' = "snd (recover_expired_jobs [True, True, True, True] 60001 ''09:03'' demo_done)"
  let ?r = "the (get_row ''j1'' demo_done)"
  have "job_step\<^sup>*\<^sup>* demo_done ?t'" by (rule recover_steps)
  moreover have g: "get_row ''j1'' demo_done = Some ?r" by code_simp
  moreover have "row_status ?r \<in> set terminal_statuses" by code_simp
  ultimately have "get_row ''j1'' ?t' = Some ?r" by (rule finished_jobs_are_final)
  then show ?thesis using g by (metis option.distinct(1))
qed

text \<open>
  Property C5. Fencing: once a run's lease no longer holds its job, no write under that lease
  ever changes the table again, whatever happened in between: not its outcome, not its renewal,
  not its progress.
\<close>

theorem lost_lease_writes_nothing:
  assumes "table_ok t" and "job_step\<^sup>*\<^sup>* t t'" and "get_row i t = Some r"
    and "lease_attempt lease \<le> row_attempt r" and "\<not> fenced i lease r"
  shows "finish True to_str at i lease fin t' = (Ok False, t') \<and>
    renew_lease True now i lease t' = (Ok False, t') \<and>
    update_progress True to_str i p (Some (held_new i lease)) t' =
      (Ok (), Some (mark_lost (held_new i lease)), t')"
proof -
  from get_row_evolves [OF job_steps_evolve [OF assms(2)] assms(3)] obtain r'
    where r': "get_row i t' = Some r'" "row_step\<^sup>*\<^sup>* r r'" .
  have "lease_dead i lease r"
    using assms(4,5) get_row_in [OF assms(3)] by (simp add: lease_dead_def)
  then have "\<not> fenced i lease r'"
    using row_steps_lease_dead [OF r'(2)] by (simp add: lease_dead_def)
  then have none: "\<And>x. x \<in> set t' \<Longrightarrow> \<not> fenced i lease x"
    using dead_lease_not_fenced job_steps_shaped [OF assms(2)] assms(1) r'(1) by (auto simp: table_ok_shaped)
  then show ?thesis
    by (simp add: finish_def renew_lease_def update_progress_def held_current_def held_new_def
        update_rows_none)
qed

theorem lost_lease_writes_nothing_witness:
  "finish True (\<lambda>_. ''{}'') ''09:05'' ''j1'' \<lparr>lease_owner = ''w'', lease_attempt = 1\<rparr> (FinishCompleted JNull)
     (snd (claim_next_job True id (\<lambda>_. Some JNull) ''09:04'' 60002 ''w'' demo_requeued)) =
   (Ok False, snd (claim_next_job True id (\<lambda>_. Some JNull) ''09:04'' 60002 ''w'' demo_requeued))"
  (is "finish _ _ _ _ ?lease _ ?t' = _")
proof -
  let ?r = "the (get_row ''j1'' demo_requeued)"
  have "job_step demo_requeued ?t'" by (rule job_step.act, rule job_act.claim_next)
  then have "job_step\<^sup>*\<^sup>* demo_requeued ?t'" by simp
  moreover have "get_row ''j1'' demo_requeued = Some ?r" by code_simp
  moreover have "lease_attempt ?lease \<le> row_attempt ?r" by code_simp
  moreover have "\<not> fenced ''j1'' ?lease ?r" by code_simp
  ultimately show ?thesis using lost_lease_writes_nothing [OF demo_ok(3)] by blast
qed

lemma claim_next_hold:
  assumes "claim_next_job True scan from_str at now owner t = (Ok (Some job), t1)"
  shows "hold_job True from_str at now (job_id job) owner t = (Ok (Some job), t1)"
proof -
  from assms obtain i where i: "hold_job True from_str at now i owner t = (Ok (Some job), t1)"
    by (auto simp: claim_next_job_def split: option.splits)
  from hold_job_Some [OF this] have "job_id job = i" by (metis row_to_job_fields(1) row_fields(7))
  with i show ?thesis by simp
qed

text \<open>
  Property C9. Claims of one job are numbered: a later claim of the job, by any worker, gets a
  strictly larger attempt, so no two runs ever share a lease.
\<close>

theorem claims_never_share_a_lease:
  assumes "table_ok t" and "claim_next_job True scan from_str at now owner t = (Ok (Some job), t1)"
    and "job_step\<^sup>*\<^sup>* t1 t2"
    and "claim_next_job True scan from_str at' now' owner' t2 = (Ok (Some job'), t3)"
    and "job_id job' = job_id job"
  shows "job_attempt job < job_attempt job'"
proof -
  note c1 = claim_next_hold [OF assms(2)] and c2 = claim_next_hold [OF assms(4), unfolded assms(5)]
  have ok: "table_shaped t" using assms(1) by (simp add: table_ok_shaped)
  from hold_job_row [OF ok c1] obtain r where r: "job = row_to_job from_str (claim_row at owner now r)"
      "get_row (job_id job) t1 = Some (claim_row at owner now r)" .
  have "job_step t t1" using job_step.act [OF job_act.hold [of now t True from_str at "job_id job" owner]] c1 by simp
  then have "table_shaped t2" using ok assms(3) job_step_shaped job_steps_shaped by blast
  from hold_job_row [OF this c2] obtain r2 where r2: "get_row (job_id job) t2 = Some r2"
      "job' = row_to_job from_str (claim_row at' owner' now' r2)" .
  from get_row_evolves [OF job_steps_evolve [OF assms(3)] r(2)] obtain r'
    where "get_row (job_id job) t2 = Some r'" "row_step\<^sup>*\<^sup>* (claim_row at owner now r) r'" .
  with r2(1) have "row_step\<^sup>*\<^sup>* (claim_row at owner now r) r2" by simp
  from row_steps_attempt [OF this] have "row_attempt r + 1 \<le> row_attempt r2" by simp
  moreover have "job_attempt job = row_attempt r + 1" "job_attempt job' = row_attempt r2 + 1"
    by (subst r(1), simp) (subst r2(2), simp)
  ultimately show ?thesis by simp
qed

theorem claims_never_share_a_lease_witness:
  "job_attempt (the (projr (fst (claim_next_job True id (\<lambda>_. Some JNull) ''09:01'' 0 ''w'' demo_created)))) <
   job_attempt (the (projr (fst (claim_next_job True id (\<lambda>_. Some JNull) ''09:04'' 60002 ''w'' demo_requeued))))"
  (is "job_attempt ?j < job_attempt ?j'")
proof -
  have "claim_next_job True id (\<lambda>_. Some JNull) ''09:01'' 0 ''w'' demo_created = (Ok (Some ?j), demo_claimed)"
    by code_simp
  moreover have "claim_next_job True id (\<lambda>_. Some JNull) ''09:04'' 60002 ''w'' demo_requeued =
      (Ok (Some ?j'), snd (claim_next_job True id (\<lambda>_. Some JNull) ''09:04'' 60002 ''w'' demo_requeued))"
    by code_simp
  moreover have "job_id ?j' = job_id ?j" by code_simp
  moreover have "job_step\<^sup>*\<^sup>* demo_claimed demo_requeued" using demo_steps(3) by simp
  ultimately show ?thesis using claims_never_share_a_lease [OF demo_ok(1)] by blast
qed

text \<open>
  Property C23. Recovery, when the database answers, settles exactly the expired runs, each as
  its status asks, and counts them: a run with a live lease keeps its row as it is, and a
  running job is queued again only while it has lost fewer than the allowed leases.
\<close>

theorem recovery_settles_expired:
  "recover_expired_jobs [True, True, True, True] now at t =
     (Ok (length (filter (\<lambda>r. row_status r \<in> set held_statuses \<and> expired now r) t)),
      map (settle now at) t)"
  by (rule recover_all_up)

lemma run_statements_live:
  assumes "list_all (\<lambda>(sel, upd). \<forall>r. sel r \<longrightarrow> expired now r) stmts"
    and "i < length t" and "\<not> expired now (t ! i)"
  shows "snd (run_statements ups n stmts t) ! i = t ! i"
  using assms
proof (induction ups n stmts t rule: run_statements.induct)
  case (2 up ups settled sel upd stmts t)
  have "update_rows sel upd t ! i = t ! i"
    using 2(2-4) by (auto simp: update_rows_def)
  with 2 show ?case by (auto simp del: update_rows_simps)
qed auto

text \<open>
  Even when a statement of the recovery fails half way, no run with a live lease is
  touched and no job is dropped.
\<close>

theorem recovery_spares_live_leases:
  assumes "i < length t" and "\<not> expired now (t ! i)"
  shows "snd (recover_expired_jobs ups now at t) ! i = t ! i \<and>
    length (snd (recover_expired_jobs ups now at t)) = length t"
proof -
  have "list_all (\<lambda>(sel, upd). \<forall>r. sel r \<longrightarrow> expired now r) (recovery_statements now at)"
    by (simp add: recovery_statements_def)
  then have "snd (run_statements ups 0 (recovery_statements now at) t) ! i = t ! i"
    using assms by (rule run_statements_live)
  then show ?thesis
    unfolding recover_expired_jobs_def using length_run_statements by blast
qed

theorem recovery_spares_live_leases_witness:
  "snd (recover_expired_jobs [True, True, False] 59999 ''09:02'' demo_claimed) ! 0 = demo_claimed ! 0 \<and>
   row_status (demo_claimed ! 0) = ''running''"
proof -
  have "0 < length demo_claimed" "\<not> expired 59999 (demo_claimed ! 0)" "row_status (demo_claimed ! 0) = ''running''"
    by code_simp+
  with recovery_spares_live_leases [of 0 demo_claimed] show ?thesis by blast
qed

text \<open>
  Property C24. A worker finds a job exactly when one is pending, and then the one with the least
  creation time, whichever order the database reads rows in; nothing else in the table changes.
\<close>

theorem claim_takes_oldest_pending:
  assumes "table_ok t" and "mset (scan (filter (\<lambda>r. row_status r = ''pending'') t)) =
    mset (filter (\<lambda>r. row_status r = ''pending'') t)"
  shows "case claim_next_job True scan from_str at now owner t of
      (Ok None, t') \<Rightarrow> t' = t \<and> list_all (\<lambda>r. row_status r \<noteq> ''pending'') t
    | (Ok (Some job), t') \<Rightarrow>
        list_ex (\<lambda>r. row_status r = ''pending'' \<and> job = row_to_job from_str (claim_row at owner now r) \<and>
          list_all (\<lambda>x. row_status x = ''pending'' \<longrightarrow> row_created_at r \<le> row_created_at x) t \<and>
          t' = map (\<lambda>x. if x = r then claim_row at owner now r else x) t) t
    | (Err e, t') \<Rightarrow> False"
proof -
  let ?pend = "filter (\<lambda>r. row_status r = ''pending'') t"
  let ?s = "sort_key row_created_at (scan ?pend)"
  have set: "set ?s = set ?pend" using mset_eq_setD [OF assms(2)] by (simp only: set_sort)
  show ?thesis
  proof (cases ?s)
    case Nil
    with set have "?pend = []" by simp
    then have "list_all (\<lambda>r. row_status r \<noteq> ''pending'') t"
      by (simp only: list_all_iff filter_empty_conv)
    moreover have "claim_next_job True scan from_str at now owner t = (Ok None, t)"
      by (simp add: claim_next_job_def oldest_pending_def Nil)
    ultimately show ?thesis by simp
  next
    case (Cons r rest)
    have r: "r \<in> set t" "row_status r = ''pending''" using set Cons by auto
    have least: "row_created_at r \<le> row_created_at x" if "x \<in> set t" "row_status x = ''pending''" for x
    proof -
      have "x \<in> set (r # rest)" using set Cons that by simp
      moreover have "sorted (map row_created_at (r # rest))" using Cons by (metis sorted_sort_key)
      ultimately show ?thesis by (simp add: image_iff) blast
    qed
    have only: "row_id x = row_id r \<Longrightarrow> x \<in> set t \<Longrightarrow> x = r" for x
      using assms(1) r(1) by (auto simp: table_ok_def distinct_map inj_on_def)
    let ?sel = "\<lambda>x. row_id x = row_id r \<and> row_status x = ''pending''"
    have "find ?sel t \<noteq> None" using r by (auto simp: find_None_iff)
    then obtain r0 where r0: "find ?sel t = Some r0" by auto
    then have "r0 = r" using only by (auto simp: find_Some_iff)
    moreover have "update_rows ?sel (claim_row at owner now) t = map (\<lambda>x. if x = r then claim_row at owner now r else x) t"
      unfolding update_rows_def using only r by (intro map_cong) auto
    ultimately have "claim_next_job True scan from_str at now owner t =
        (Ok (Some (row_to_job from_str (claim_row at owner now r))),
         map (\<lambda>x. if x = r then claim_row at owner now r else x) t)"
      using Cons r0 by (simp add: claim_next_job_def oldest_pending_def hold_job_def)
    moreover have "list_all (\<lambda>x. row_status x = ''pending'' \<longrightarrow> row_created_at r \<le> row_created_at x) t"
      using least by (simp add: list_all_iff)
    ultimately show ?thesis
      unfolding list_ex_iff using r by (simp del: row_fields) blast
  qed
qed

theorem claim_takes_oldest_pending_witness:
  "\<exists>job t'. claim_next_job True id (\<lambda>_. Some JNull) ''09:01'' 0 ''w'' demo_created = (Ok (Some job), t') \<and>
     list_ex (\<lambda>r. row_status r = ''pending'' \<and> row_id r = job_id job) demo_created"
proof -
  let ?c = "claim_next_job True id (\<lambda>_. Some JNull) ''09:01'' 0 ''w'' demo_created"
  have c: "?c = (Ok (Some (the (projr (fst ?c)))), snd ?c)" by code_simp
  have "mset (id (filter (\<lambda>r. row_status r = ''pending'') demo_created)) =
      mset (filter (\<lambda>r. row_status r = ''pending'') demo_created)" by simp
  from claim_takes_oldest_pending [where scan = id and from_str = "\<lambda>_. Some JNull" and at = "''09:01''" and now = 0 and owner = "''w''",
      OF demo_ok(1) this]
  have "list_ex (\<lambda>r. row_status r = ''pending'' \<and> row_id r = job_id (the (projr (fst ?c)))) demo_created"
    by (subst (asm) c) (auto simp: list_ex_iff)
  with c show ?thesis by blast
qed

lemma finish_changes:
  assumes "r \<in> set t" and "fenced i lease r"
  shows "update_rows (fenced i lease) (finish_row to_str at fin) t \<noteq> t"
proof
  assume eq: "update_rows (fenced i lease) (finish_row to_str at fin) t = t"
  from assms(1) obtain k where k: "k < length t" "t ! k = r" by (auto simp: in_set_conv_nth)
  then have "update_rows (fenced i lease) (finish_row to_str at fin) t ! k = finish_row to_str at fin r"
    using assms(2) by (simp add: update_rows_def)
  with eq k have "finish_row to_str at fin r = r" by simp
  then have "row_status (finish_row to_str at fin r) \<in> set held_statuses"
    using assms(2) by (simp only: fenced_def)
  then show False by (cases fin) simp_all
qed

lemma finish_recorded_iff:
  assumes "finish up to_str at i lease fin t = (res, t')"
  shows "(case res of Ok b \<Rightarrow> b | Err _ \<Rightarrow> False) \<longleftrightarrow> t' \<noteq> t"
proof (cases "up \<and> list_ex (fenced i lease) t")
  case True
  then obtain r where "r \<in> set t" "fenced i lease r" by (auto simp: list_ex_iff)
  moreover from this have "rows_affected (fenced i lease) t > 0"
    unfolding rows_affected_def by (auto simp: filter_empty_conv)
  ultimately show ?thesis using assms True finish_changes by (auto simp: finish_def)
next
  case False
  then have "up \<Longrightarrow> rows_affected (fenced i lease) t = 0"
    by (simp add: list_ex_iff)
  with False assms show ?thesis
    by (cases up) (auto simp: finish_def list_ex_iff update_rows_none)
qed

text \<open>
  The log tells the truth about outcomes: a worker that ends a run logs its outcome
  exactly when it changed the job's row. A run whose lease was lost, or whose write failed,
  leaves neither.
\<close>

theorem outcome_logged_iff_recorded:
  "(fst (finalize up_read up_write to_str at job lease outcome run seen t) = None) =
   (snd (snd (finalize up_read up_write to_str at job lease outcome run seen t)) = t)"
proof -
  obtain stop run' where s: "should_stop up_read (job_id job) run seen = (stop, run')" by fastforce
  obtain fin ev sev det where f: "final_record job stop outcome = (fin, ev, sev, det)" by (metis prod_cases4)
  obtain res t' where r: "finish up_write to_str at (job_id job) lease fin t = (res, t')" by fastforce
  from finish_recorded_iff [OF r] show ?thesis
    by (simp add: finalize_def s f r)
qed

section \<open>Job types\<close>

lemma plus_cls_lang: "w \<in> rx_lang (Opt (Plus (Cls P))) \<longleftrightarrow> list_all P w"
proof
  assume "w \<in> rx_lang (Opt (Plus (Cls P)))"
  then consider "w = []" | ws where "w = concat ws" "set ws \<subseteq> {[c] | c. P c}" by auto
  then show "list_all P w" by cases (auto simp: list_all_iff)
next
  assume P: "list_all P w"
  show "w \<in> rx_lang (Opt (Plus (Cls P)))"
  proof (cases w)
    case (Cons c s)
    have "concat (map (\<lambda>c. [c]) w) = w" by (induction w) auto
    then have "w = concat (map (\<lambda>c. [c]) w)" ..
    moreover have "set (map (\<lambda>c. [c]) w) \<subseteq> {[c] | c. P c}" using P by (auto simp: list_all_iff)
    moreover have "map (\<lambda>c. [c]) w \<noteq> []" using Cons by simp
    ultimately show ?thesis unfolding rx_lang.simps by blast
  qed simp
qed

lemma job_type_lang:
  "rx_match JOB_TYPE_RE s \<longleftrightarrow> s \<noteq> [] \<and> job_type_first (hd s) \<and> list_all job_type_char s"
proof -
  have "rx_match JOB_TYPE_RE s \<longleftrightarrow>
      s \<in> conc (rx_lang (Cls job_type_first)) (rx_lang (Opt (Plus (Cls job_type_char))))"
    by (simp only: rx_match_iff JOB_TYPE_RE_def rx_lang.simps(2))
  also have "\<dots> \<longleftrightarrow> (\<exists>c w. job_type_first c \<and> list_all job_type_char w \<and> s = c # w)"
    unfolding conc_iff Bex_def plus_cls_lang by auto
  also have "\<dots> \<longleftrightarrow> s \<noteq> [] \<and> job_type_first (hd s) \<and> list_all job_type_char s"
    by (cases s) (auto simp: job_type_char_def)
  finally show ?thesis .
qed

text \<open>
  A job type is admitted exactly when it has 1 to 128 characters of the allowed
  classes and does not begin with the reserved prefix; the error says which rule failed first.
\<close>

theorem validate_job_type_spec:
  "validate_job_type s =
     (if s = [] \<or> 128 < length s then Err (BadTypeLength s)
      else if \<not> (job_type_first (hd s) \<and> list_all job_type_char s) then Err (BadTypeChars s)
      else if prefix ''happyview.'' s then Err (ReservedType s)
      else Ok ())"
  by (simp add: validate_job_type_def job_type_lang is_reserved_def starts_with_def)

end
