(* ===== verification/Job_Listing.thy ===== *)
theory Job_Listing
  imports Job_Steps
begin

text \<open>
  Following the cursors of \<open>list_jobs\<close> (src/jobs/db.rs): when creation times are distinct the
  pages are a partition of the matching jobs, newest first, and the cursors end. With equal
  creation times a page boundary between them loses jobs.
\<close>

section \<open>Following the cursors\<close>

fun all_pages ::
    "nat \<Rightarrow> (job_row list \<Rightarrow> job_row list) \<Rightarrow> (string \<Rightarrow> json option) \<Rightarrow> string option \<Rightarrow> nat \<Rightarrow>
     string option \<Rightarrow> job_table \<Rightarrow> Job list option" where
  "all_pages 0 scan from_str f limit cursor t = None"
| "all_pages (Suc n) scan from_str f limit cursor t =
     (case list_jobs True scan from_str f limit cursor t of
        Err _ \<Rightarrow> None
      | Ok (jobs, None) \<Rightarrow> Some jobs
      | Ok (jobs, Some c) \<Rightarrow> map_option ((@) jobs) (all_pages n scan from_str f limit (Some c) t))"

definition matching :: "string option \<Rightarrow> job_table \<Rightarrow> job_row list" where
  "matching f t = filter (\<lambda>r. case f of Some s \<Rightarrow> row_status r = s | None \<Rightarrow> True) t"

abbreviation newer :: "job_row \<Rightarrow> job_row \<Rightarrow> bool" where
  "newer \<equiv> \<lambda>a b. row_created_at b < row_created_at a"

section \<open>Order\<close>

lemma newest_first_filter:
  assumes scan: "\<And>xs. mset (scan xs) = mset xs" and inj: "inj_on row_created_at (set xs)"
  shows "newest_first scan (filter P xs) = filter P (newest_first scan xs)"
proof -
  have "sort_key row_created_at (scan (filter P xs)) = filter P (sort_key row_created_at (scan xs))"
  proof (rule sort_key_inj_key_eq)
    show "mset (scan (filter P xs)) = mset (filter P (sort_key row_created_at (scan xs)))"
      by (simp add: scan)
    show "inj_on row_created_at (set (scan (filter P xs)))"
      using mset_eq_setD [OF scan [of "filter P xs"]] inj by (auto simp: inj_on_def)
    show "sorted (map row_created_at (filter P (sort_key row_created_at (scan xs))))"
      by (simp add: sorted_filter)
  qed
  then show ?thesis by (simp add: newest_first_def rev_filter)
qed

lemma newest_first_sorted:
  assumes scan: "\<And>xs. mset (scan xs) = mset xs" and inj: "inj_on row_created_at (set xs)" and d: "distinct xs"
  shows "sorted_wrt newer (newest_first scan xs)"
proof -
  let ?s = "sort_key row_created_at (scan xs)"
  have "set ?s = set xs" using mset_eq_setD [OF scan [of xs]] by (simp only: set_sort)
  moreover have "distinct ?s" using d mset_eq_imp_distinct_iff [OF scan [of xs]] by (simp only: distinct_sort)
  ultimately have "distinct (map row_created_at ?s)" using inj by (simp add: distinct_map)
  then have "sorted_wrt (<) (map row_created_at ?s)" by (simp add: strict_sorted_iff)
  then show ?thesis by (simp add: newest_first_def sorted_wrt_rev sorted_wrt_map)
qed

lemma filter_below_cursor:
  assumes "sorted_wrt newer xs" and "n < length xs"
  shows "filter (\<lambda>r. row_created_at r < row_created_at (xs ! n)) xs = drop (Suc n) xs"
  using assms
proof (induction xs arbitrary: n)
  case (Cons x xs)
  show ?case
  proof (cases n)
    case 0
    with Cons(2) show ?thesis by (simp add: filter_id_conv)
  next
    case (Suc m)
    with Cons(2,3) have "row_created_at (xs ! m) < row_created_at x" by simp
    then have "\<not> row_created_at x < row_created_at (xs ! m)" by (rule less_not_sym)
    with Suc Cons show ?thesis by simp
  qed
qed simp

lemma page_rows_matching:
  "page_rows scan f cursor t =
     newest_first scan (filter (\<lambda>r. case cursor of Some c \<Rightarrow> row_created_at r < c | None \<Rightarrow> True) (matching f t))"
  by (simp add: page_rows_def matching_def conj_commute)

lemma all_pages_from:
  assumes scan: "\<And>xs. mset (scan xs) = mset xs" and inj: "inj_on row_created_at (set t)" and d: "distinct t"
    and limit: "0 < limit"
  shows "length (page_rows scan f cursor t) < n \<Longrightarrow>
    all_pages n scan from_str f limit cursor t = Some (map (row_to_job from_str) (page_rows scan f cursor t))"
proof (induction n arbitrary: cursor)
  case (Suc n)
  let ?p = "page_rows scan f cursor t"
  have inj': "inj_on row_created_at (set (matching f t))" and d': "distinct (matching f t)"
    using inj d by (auto simp: matching_def inj_on_def)
  have cut: "page_rows scan f c t = filter (\<lambda>r. case c of Some c \<Rightarrow> row_created_at r < c | None \<Rightarrow> True)
      (newest_first scan (matching f t))" for c
    unfolding page_rows_matching using newest_first_filter [OF scan inj'] .
  have sorted: "sorted_wrt newer ?p"
    unfolding cut using newest_first_sorted [OF scan inj' d'] by (rule sorted_wrt_filter)
  show ?case
  proof (cases "length ?p \<le> limit")
    case True
    then show ?thesis by (simp add: list_jobs_def Let_def)
  next
    case False
    define c where "c = row_created_at (?p ! (limit - 1))"
    have "take limit ?p \<noteq> []" using False limit by auto
    then have last: "last (take limit ?p) = ?p ! (limit - 1)"
      using False limit by (simp add: last_conv_nth)
    have next_page: "page_rows scan f (Some c) t = drop limit ?p"
    proof -
      have "?p ! (limit - 1) \<in> set ?p" using False limit by simp
      then have below: "case cursor of Some b \<Rightarrow> c < b | None \<Rightarrow> True"
        unfolding c_def by (subst (asm) (2) cut) (auto split: option.splits)
      have "page_rows scan f (Some c) t = filter (\<lambda>r. row_created_at r < c) ?p"
        unfolding cut filter_filter using below
        by (intro filter_cong refl) (auto split: option.splits)
      also have "\<dots> = drop limit ?p"
        unfolding c_def using filter_below_cursor [OF sorted, of "limit - 1"] False limit by simp
      finally show ?thesis .
    qed
    have "length (page_rows scan f (Some c) t) < n"
      using Suc(2) limit False by (simp add: next_page)
    from Suc(1) [OF this] have rest: "all_pages n scan from_str f limit (Some c) t =
        Some (map (row_to_job from_str) (drop limit ?p))" by (simp only: next_page)
    have "list_jobs True scan from_str f limit cursor t =
        Ok (map (row_to_job from_str) (take limit ?p), Some c)"
      unfolding c_def using False limit \<open>take limit ?p \<noteq> []\<close> last by (simp add: list_jobs_def Let_def min_def last_map)
    then show ?thesis using rest by (simp flip: map_append)
  qed
qed simp

section \<open>Properties\<close>

text \<open>
  Property C25. When creation times are distinct, following the cursors ends, after at most one
  page more than there are jobs, and lists every matching job exactly once, newest first.
\<close>

theorem list_jobs_pages_complete:
  assumes "\<And>xs. mset (scan xs) = mset xs" and "table_ok t" and "inj_on row_created_at (set t)"
    and "0 < limit"
  shows "all_pages (Suc (length t)) scan from_str f limit None t =
      Some (map (row_to_job from_str) (newest_first scan (matching f t))) \<and>
    mset (newest_first scan (matching f t)) = mset (matching f t) \<and>
    sorted_wrt newer (newest_first scan (matching f t))"
proof (intro conjI)
  have d: "distinct t" using assms(2) by (simp add: table_ok_def distinct_map)
  have p: "page_rows scan f None t = newest_first scan (matching f t)" by (simp add: page_rows_matching)
  show m: "mset (newest_first scan (matching f t)) = mset (matching f t)"
    by (simp add: newest_first_def assms(1))
  then have "length (newest_first scan (matching f t)) = length (matching f t)" by (rule mset_eq_length)
  also have "\<dots> \<le> length t" by (simp add: matching_def)
  finally show "all_pages (Suc (length t)) scan from_str f limit None t =
      Some (map (row_to_job from_str) (newest_first scan (matching f t)))"
    using all_pages_from [OF assms(1,3) d assms(4), of f None "Suc (length t)" from_str] by (simp add: p)
  show "sorted_wrt newer (newest_first scan (matching f t))"
    using assms(3) d by (intro newest_first_sorted assms(1)) (auto simp: matching_def inj_on_def)
qed

theorem list_jobs_pages_complete_witness:
  "all_pages 3 id (\<lambda>_. Some JNull) None 1 None
     (snd (create_job True (\<lambda>_. ''{}'') ''j2'' ''09:30'' ''nightly'' JNull ''did:plc:a'' False None None demo_created)) =
   Some (map (row_to_job (\<lambda>_. Some JNull)) (newest_first id (matching None
     (snd (create_job True (\<lambda>_. ''{}'') ''j2'' ''09:30'' ''nightly'' JNull ''did:plc:a'' False None None demo_created)))))"
  (is "all_pages 3 id _ None 1 None ?t = _")
proof -
  have "table_ok ?t" using demo_ok(1) by (rule create_job_ok)
  moreover have "distinct (map row_created_at ?t)" by code_simp
  then have "inj_on row_created_at (set ?t)" by (simp only: distinct_map)
  moreover have "Suc (length ?t) = 3" by code_simp
  ultimately show ?thesis
    using list_jobs_pages_complete [of id ?t 1 "\<lambda>_. Some JNull" None] by simp
qed

text \<open>
  Property C26. With equal creation times the cursor loses jobs: of two jobs created at the same
  instant, pages of one job list only one and then end.
\<close>

theorem list_jobs_loses_ties:
  "let t = snd (create_job True (\<lambda>_. ''{}'') ''j2'' ''09:00'' ''nightly'' JNull ''did:plc:a'' False None None demo_created)
   in table_ok t \<and> length t = 2 \<and>
      map_option length (all_pages 3 id (\<lambda>_. Some JNull) None 1 None t) = Some 1"
proof -
  let ?t = "snd (create_job True (\<lambda>_. ''{}'') ''j2'' ''09:00'' ''nightly'' JNull ''did:plc:a'' False None None demo_created)"
  have "table_ok ?t" using demo_ok(1) by (rule create_job_ok)
  moreover have "length ?t = 2" "map_option length (all_pages 3 id (\<lambda>_. Some JNull) None 1 None ?t) = Some 1"
    by code_simp+
  ultimately show ?thesis by (simp only: Let_def)
qed

end
