(* ===== verification/Job_Clock.thy ===== *)
theory Job_Clock
  imports Job_Steps
begin

text \<open>
  The job queue in time: any number of instances whose clocks agree, with recoveries in progress whose
  four statements (src/jobs/db.rs, \<open>recover_expired_jobs\<close>) come one by one, each with the time at which
  its recovery began, among everything else the instances do. Another statement may reach the database
  up to the length of a lease after its time was read. The limit on lost leases holds here and not
  for arbitrary times: between the statement that fails a job and the one that queues the rest again, a
  run with a lease that is already over must not appear.
\<close>

section \<open>The system\<close>

record job_system =
  sys_clock :: int
  sys_table :: job_table
  sys_recoveries :: "(int \<times> ((job_row \<Rightarrow> bool) \<times> (job_row \<Rightarrow> job_row)) list) list"

inductive system_step :: "job_system \<Rightarrow> job_system \<Rightarrow> bool" where
  tick: "sys_clock s \<le> c \<Longrightarrow> system_step s (s\<lparr>sys_clock := c\<rparr>)"
| act: "job_act now (sys_table s) t \<Longrightarrow> sys_clock s \<le> now + LEASE \<Longrightarrow> system_step s (s\<lparr>sys_table := t\<rparr>)"
| recovery: "system_step s (s\<lparr>sys_recoveries := (sys_clock s, recovery_statements (sys_clock s) at) # sys_recoveries s\<rparr>)"
| statement: "sys_recoveries s = before @ (now, (sel, upd) # rest) # after \<Longrightarrow>
    system_step s (s\<lparr>sys_table := update_rows sel upd (sys_table s), sys_recoveries := before @ (now, rest) # after\<rparr>)"
| abandon: "sys_recoveries s = before @ r # after \<Longrightarrow> system_step s (s\<lparr>sys_recoveries := before @ after\<rparr>)"

definition system_start :: "int \<Rightarrow> job_system" where
  "system_start c = \<lparr>sys_clock = c, sys_table = [], sys_recoveries = []\<rparr>"

section \<open>Invariant\<close>

text \<open>What the statement that queues runs again relies on.\<close>

definition retryable :: "int \<Rightarrow> job_row \<Rightarrow> bool" where
  "retryable now r \<longleftrightarrow> (row_status r = ''running'' \<longrightarrow> expired now r \<longrightarrow> row_lost_leases r + 1 < MAX_LOST_LEASES)"

definition recovery_ok :: "int \<Rightarrow> job_table \<Rightarrow> int \<times> ((job_row \<Rightarrow> bool) \<times> (job_row \<Rightarrow> job_row)) list \<Rightarrow> bool" where
  "recovery_ok c t r \<longleftrightarrow> fst r \<le> c \<and>
     (\<exists>at k. snd r = drop k (recovery_statements (fst r) at) \<and> (k = 3 \<longrightarrow> list_all (retryable (fst r)) t))"

definition system_ok :: "job_system \<Rightarrow> bool" where
  "system_ok s \<longleftrightarrow> table_ok (sys_table s) \<and> (\<forall>r\<in>set (sys_recoveries s). recovery_ok (sys_clock s) (sys_table s) r)"

lemma list_all_update:
  "(\<And>r. r \<in> set t \<Longrightarrow> P r \<Longrightarrow> sel r \<Longrightarrow> P (upd r)) \<Longrightarrow> list_all P t \<Longrightarrow> list_all P (update_rows sel upd t)"
  by (auto simp: update_rows_def list_all_iff)

lemma not_running_retryable: "row_status r \<noteq> ''running'' \<Longrightarrow> retryable now r"
  by (simp add: retryable_def)

lemma finish_not_running: "row_status (finish_row to_str at fin r) \<noteq> ''running''"
  by (simp split: Finish.split)

lemma request_not_running: "(st, to) \<in> set requests \<Longrightarrow> to \<noteq> ''running''"
  by (auto simp: requests_def)

text \<open>
  An action that takes its time from \<open>c\<close> keeps every row property that survives a claim and a renewal at
  \<open>c\<close>, a change of progress, and any change out of the running states.
\<close>

lemma job_act_rows:
  assumes act: "job_act c t t'" and all: "list_all P t"
    and new: "\<And>uuid t i b a inh api dpop. P (new_row uuid t i b a inh api dpop)"
    and claim: "\<And>r at owner. P r \<Longrightarrow> row_status r = ''pending'' \<Longrightarrow> P (claim_row at owner c r)"
    and progress: "\<And>r p. P r \<Longrightarrow> P (r\<lparr>row_progress := p\<rparr>)"
    and renew: "\<And>r. P r \<Longrightarrow> row_status r \<in> set held_statuses \<Longrightarrow> P (r\<lparr>row_lease_until := Some (lease_until c)\<rparr>)"
    and finish: "\<And>r f at fin. P r \<Longrightarrow> row_status r \<in> set held_statuses \<Longrightarrow> P (finish_row f at fin r)"
    and request: "\<And>r at to. P r \<Longrightarrow> (row_status r, to) \<in> set requests \<Longrightarrow> P (request_row at to r)"
  shows "list_all P t'"
proof -
  have hold: "list_all P (snd (hold_job up from_str at c i owner t))" for up from_str at i owner
    using all claim by (auto simp: hold_job_def Let_def intro!: list_all_update)
  have change: "list_all P (snd (change_status up at i st to t))" if "(st, to) \<in> set requests" for up at i st to
  proof -
    have "(\<lambda>r. if to \<in> set [''completed'', ''failed'', ''cancelled'']
        then r\<lparr>row_status := to, row_completed_at := Some at\<rparr> else r\<lparr>row_status := to\<rparr>) = request_row at to"
      by (simp add: request_row_def terminal_statuses_def fun_eq_iff)
    thus ?thesis using all request that
      by (auto simp: change_status_def Let_def simp del: list.set intro!: list_all_update)
  qed
  have req: "list_all P (snd (request_status target denied up_read up_write from_str at i seen t))"
    if "\<And>s to. target s = Some to \<Longrightarrow> (s, to) \<in> set requests" for target denied up_read up_write from_str at i seen
  proof -
    have "list_all P t1" if "change_status up_write at i s to t = (res, t1)" "target s = Some to" for s to res t1
      using change [OF \<open>\<And>s to. target s = Some to \<Longrightarrow> (s, to) \<in> set requests\<close> [OF that(2)], of up_write at i] that(1) by simp
    thus ?thesis using all
      by (fastforce simp: request_status_def split: option.splits sum.splits prod.splits bool.splits)
  qed
  from act show ?thesis
  proof cases
    case create
    thus ?thesis using all new by (simp add: create_job_def)
  next
    case claim_next
    thus ?thesis using all hold by (simp add: claim_next_job_def split: option.split)
  next
    case progress
    thus ?thesis using all assms(5)
      by (auto simp: update_progress_def Let_def split: option.splits intro!: list_all_update)
  next
    case cancel
    thus ?thesis using req targets_requests(1) by (auto simp: cancel_job_def)
  next
    case pause
    thus ?thesis using req targets_requests(2) by (auto simp: pause_job_def)
  next
    case resume
    thus ?thesis using req targets_requests(3) by (auto simp: resume_job_def)
  qed (use all hold assms(6,7) in \<open>auto simp: renew_lease_def finish_def fenced_def intro!: list_all_update\<close>)
qed

lemma job_act_lost:
  assumes "job_act c t t'" "list_all lost_ok t"
  shows "list_all lost_ok t'"
  using assms
proof (rule job_act_rows)
  fix r f at fin
  assume "lost_ok r" "row_status r \<in> set held_statuses"
  thus "lost_ok (finish_row f at fin r)" by (auto simp: lost_ok_def)
next
  fix r at to
  assume "lost_ok r" "(row_status r, to) \<in> set requests"
  thus "lost_ok (request_row at to r)" by (auto simp: lost_ok_def elim: requests_cases)
qed (use new_row_ok in \<open>auto simp: lost_ok_def row_ok_def\<close>)

lemma job_act_retryable:
  assumes "job_act c t t'" "list_all (retryable now) t" "now \<le> c + LEASE"
  shows "list_all (retryable now) t'"
  using assms(1,2)
proof (rule job_act_rows)
  fix r at to
  assume "retryable now r" "(row_status r, to) \<in> set requests"
  thus "retryable now (request_row at to r)" using request_not_running by (auto simp: retryable_def)
next
  fix r f at fin
  show "retryable now (finish_row f at fin r)" by (rule not_running_retryable) (rule finish_not_running)
qed (use assms(3) in \<open>auto simp: retryable_def expired_def new_row_def lease_until_def\<close>)

lemma statement_lost:
  assumes "k < 4" "(sel, upd) = recovery_statements now at ! k" "list_all lost_ok t" "list_all row_shape t"
    and "k = 3 \<longrightarrow> list_all (retryable now) t"
  shows "list_all lost_ok (update_rows sel upd t)"
proof (rule list_all_update [OF _ assms(3)])
  fix r
  assume r: "r \<in> set t" "lost_ok r" "sel r"
  consider "k = 0" | "k = 1" | "k = 2" | "k = 3" using assms(1) by linarith
  thus "lost_ok (upd r)"
    using r assms(2,5) by cases (auto simp: recovery_statements_def lost_ok_def retryable_def list_all_iff MAX_LOST_LEASES_def)
qed

lemma statement_retryable:
  assumes "(sel, upd) \<in> set (recovery_statements now' at)" "list_all (retryable now) t"
  shows "list_all (retryable now) (update_rows sel upd t)"
  using assms by (intro list_all_update) (auto simp: recovery_statements_def intro: not_running_retryable)

lemma failing_makes_retryable:
  assumes "(sel, upd) = recovery_statements now at ! 2"
  shows "list_all (retryable now) (update_rows sel upd t)"
  using assms by (auto simp: recovery_statements_def update_rows_def list_all_iff retryable_def)

lemma recovery_next:
  assumes "(sel, upd) # rest = drop k (recovery_statements now at)"
  shows "k < 4" "(sel, upd) = recovery_statements now at ! k" "rest = drop (Suc k) (recovery_statements now at)"
    "(sel, upd) \<in> set (recovery_statements now at)"
proof -
  have len: "length (recovery_statements now at) = 4" by (simp add: recovery_statements_def)
  show k: "k < 4" using arg_cong [OF assms, of length] len by (cases "k < 4") simp_all
  have "drop k (recovery_statements now at) = recovery_statements now at ! k # drop (Suc k) (recovery_statements now at)"
    using k len by (simp add: Cons_nth_drop_Suc)
  with assms show "(sel, upd) = recovery_statements now at ! k" "rest = drop (Suc k) (recovery_statements now at)" by simp_all
  thus "(sel, upd) \<in> set (recovery_statements now at)" using k len by simp
qed

lemma recovery_ok_kept:
  assumes "recovery_ok c t r" "c \<le> c'" "list_all (retryable (fst r)) t \<Longrightarrow> list_all (retryable (fst r)) t'"
  shows "recovery_ok c' t' r"
  using assms unfolding recovery_ok_def by (meson order_trans)

lemma system_step_ok: "system_step s s' \<Longrightarrow> system_ok s \<Longrightarrow> system_ok s'"
proof (induction rule: system_step.induct)
  case (tick s c)
  thus ?case by (auto simp: system_ok_def intro: recovery_ok_kept)
next
  case (act now s t)
  hence "table_ok t" using job_act_shaped job_act_lost by (auto simp: system_ok_def table_ok_shaped)
  moreover have "recovery_ok (sys_clock s) t r" if "r \<in> set (sys_recoveries s)" for r
  proof (rule recovery_ok_kept [OF _ order_refl])
    show ok: "recovery_ok (sys_clock s) (sys_table s) r" using act(3) that by (simp add: system_ok_def)
    have "fst r \<le> now + LEASE" using ok act(2) by (simp add: recovery_ok_def)
    thus "list_all (retryable (fst r)) t" if "list_all (retryable (fst r)) (sys_table s)"
      using job_act_retryable [OF act(1) that] by simp
  qed
  ultimately show ?case by (simp add: system_ok_def)
next
  case (recovery s at)
  have "recovery_ok (sys_clock s) (sys_table s) (sys_clock s, recovery_statements (sys_clock s) at)"
    by (auto simp: recovery_ok_def intro!: exI [of _ at] exI [of _ 0])
  thus ?case using recovery by (simp add: system_ok_def)
next
  case (statement s before now sel upd rest after)
  let ?t = "update_rows sel upd (sys_table s)"
  have this: "recovery_ok (sys_clock s) (sys_table s) (now, (sel, upd) # rest)" using statement by (simp add: system_ok_def)
  then obtain at k where k: "(sel, upd) # rest = drop k (recovery_statements now at)"
      "k = 3 \<longrightarrow> list_all (retryable now) (sys_table s)" "now \<le> sys_clock s"
    by (auto simp: recovery_ok_def)
  note n = recovery_next [OF k(1)]
  have t: "table_ok (sys_table s)" using statement(2) by (simp add: system_ok_def)
  hence "table_shaped ?t" using job_step_shaped [OF job_step.recover [OF n(4)]] by (simp add: table_ok_shaped)
  moreover have "list_all lost_ok ?t"
    using statement_lost [OF n(1,2) _ _ k(2)] t by (simp add: table_ok_shaped table_shaped_def)
  moreover have "recovery_ok (sys_clock s) ?t (now, rest)"
    using k(3) n(3) failing_makes_retryable [of sel upd now at "sys_table s"] n(2)
    by (auto simp: recovery_ok_def intro!: exI [of _ at] exI [of _ "Suc k"])
  moreover have "recovery_ok (sys_clock s) ?t r" if "r \<in> set (before @ after)" for r
    by (rule recovery_ok_kept [OF _ order_refl, of _ "sys_table s"])
       (use statement that statement_retryable [OF n(4)] in \<open>auto simp: system_ok_def\<close>)
  ultimately show ?case by (auto simp: system_ok_def table_ok_shaped)
next
  case (abandon s before r after)
  thus ?case by (auto simp: system_ok_def)
qed

lemma system_steps_ok: "system_step\<^sup>*\<^sup>* s s' \<Longrightarrow> system_ok s \<Longrightarrow> system_ok s'"
  by (induction rule: rtranclp_induct) (auto intro: system_step_ok)

lemma system_start_ok: "system_ok (system_start c)"
  by (simp add: system_ok_def system_start_def)

section \<open>Properties\<close>

text \<open>
  Property C1. Whatever instances, workers and operators do, in whatever order and with the statements
  of recoveries interleaved with everything else, the table they build from an empty one is well formed.
  Identifiers are unique and every row has a known status. A row has a lease exactly while it is being
  run, and then it has an owner (an owner may stay named on a row that is no longer run). Lost leases
  never exceed the attempts, nor the limit, which only a failed job reaches. Exactly the finished rows
  have a completion time. The clocks of the instances agree and a statement reaches the database within
  the length of a lease.
\<close>
theorem job_system_invariant:
  assumes "system_step\<^sup>*\<^sup>* (system_start c) s"
  shows "table_ok (sys_table s)"
  using system_steps_ok [OF assms system_start_ok] by (simp add: system_ok_def)

text \<open>A job is created and claimed, its lease runs out and a recovery queues it again.\<close>

definition demo_system :: job_system where
  "demo_system = \<lparr>sys_clock = 60001, sys_table = demo_requeued, sys_recoveries = [(60001, [])]\<rparr>"

lemma demo_system_reached: "system_step\<^sup>*\<^sup>* (system_start 0) demo_system"
proof -
  let ?st = "recovery_statements 60001 ''09:03''"
  let ?s = "\<lambda>c t rs. \<lparr>sys_clock = c, sys_table = t, sys_recoveries = rs\<rparr>"
  define u where "u x t = update_rows (fst x) (snd x) t" for x :: "(job_row \<Rightarrow> bool) \<times> (job_row \<Rightarrow> job_row)" and t
  have st: "?st = [?st ! 0, ?st ! 1, ?st ! 2, ?st ! 3]" by (simp add: recovery_statements_def)
  have requeued: "demo_requeued = u (?st ! 3) (u (?st ! 2) (u (?st ! 1) (u (?st ! 0) demo_claimed)))"
    by (simp add: demo_requeued_def recover_expired_jobs_def recovery_statements_def u_def)
  have run: "system_step\<^sup>*\<^sup>* (?s 60001 t [(60001, xs)]) (?s 60001 (foldl (\<lambda>t x. u x t) t xs) [(60001, [])])" for t xs
  proof (induction xs arbitrary: t)
    case (Cons x xs)
    have "system_step (?s 60001 t [(60001, x # xs)]) (?s 60001 (u x t) [(60001, xs)])"
      using system_step.statement [of "?s 60001 t [(60001, x # xs)]" "[]" 60001 "fst x" "snd x" xs "[]"] by (simp add: u_def)
    with Cons [of "u x t"] show ?case by (simp add: converse_rtranclp_into_rtranclp)
  qed simp
  have s1: "system_step (system_start 0) (?s 0 demo_created [])"
    using system_step.act [of 0 "system_start 0" demo_created] job_act.create
    by (simp add: system_start_def demo_created_def LEASE_def)
  have s2: "system_step (?s 0 demo_created []) (?s 0 demo_claimed [])"
    using system_step.act [of 0 "?s 0 demo_created []" demo_claimed] job_act.claim_next
    by (simp add: demo_claimed_def LEASE_def)
  have s3: "system_step (?s 0 demo_claimed []) (?s 60001 demo_claimed [])"
    using system_step.tick [of "?s 0 demo_claimed []" 60001] by simp
  have s4: "system_step (?s 60001 demo_claimed []) (?s 60001 demo_claimed [(60001, ?st)])"
    using system_step.recovery [of "?s 60001 demo_claimed []" "''09:03''"] by simp
  have "foldl (\<lambda>t x. u x t) demo_claimed ?st = demo_requeued"
    by (subst st) (simp only: requeued foldl.simps)
  with run [of demo_claimed ?st] have "system_step\<^sup>*\<^sup>* (?s 60001 demo_claimed [(60001, ?st)]) demo_system"
    by (simp only: demo_system_def)
  with s4 have "system_step\<^sup>*\<^sup>* (?s 60001 demo_claimed []) demo_system" by (rule converse_rtranclp_into_rtranclp)
  with s3 have "system_step\<^sup>*\<^sup>* (?s 0 demo_claimed []) demo_system" by (rule converse_rtranclp_into_rtranclp)
  with s2 have "system_step\<^sup>*\<^sup>* (?s 0 demo_created []) demo_system" by (rule converse_rtranclp_into_rtranclp)
  with s1 show ?thesis by (rule converse_rtranclp_into_rtranclp)
qed

theorem job_system_invariant_witness:
  "table_ok (sys_table demo_system) \<and> sys_table demo_system \<noteq> []"
proof -
  have "sys_table demo_system \<noteq> []" by code_simp
  thus ?thesis using job_system_invariant [OF demo_system_reached] by blast
qed

end
