(* ===== verification/Watermark.thy ===== *)
theory Watermark
  imports Prelude
begin

text \<open>
  The applied watermark of the stream consumer
  (crates/happyview-source-jetstream/src/consumer/watermark.rs), and the stream positions it is
  made of (consumer/event.rs). Tickets are \<open>u64\<close>, kept at their width; the queue of unretired
  tickets is a list. The specification keeps every event ever begun and the set of finished
  tickets, and reads the watermark off as the longest finished prefix; the queue refines it as
  long as fewer than \<open>2\<^sup>6\<^sup>4\<close> events have been begun, when the ticket counter does not wrap.
\<close>

section \<open>Stream positions\<close>

datatype CursorPoint = PointV2 int int | PointV1 int

definition point_seq :: "CursorPoint \<Rightarrow> int option" where
  "point_seq p = (case p of PointV2 seq _ \<Rightarrow> Some seq | PointV1 _ \<Rightarrow> None)"

definition point_time_us :: "CursorPoint \<Rightarrow> int" where
  "point_time_us p = (case p of PointV2 _ witnessed_us \<Rightarrow> witnessed_us | PointV1 time_us \<Rightarrow> time_us)"

section \<open>The queue of tickets\<close>

record Watermark =
  wm_front :: "64 word"
  wm_pending :: "(CursorPoint \<times> bool) list"
  wm_applied :: "CursorPoint option"

definition wm_default :: Watermark where
  "wm_default = \<lparr>wm_front = 0, wm_pending = [], wm_applied = None\<rparr>"

definition wm_next_ticket :: "Watermark \<Rightarrow> 64 word" where
  "wm_next_ticket w = wm_front w + of_nat (length (wm_pending w))"

definition wm_begin :: "CursorPoint \<Rightarrow> Watermark \<Rightarrow> 64 word \<times> Watermark" where
  "wm_begin point w =
     (let ticket = wm_front w + of_nat (length (wm_pending w))
      in (ticket, w\<lparr>wm_pending := wm_pending w @ [(point, False)]\<rparr>))"

text \<open>The loop that retires finished tickets at the front.\<close>

fun wm_retire ::
    "64 word \<Rightarrow> (CursorPoint \<times> bool) list \<Rightarrow> CursorPoint option \<Rightarrow>
     64 word \<times> (CursorPoint \<times> bool) list \<times> CursorPoint option" where
  "wm_retire front ((point, True) # pending) applied = wm_retire (front + 1) pending (Some point)"
| "wm_retire front pending applied = (front, pending, applied)"

definition wm_complete :: "64 word \<Rightarrow> Watermark \<Rightarrow> Watermark" where
  "wm_complete ticket w =
     (if ticket < wm_front w then w
      else let index = unat (ticket - wm_front w) in
      if length (wm_pending w) \<le> index then w
      else let pending = (wm_pending w)[index := (fst (wm_pending w ! index), True)];
               (front', pending', applied') = wm_retire (wm_front w) pending (wm_applied w)
           in \<lparr>wm_front = front', wm_pending = pending', wm_applied = applied'\<rparr>)"

definition wm_in_flight :: "Watermark \<Rightarrow> nat" where
  "wm_in_flight w = length (wm_pending w)"

definition wm_has_retired :: "64 word \<Rightarrow> Watermark \<Rightarrow> bool" where
  "wm_has_retired ticket w \<longleftrightarrow> ticket < wm_front w"

definition wm_applied_if_retired :: "64 word \<Rightarrow> Watermark \<Rightarrow> CursorPoint option" where
  "wm_applied_if_retired ticket w = (if wm_has_retired ticket w then wm_applied w else None)"

text \<open>\<open>complete\<close> on the shared handle also says whether it wakes the waiters for idleness.\<close>

definition handle_complete :: "64 word \<Rightarrow> Watermark \<Rightarrow> bool \<times> Watermark" where
  "handle_complete ticket w = (let w' = wm_complete ticket w in (wm_in_flight w' = 0, w'))"

section \<open>The specification\<close>

record progress =
  begun :: "CursorPoint list"
  finished :: "nat set"

definition spec_begin :: "CursorPoint \<Rightarrow> progress \<Rightarrow> nat \<times> progress" where
  "spec_begin p s = (length (begun s), s\<lparr>begun := begun s @ [p]\<rparr>)"

definition spec_complete :: "nat \<Rightarrow> progress \<Rightarrow> progress" where
  "spec_complete k s = (if k < length (begun s) then s\<lparr>finished := insert k (finished s)\<rparr> else s)"

definition retired :: "progress \<Rightarrow> nat" where
  "retired s = length (takeWhile (\<lambda>k. k \<in> finished s) [0..<length (begun s)])"

definition spec_applied :: "progress \<Rightarrow> CursorPoint option" where
  "spec_applied s = (if retired s = 0 then None else Some (begun s ! (retired s - 1)))"

definition refines :: "Watermark \<Rightarrow> progress \<Rightarrow> bool" where
  "refines w s \<longleftrightarrow>
     length (begun s) < 2 ^ 64 \<and> finished s \<subseteq> {..<length (begun s)} \<and>
     unat (wm_front w) = retired s \<and>
     wm_pending w = map (\<lambda>k. (begun s ! k, k \<in> finished s)) [retired s..<length (begun s)] \<and>
     wm_applied w = spec_applied s"

section \<open>The retired prefix\<close>

lemma unat_plus_of_nat: "unat w + n < 2 ^ 64 \<Longrightarrow> unat (w + of_nat n :: 64 word) = unat w + n"
  by (simp add: unat_word_ariths unat_of_nat take_bit_nat_eq_self)

lemma retired_le: "retired s \<le> length (begun s)"
  unfolding retired_def by (metis length_takeWhile_le length_upt minus_nat.diff_0)

lemma retired_finished: "k < retired s \<Longrightarrow> k \<in> finished s"
proof -
  assume k: "k < retired s"
  then have "k < length (begun s)" using retired_le less_le_trans by blast
  moreover have "takeWhile (\<lambda>k. k \<in> finished s) [0..<length (begun s)] ! k \<in> finished s"
    using k nth_mem set_takeWhileD unfolding retired_def by metis
  ultimately show ?thesis using k by (simp add: retired_def takeWhile_nth)
qed

lemma retired_stops: "retired s < length (begun s) \<Longrightarrow> retired s \<notin> finished s"
  unfolding retired_def
  using nth_length_takeWhile [of "\<lambda>k. k \<in> finished s" "[0..<length (begun s)]"] by simp

lemma retired_unique:
  assumes "n \<le> length (begun s)" and "\<And>k. k < n \<Longrightarrow> k \<in> finished s"
    and "n < length (begun s) \<Longrightarrow> n \<notin> finished s"
  shows "retired s = n"
proof (rule ccontr)
  assume "retired s \<noteq> n"
  then consider "retired s < n" | "n < retired s" by linarith
  then show False
  proof cases
    case 1
    then show ?thesis using assms(1,2) retired_stops by fastforce
  next
    case 2
    then show ?thesis using assms(3) retired_finished retired_le less_le_trans by blast
  qed
qed

lemma retired_begin: "finished s \<subseteq> {..<length (begun s)} \<Longrightarrow> retired (s\<lparr>begun := begun s @ [p]\<rparr>) = retired s"
proof (rule retired_unique)
  assume f: "finished s \<subseteq> {..<length (begun s)}"
  show "retired s \<le> length (begun (s\<lparr>begun := begun s @ [p]\<rparr>))" using retired_le [of s] by simp
  show "k \<in> finished (s\<lparr>begun := begun s @ [p]\<rparr>)" if "k < retired s" for k
    using that retired_finished by simp
  show "retired s \<notin> finished (s\<lparr>begun := begun s @ [p]\<rparr>)"
    using f retired_stops [of s] retired_le [of s] by (cases "retired s < length (begun s)") auto
qed

text \<open>The loop stops at the first unfinished ticket.\<close>

lemma wm_retire_map:
  assumes "a \<le> b" and "b \<le> n" and "\<And>k. a \<le> k \<Longrightarrow> k < b \<Longrightarrow> d k" and "b < n \<Longrightarrow> \<not> d b"
  shows "wm_retire front (map (\<lambda>k. (p k, d k)) [a..<n]) applied =
    (front + of_nat (b - a), map (\<lambda>k. (p k, d k)) [b..<n], if a = b then applied else Some (p (b - 1)))"
  using assms
proof (induction "b - a" arbitrary: a front applied)
  case 0
  then have "a = b" by simp
  show ?case
  proof (cases "b < n")
    case True
    with 0 \<open>a = b\<close> show ?thesis by (simp add: upt_conv_Cons)
  qed (use 0 \<open>a = b\<close> in simp)
next
  case (Suc m)
  then have a: "a < b" "d a" "a < n" by auto
  then have "[a..<n] = a # [Suc a..<n]" by (simp add: upt_conv_Cons)
  moreover have "wm_retire (front + 1) (map (\<lambda>k. (p k, d k)) [Suc a..<n]) (Some (p a)) =
      (front + 1 + of_nat (b - Suc a), map (\<lambda>k. (p k, d k)) [b..<n],
       if Suc a = b then Some (p a) else Some (p (b - 1)))"
    using Suc.hyps(2) a Suc.prems by (intro Suc.hyps(1)) auto
  moreover have "of_nat (b - a) = (1 + of_nat (b - Suc a) :: 64 word)"
    using a by (metis Suc_diff_Suc of_nat_Suc)
  ultimately show ?case using a by auto
qed

section \<open>Refinement\<close>

lemma refines_default: "refines wm_default \<lparr>begun = [], finished = {}\<rparr>"
  by (simp add: refines_def wm_default_def retired_def spec_applied_def)

lemma refines_ticket:
  assumes "refines w s"
  shows "unat (wm_next_ticket w) = length (begun s)"
proof -
  have "unat (wm_front w) + length (wm_pending w) = length (begun s)"
    using assms retired_le [of s] by (simp add: refines_def)
  moreover have "length (begun s) < 2 ^ 64" using assms by (simp add: refines_def)
  ultimately show ?thesis
    by (simp add: wm_next_ticket_def unat_plus_of_nat)
qed

lemma refines_begin:
  assumes "refines w s" and "Suc (length (begun s)) < 2 ^ 64"
  shows "unat (fst (wm_begin p w)) = fst (spec_begin p s) \<and>
    refines (snd (wm_begin p w)) (snd (spec_begin p s))"
proof -
  let ?s = "s\<lparr>begun := begun s @ [p]\<rparr>"
  have r: "retired ?s = retired s" using assms(1) by (intro retired_begin) (simp add: refines_def)
  have fin: "length (begun s) \<notin> finished s" using assms(1) by (auto simp: refines_def)
  have "refines (w\<lparr>wm_pending := wm_pending w @ [(p, False)]\<rparr>) ?s"
    using assms retired_le [of s] fin
    by (auto simp: refines_def r spec_applied_def nth_append upt_Suc_append)
  with refines_ticket [OF assms(1)] show ?thesis
    by (simp add: wm_begin_def spec_begin_def wm_next_ticket_def)
qed

lemma refines_complete:
  assumes "refines w s"
  shows "refines (wm_complete ticket w) (spec_complete (unat ticket) s)"
proof -
  let ?k = "unat ticket" and ?n = "length (begun s)" and ?a = "retired s"
  have front: "unat (wm_front w) = ?a" and pend: "wm_pending w = map (\<lambda>k. (begun s ! k, k \<in> finished s)) [?a..<?n]"
    using assms by (auto simp: refines_def)
  have len: "length (wm_pending w) = ?n - ?a" by (simp add: pend)
  show ?thesis
  proof (cases "ticket < wm_front w \<or> ?n \<le> ?k")
    case True
    then consider "ticket < wm_front w" | "\<not> ticket < wm_front w" "?n \<le> ?k" by blast
    then show ?thesis
    proof cases
      case 1
      then have "?k < ?a" using front by (simp add: word_less_nat_alt)
      then have "?k \<in> finished s" by (rule retired_finished)
      with 1 assms show ?thesis by (auto simp: wm_complete_def spec_complete_def insert_absorb)
    next
      case 2
      then have "unat (ticket - wm_front w) = ?k - ?a"
        using front by (simp add: unat_sub not_less)
      with 2 assms len show ?thesis by (simp add: wm_complete_def spec_complete_def Let_def diff_le_mono)
    qed
  next
    case False
    then have ka: "?a \<le> ?k" "?k < ?n" using front by (auto simp: word_less_nat_alt)
    let ?s = "s\<lparr>finished := insert ?k (finished s)\<rparr>"
    have idx: "unat (ticket - wm_front w) = ?k - ?a"
      using False front by (simp add: unat_sub not_less)
    have upd: "(wm_pending w)[?k - ?a := (fst (wm_pending w ! (?k - ?a)), True)] =
        map (\<lambda>k. (begun s ! k, k \<in> finished ?s)) [?a..<?n]"
      using ka by (intro nth_equalityI) (auto simp: pend nth_list_update)
    have b: "?a \<le> retired ?s"
    proof (rule ccontr)
      assume "\<not> ?a \<le> retired ?s"
      then have "retired ?s < ?n" "retired ?s \<in> finished s" using retired_le [of s] retired_finished by auto
      with retired_stops [of ?s] show False by simp
    qed
    have "wm_retire (wm_front w) (map (\<lambda>k. (begun s ! k, k \<in> finished ?s)) [?a..<?n]) (wm_applied w) =
        (wm_front w + of_nat (retired ?s - ?a), map (\<lambda>k. (begun s ! k, k \<in> finished ?s)) [retired ?s..<?n],
         if ?a = retired ?s then wm_applied w else Some (begun s ! (retired ?s - 1)))"
      using b retired_le [of ?s] retired_finished [of _ ?s] retired_stops [of ?s]
      by (intro wm_retire_map) auto
    moreover have "unat (wm_front w + of_nat (retired ?s - ?a)) = retired ?s"
      using assms front b retired_le [of ?s] unat_plus_of_nat [of "wm_front w" "retired ?s - ?a"]
      by (simp add: refines_def del: of_nat_diff)
    ultimately have w: "wm_complete ticket w = \<lparr>wm_front = wm_front w + of_nat (retired ?s - ?a),
        wm_pending = map (\<lambda>k. (begun s ! k, k \<in> finished ?s)) [retired ?s..<?n],
        wm_applied = (if ?a = retired ?s then wm_applied w else Some (begun s ! (retired ?s - 1)))\<rparr>"
      using False ka by (simp add: wm_complete_def idx len upd Let_def not_le diff_less_mono)
    have "(if ?a = retired ?s then wm_applied w else Some (begun s ! (retired ?s - 1))) = spec_applied ?s"
      using assms b by (auto simp: refines_def spec_applied_def)
    with w assms ka \<open>unat (wm_front w + of_nat (retired ?s - ?a)) = retired ?s\<close>
    show ?thesis by (auto simp: refines_def spec_complete_def)
  qed
qed

text \<open>Any sequence of begins and completions, by the reader and the workers.\<close>

datatype wm_op = OpBegin CursorPoint | OpComplete "64 word"

fun wm_run :: "wm_op list \<Rightarrow> Watermark \<Rightarrow> Watermark" where
  "wm_run [] w = w"
| "wm_run (OpBegin p # ops) w = wm_run ops (snd (wm_begin p w))"
| "wm_run (OpComplete t # ops) w = wm_run ops (wm_complete t w)"

fun spec_run :: "wm_op list \<Rightarrow> progress \<Rightarrow> progress" where
  "spec_run [] s = s"
| "spec_run (OpBegin p # ops) s = spec_run ops (snd (spec_begin p s))"
| "spec_run (OpComplete t # ops) s = spec_run ops (spec_complete (unat t) s)"

lemma begun_complete [simp]: "begun (spec_complete k s) = begun s"
  by (simp add: spec_complete_def)

lemma refines_run:
  "refines w s \<Longrightarrow> length (begun s) + length ops < 2 ^ 64 \<Longrightarrow> refines (wm_run ops w) (spec_run ops s)"
proof (induction ops w arbitrary: s rule: wm_run.induct)
  case (2 p ops w)
  have "refines (snd (wm_begin p w)) (snd (spec_begin p s))"
    using refines_begin [OF 2(2)] 2(3) by simp
  from 2(1) [OF this] 2(3) show ?case by (simp add: spec_begin_def)
next
  case (3 t ops w)
  from 3(1) [OF refines_complete [OF 3(2)]] 3(3) show ?case by simp
qed simp

section \<open>Properties\<close>

text \<open>
  Property C8. Refinement: after any interleaving of begins and completions, unknown and
  repeated tickets included, the queue's watermark is the last event of the longest prefix, in
  read order, of events that have all finished; as many events are in flight as were begun
  after it.
\<close>

theorem watermark_is_finished_prefix:
  assumes "length ops < 2 ^ 64"
  shows "wm_applied (wm_run ops wm_default) = spec_applied (spec_run ops \<lparr>begun = [], finished = {}\<rparr>) \<and>
    wm_in_flight (wm_run ops wm_default) =
      length (begun (spec_run ops \<lparr>begun = [], finished = {}\<rparr>)) -
      retired (spec_run ops \<lparr>begun = [], finished = {}\<rparr>)"
  using refines_run [OF refines_default, of ops] assms by (simp add: refines_def wm_in_flight_def)

theorem watermark_is_finished_prefix_witness:
  "wm_applied (wm_run [OpBegin (PointV1 1), OpBegin (PointV1 2), OpBegin (PointV1 3), OpComplete 1, OpComplete 0]
     wm_default) = Some (PointV1 2) \<and>
   spec_applied (spec_run [OpBegin (PointV1 1), OpBegin (PointV1 2), OpBegin (PointV1 3), OpComplete 1, OpComplete 0]
     \<lparr>begun = [], finished = {}\<rparr>) = Some (PointV1 2)"
  (is "wm_applied (wm_run ?ops _) = _ \<and> _")
proof -
  have "wm_applied (wm_run ?ops wm_default) = Some (PointV1 2)"
    by (simp add: wm_default_def wm_begin_def wm_complete_def)
  moreover have "length ?ops < 2 ^ 64" by simp
  ultimately show ?thesis using watermark_is_finished_prefix [of ?ops] by simp
qed

text \<open>
  The watermark never skips an unfinished event: every event at or before the
  position it reports has finished, and a ticket reported as retired has finished.
\<close>

theorem watermark_never_skips:
  assumes "refines w s" and "k < length (begun s)" and "k \<notin> finished s"
  shows "\<not> wm_has_retired (of_nat k) w \<and> wm_applied_if_retired (of_nat k) w = None"
proof -
  have "retired s \<le> k" using assms(3) retired_finished not_less by blast
  moreover have "unat (of_nat k :: 64 word) = k"
    using assms by (simp add: refines_def unat_of_nat take_bit_nat_eq_self)
  ultimately have "\<not> (of_nat k :: 64 word) < wm_front w"
    using assms(1) by (simp add: refines_def word_less_nat_alt)
  then show ?thesis by (simp add: wm_has_retired_def wm_applied_if_retired_def)
qed

theorem watermark_never_skips_witness:
  "wm_applied_if_retired (of_nat 0) (wm_run [OpBegin (PointV1 1), OpBegin (PointV1 2), OpComplete 1] wm_default) = None"
proof -
  let ?ops = "[OpBegin (PointV1 1), OpBegin (PointV1 2), OpComplete 1]"
  let ?s = "spec_run ?ops \<lparr>begun = [], finished = {}\<rparr>"
  have "refines (wm_run ?ops wm_default) ?s" by (rule refines_run [OF refines_default]) simp
  moreover have "0 < length (begun ?s)" "0 \<notin> finished ?s"
    by (simp_all add: spec_begin_def spec_complete_def)
  ultimately show ?thesis using watermark_never_skips by blast
qed

end
