(* ===== verification/Stream_Cursor.thy ===== *)
theory Stream_Cursor
  imports Watermark Decimal
begin

text \<open>
  The persisted stream position (crates/happyview-source-jetstream/src/consumer/cursor.rs). The
  settings table is a map from a key to its value and its \<open>updated_at\<close>. Reading a timestamp is
  the crate \<open>chrono\<close>: the argument \<open>parse_ts\<close> gives the instant of a text, \<open>None\<close> when it is
  not RFC 3339. \<open>up\<close> says whether the database answers: the query of \<open>load\<close> then
  gives its rows, and the transaction of \<open>save\<close> commits; otherwise both are errors
  and the table is as it was.
\<close>

type_synonym settings = "string \<rightharpoonup> string \<times> string"

datatype Protocol = ProtocolV2 | ProtocolV1

definition SEQ_KEY :: string where
  "SEQ_KEY = ''jetstream_seq''"

definition TIME_KEY :: string where
  "TIME_KEY = ''jetstream_cursor''"

definition HOST_KEY :: string where
  "HOST_KEY = ''jetstream_host''"

definition HOST_CHANGE_REWIND_US :: int where
  "HOST_CHANGE_REWIND_US = 5000000"

definition TIMESTAMP_CURSOR_MIN :: int where
  "TIMESTAMP_CURSOR_MIN = 1000000000000000"

record StoredCursor =
  stored_seq :: "int option"
  stored_time_us :: "int option"
  stored_host :: "string option"

definition saved_at :: "(string \<Rightarrow> int option) \<Rightarrow> string \<Rightarrow> int option" where
  "saved_at parse_ts updated_at = parse_ts updated_at"

definition keep :: "('a \<Rightarrow> bool) \<Rightarrow> 'a option \<Rightarrow> 'a option" where
  "keep P x = (case x of Some v \<Rightarrow> if P v then Some v else None | None \<Rightarrow> None)"

definition cursor_load :: "bool \<Rightarrow> (string \<Rightarrow> int option) \<Rightarrow> settings \<Rightarrow> StoredCursor option" where
  "cursor_load up parse_ts db =
     (if \<not> up then None else let seq = Option.bind (db SEQ_KEY) (\<lambda>(v, _). parse_i64 v);
          seq_saved = Option.bind (db SEQ_KEY) (\<lambda>(_, at). saved_at parse_ts at);
          time_us = Option.bind (db TIME_KEY)
            (\<lambda>(v, _). keep (\<lambda>t. t \<ge> TIMESTAMP_CURSOR_MIN) (parse_i64 v));
          time_saved = Option.bind (db TIME_KEY) (\<lambda>(_, at). saved_at parse_ts at);
          host = Option.bind (db HOST_KEY) (\<lambda>(v, _). keep (\<lambda>h. h \<noteq> []) (Some v));
          newer_time = (case (seq, time_us, seq_saved, time_saved) of
              (Some _, Some _, Some s, Some t) \<Rightarrow> t > s
            | _ \<Rightarrow> False)
      in Some \<lparr>stored_seq = (if newer_time then None else seq), stored_time_us = time_us, stored_host = host\<rparr>)"

definition cursor_save :: "bool \<Rightarrow> string \<Rightarrow> string \<Rightarrow> CursorPoint \<Rightarrow> settings \<Rightarrow> bool \<times> settings" where
  "cursor_save up now host point db =
     (if \<not> up then (False, db)
      else let db1 = (case point_seq point of None \<Rightarrow> db(SEQ_KEY := None) | Some _ \<Rightarrow> db);
               db2 = db1(HOST_KEY \<mapsto> (host, now), TIME_KEY \<mapsto> (show_int (point_time_us point), now));
               db3 = (case point_seq point of
                        Some seq \<Rightarrow> db2(SEQ_KEY \<mapsto> (show_int seq, now))
                      | None \<Rightarrow> db2)
           in (True, db3))"

definition resume_cursor :: "StoredCursor \<Rightarrow> string \<Rightarrow> Protocol \<Rightarrow> int option" where
  "resume_cursor stored host protocol =
     (let same_host = (case stored_host stored of None \<Rightarrow> True | Some h \<Rightarrow> h = host) in
      if \<not> same_host then map_option (\<lambda>t. t - HOST_CHANGE_REWIND_US) (stored_time_us stored)
      else (case protocol of
              ProtocolV2 \<Rightarrow> (case stored_seq stored of Some s \<Rightarrow> Some s | None \<Rightarrow> stored_time_us stored)
            | ProtocolV1 \<Rightarrow> stored_time_us stored))"

section \<open>Facts\<close>

lemma keys_differ [simp]: "SEQ_KEY \<noteq> TIME_KEY" "SEQ_KEY \<noteq> HOST_KEY" "TIME_KEY \<noteq> HOST_KEY"
  "TIME_KEY \<noteq> SEQ_KEY" "HOST_KEY \<noteq> SEQ_KEY" "HOST_KEY \<noteq> TIME_KEY"
  by (simp_all add: SEQ_KEY_def TIME_KEY_def HOST_KEY_def)

definition point_ok :: "CursorPoint \<Rightarrow> bool" where
  "point_ok p \<longleftrightarrow> in_i64 (point_time_us p) \<and> TIMESTAMP_CURSOR_MIN \<le> point_time_us p \<and>
     (case point_seq p of Some s \<Rightarrow> in_i64 s | None \<Rightarrow> True)"

lemma load_saved:
  assumes "point_ok p" and "host \<noteq> []"
  shows "cursor_load True parse_ts (snd (cursor_save True now host p db)) =
    Some \<lparr>stored_seq = point_seq p, stored_time_us = Some (point_time_us p), stored_host = Some host\<rparr>"
  using assms
  by (auto simp: cursor_load_def cursor_save_def point_ok_def keep_def parse_show_i64 Let_def
      split: option.splits)

definition demo_point :: CursorPoint where
  "demo_point = PointV2 42 1700000000000000"

lemma demo_point_ok: "point_ok demo_point"
  by (simp add: demo_point_def point_ok_def point_seq_def point_time_us_def in_i64_def TIMESTAMP_CURSOR_MIN_def)

lemma resume_same_host:
  assumes "point_ok p" and "host \<noteq> []"
  shows "map_option (\<lambda>c. resume_cursor c host ProtocolV2) (cursor_load True parse_ts (snd (cursor_save True now host p db))) =
      Some (Some (case p of PointV2 s _ \<Rightarrow> s | PointV1 u \<Rightarrow> u))" and "map_option (\<lambda>c. resume_cursor c host ProtocolV1) (cursor_load True parse_ts (snd (cursor_save True now host p db))) = Some (Some (point_time_us p))"
  using assms by (cases p; simp add: load_saved resume_cursor_def point_seq_def point_time_us_def)+

lemma resume_other_host:
  assumes "point_ok p" and "host \<noteq> []" and "other \<noteq> host"
  shows "map_option (\<lambda>c. resume_cursor c other protocol) (cursor_load True parse_ts (snd (cursor_save True now host p db))) = Some (Some (point_time_us p - 5000000))"
  using assms by (auto simp: load_saved resume_cursor_def HOST_CHANGE_REWIND_US_def)

lemma resume_rollback:
  assumes "point_ok p" and "host \<noteq> []" and "in_i64 t" and "TIMESTAMP_CURSOR_MIN \<le> t"
    and "parse_ts now = Some a" and "parse_ts later = Some b" and "a < b"
  shows "map_option (\<lambda>c. resume_cursor c host protocol)
      (cursor_load True parse_ts ((snd (cursor_save True now host p db))(TIME_KEY \<mapsto> (show_int t, later)))) =
      Some (Some t)"
  using assms by (cases protocol; cases p)
    (auto simp: cursor_load_def cursor_save_def resume_cursor_def point_ok_def keep_def parse_show_i64
      saved_at_def point_seq_def point_time_us_def Let_def)

section \<open>Properties\<close>

text \<open>
  A saved position is read back exactly, whatever the settings held before: the seq
  (or none, with an older one dropped), the time and the host. A save that fails changes nothing.
\<close>

theorem cursor_roundtrip:
  assumes "point_ok p" and "host \<noteq> []"
  shows "cursor_load True parse_ts (snd (cursor_save True now host p db)) =
      Some \<lparr>stored_seq = point_seq p, stored_time_us = Some (point_time_us p), stored_host = Some host\<rparr>
    \<and> snd (cursor_save False now host p db) = db"
  using load_saved [OF assms] by (simp add: cursor_save_def)

theorem cursor_roundtrip_witness:
  "cursor_load True (\<lambda>_. None) (snd (cursor_save True ''now'' ''jet.example'' demo_point Map.empty)) =
     Some \<lparr>stored_seq = Some 42, stored_time_us = Some 1700000000000000, stored_host = Some ''jet.example''\<rparr>"
  using cursor_roundtrip [OF demo_point_ok, of "''jet.example''"]
  by (simp add: demo_point_def point_seq_def point_time_us_def)

text \<open>
  Where a resume starts, by what happened since the save. On the same host it is the
  seq on v2, or the time when the point has none or on v1. On another host it is five seconds
  before the saved time, never the seq. When a binary that knows only the time saved a time
  later, a resume on the same host is from that time and not from the stale seq.
\<close>

theorem resume_after_save:
  assumes "point_ok p" and "host \<noteq> []" and "other \<noteq> host"
    and "in_i64 t" and "TIMESTAMP_CURSOR_MIN \<le> t"
    and "parse_ts now = Some a" and "parse_ts later = Some b" and "a < b"
  shows "map_option (\<lambda>c. resume_cursor c host ProtocolV2) (cursor_load True parse_ts (snd (cursor_save True now host p db))) =
      Some (Some (case p of PointV2 s _ \<Rightarrow> s | PointV1 u \<Rightarrow> u))
    \<and> map_option (\<lambda>c. resume_cursor c host ProtocolV1) (cursor_load True parse_ts (snd (cursor_save True now host p db))) = Some (Some (point_time_us p))
    \<and> map_option (\<lambda>c. resume_cursor c other protocol) (cursor_load True parse_ts (snd (cursor_save True now host p db))) = Some (Some (point_time_us p - 5000000))
    \<and> map_option (\<lambda>c. resume_cursor c host protocol)
      (cursor_load True parse_ts ((snd (cursor_save True now host p db))(TIME_KEY \<mapsto> (show_int t, later)))) =
      Some (Some t)"
  by (rule conjI [OF resume_same_host(1) [OF assms(1,2)] conjI [OF resume_same_host(2) [OF assms(1,2)]
      conjI [OF resume_other_host [OF assms(1-3)] resume_rollback [OF assms(1,2,4-8)]]]])

theorem resume_after_save_witness:
  "map_option (\<lambda>c. resume_cursor c ''jet.example'' ProtocolV2)
      (cursor_load True (\<lambda>s. Some (int (length s)))
        ((snd (cursor_save True ''x'' ''jet.example'' demo_point Map.empty))
          (TIME_KEY \<mapsto> (show_int 1800000000000000, ''xx'')))) = Some (Some 1800000000000000)"
proof -
  have "in_i64 1800000000000000" "TIMESTAMP_CURSOR_MIN \<le> 1800000000000000"
    by (simp_all add: in_i64_def TIMESTAMP_CURSOR_MIN_def)
  from resume_after_save [OF demo_point_ok _ _ this, of "''jet.example''" "''b''"
      "\<lambda>s. Some (int (length s))" "''x''" 1 "''xx''" 2 Map.empty ProtocolV2]
  show ?thesis by simp
qed

end
