(* ===== verification/Retry.thy ===== *)
theory Retry
  imports Prelude "HOL-Library.Word" "HOL-Library.Multiset"
begin

text \<open>
  Retries of the backfill (crates/happyview-source-jetstream/src/backfill/retry.rs): the
  exponential backoff, the cooldown of each host and the queue of deferred work. An \<open>Instant\<close> and
  a \<open>Duration\<close> are numbers of nanoseconds; failure counts are \<open>u32\<close> words and saturate. A sleep
  lasts its duration and a further \<open>lag\<close>, which the runtime chooses.
\<close>

section \<open>Backoff\<close>

definition BASE_BACKOFF :: nat where
  "BASE_BACKOFF = 500000000"

definition MAX_BACKOFF :: nat where
  "MAX_BACKOFF = 120000000000"

definition SATURATED_CONSECUTIVE_FAILURES :: "32 word" where
  "SATURATED_CONSECUTIVE_FAILURES = 5"

definition duration_checked_mul :: "nat \<Rightarrow> 32 word \<Rightarrow> nat option" where
  "duration_checked_mul d k =
     (let r = d * unat k in if r div 1000000000 < 2 ^ 64 then Some r else None)"

definition backoff_delay :: "32 word \<Rightarrow> nat" where
  "backoff_delay consecutive_failures =
     (if consecutive_failures = 0 then 0
      else let shift = min (unat consecutive_failures - 1) 20 in
        min (case duration_checked_mul BASE_BACKOFF (push_bit shift 1) of
               Some d \<Rightarrow> d | None \<Rightarrow> MAX_BACKOFF)
          MAX_BACKOFF)"

section \<open>Cooldowns\<close>

record Cooldown =
  next_eligible_at :: nat
  cd_failures :: "32 word"

type_synonym HostCooldowns = "string \<rightharpoonup> Cooldown"

definition cooldowns_new :: HostCooldowns where
  "cooldowns_new = Map.empty"

definition eligible_at :: "HostCooldowns \<Rightarrow> string \<Rightarrow> nat option" where
  "eligible_at cds host = map_option next_eligible_at (cds host)"

definition consecutive_failures :: "HostCooldowns \<Rightarrow> string \<Rightarrow> 32 word" where
  "consecutive_failures cds host = (case cds host of Some c \<Rightarrow> cd_failures c | None \<Rightarrow> 0)"

definition is_saturated :: "HostCooldowns \<Rightarrow> string \<Rightarrow> bool" where
  "is_saturated cds host \<longleftrightarrow> consecutive_failures cds host \<ge> SATURATED_CONSECUTIVE_FAILURES"

definition u32_saturating_inc :: "32 word \<Rightarrow> 32 word" where
  "u32_saturating_inc w = (if w = - 1 then w else w + 1)"

definition record_failure :: "string \<Rightarrow> nat option \<Rightarrow> nat \<Rightarrow> HostCooldowns \<Rightarrow> HostCooldowns" where
  "record_failure host retry_after now cds =
     (let entry = (case cds host of Some c \<Rightarrow> c | None \<Rightarrow> \<lparr>next_eligible_at = now, cd_failures = 0\<rparr>);
          n = u32_saturating_inc (cd_failures entry);
          delay = (case retry_after of Some d \<Rightarrow> min d MAX_BACKOFF | None \<Rightarrow> backoff_delay n)
      in cds(host \<mapsto> \<lparr>next_eligible_at = now + delay, cd_failures = n\<rparr>))"

definition record_success :: "string \<Rightarrow> HostCooldowns \<Rightarrow> HostCooldowns" where
  "record_success host cds = cds(host := None)"

section \<open>The deferred queue\<close>

record 'a DeferredItem =
  payload :: 'a
  item_host :: string
  item_attempts :: "32 word"
  item_eligible_at :: nat

datatype 'a PopResult = Ready "'a DeferredItem" | WaitUntil nat | EmptyQueue

type_synonym 'a DeferredQueue = "'a DeferredItem list"

definition queue_push :: "'a DeferredItem \<Rightarrow> 'a DeferredQueue \<Rightarrow> 'a DeferredQueue" where
  "queue_push item q = q @ [item]"

fun drain_loop :: "string \<Rightarrow> 'a DeferredItem list \<Rightarrow> 'a DeferredItem list \<Rightarrow> 'a DeferredItem list
    \<Rightarrow> 'a DeferredItem list \<times> 'a DeferredQueue" where
  "drain_loop host [] taken kept = (taken, kept)"
| "drain_loop host (item # rest) taken kept =
     (if item_host item = host then drain_loop host rest (taken @ [item]) kept
      else drain_loop host rest taken (kept @ [item]))"

definition drain_host :: "string \<Rightarrow> 'a DeferredQueue \<Rightarrow> 'a DeferredItem list \<times> 'a DeferredQueue" where
  "drain_host host q = drain_loop host q [] []"

definition item_gate :: "HostCooldowns \<Rightarrow> 'a DeferredItem \<Rightarrow> nat" where
  "item_gate cds item =
     (case eligible_at cds (item_host item) of
        Some h \<Rightarrow> max h (item_eligible_at item)
      | None \<Rightarrow> item_eligible_at item)"

definition remove_at :: "nat \<Rightarrow> 'a list \<Rightarrow> 'a list" where
  "remove_at i xs = take i xs @ drop (Suc i) xs"

function pop_loop :: "HostCooldowns \<Rightarrow> nat \<Rightarrow> 'a DeferredQueue \<Rightarrow> nat \<Rightarrow> nat option
    \<Rightarrow> 'a PopResult \<times> 'a DeferredQueue" where
  "pop_loop cds now q idx earliest =
     (if idx < length q then
        (let gate = item_gate cds (q ! idx) in
         if gate \<le> now then (Ready (q ! idx), remove_at idx q)
         else pop_loop cds now q (Suc idx)
           (Some (case earliest of Some e \<Rightarrow> min e gate | None \<Rightarrow> gate)))
      else ((case earliest of Some at \<Rightarrow> WaitUntil at | None \<Rightarrow> EmptyQueue), q))"
  by pat_completeness auto
termination
  by (relation "measure (\<lambda>(_, _, q, idx, _). length q - idx)") auto

declare pop_loop.simps [simp del]

definition pop_eligible :: "HostCooldowns \<Rightarrow> nat \<Rightarrow> 'a DeferredQueue \<Rightarrow> 'a PopResult \<times> 'a DeferredQueue" where
  "pop_eligible cds now q = pop_loop cds now q 0 None"

datatype 'a DrainStep = RetryItem "'a DeferredItem" | Slept | DrainDone

definition next_drain_step :: "HostCooldowns \<Rightarrow> nat \<Rightarrow> nat \<Rightarrow> nat \<Rightarrow> 'a DeferredQueue
    \<Rightarrow> 'a DrainStep \<times> nat \<times> 'a DeferredQueue" where
  "next_drain_step cds max_slice lag now q =
     (case pop_eligible cds now q of
        (EmptyQueue, q') \<Rightarrow> (DrainDone, now, q')
      | (Ready item, q') \<Rightarrow> (RetryItem item, now, q')
      | (WaitUntil at, q') \<Rightarrow> (Slept, now + min (at - now) max_slice + lag, q'))"

text \<open>The caller's loop up to the first step that is not \<open>Slept\<close>.\<close>

fun drain_turns :: "nat \<Rightarrow> HostCooldowns \<Rightarrow> nat \<Rightarrow> (nat \<Rightarrow> nat) \<Rightarrow> nat \<Rightarrow> 'a DeferredQueue
    \<Rightarrow> ('a DrainStep \<times> nat \<times> 'a DeferredQueue) option" where
  "drain_turns 0 cds max_slice lag now q = None"
| "drain_turns (Suc n) cds max_slice lag now q =
     (case next_drain_step cds max_slice (lag n) now q of
        (Slept, now', q') \<Rightarrow> drain_turns n cds max_slice lag now' q'
      | r \<Rightarrow> Some r)"

section \<open>Backoff: facts\<close>

lemma checked_mul_base:
  assumes "s \<le> 20"
  shows "duration_checked_mul BASE_BACKOFF (push_bit s 1) = Some (BASE_BACKOFF * 2 ^ s)"
proof -
  have le: "(2::nat) ^ s \<le> 2 ^ 20" using assms by (intro power_increasing) auto
  have "push_bit s (1 :: 32 word) = of_nat (2 ^ s)" by (simp add: push_bit_eq_mult)
  then have u: "unat (push_bit s (1 :: 32 word)) = 2 ^ s"
    using assms by (simp only: unsigned_of_nat) (simp add: take_bit_nat_eq_self)
  have "BASE_BACKOFF * 2 ^ s \<le> BASE_BACKOFF * 2 ^ 20" using le by simp
  then have "BASE_BACKOFF * 2 ^ s div 1000000000 \<le> BASE_BACKOFF * 2 ^ 20 div 1000000000" by (rule div_le_mono)
  also have "\<dots> < 2 ^ 64" by (simp add: BASE_BACKOFF_def)
  finally show ?thesis unfolding duration_checked_mul_def u by (simp add: Let_def)
qed

lemma clamp_harmless: "min (BASE_BACKOFF * 2 ^ min n 20) MAX_BACKOFF = min (BASE_BACKOFF * 2 ^ n) MAX_BACKOFF"
proof (cases "n \<le> 20")
  case False
  then have "(2::nat) ^ 20 \<le> 2 ^ n" by (intro power_increasing) auto
  moreover from False have "min n 20 = 20" by simp
  ultimately show ?thesis by (simp add: BASE_BACKOFF_def MAX_BACKOFF_def)
qed (simp add: min_absorb1)

lemma backoff_closed:
  "backoff_delay w = (if w = 0 then 0 else min (BASE_BACKOFF * 2 ^ (unat w - 1)) MAX_BACKOFF)"
  by (simp add: backoff_delay_def checked_mul_base [simplified] clamp_harmless [simplified] Let_def)

lemma backoff_le: "backoff_delay w \<le> MAX_BACKOFF"
  by (simp add: backoff_closed)

section \<open>Cooldowns: the history they summarise\<close>

datatype host_event = Failed string "nat option" nat | Answered string

fun cooldown_step :: "HostCooldowns \<Rightarrow> host_event \<Rightarrow> HostCooldowns" where
  "cooldown_step cds (Failed host retry_after now) = record_failure host retry_after now cds"
| "cooldown_step cds (Answered host) = record_success host cds"

definition cooldown_run :: "host_event list \<Rightarrow> HostCooldowns" where
  "cooldown_run es = foldl cooldown_step cooldowns_new es"

fun failures_in :: "string \<Rightarrow> nat \<Rightarrow> host_event list \<Rightarrow> nat" where
  "failures_in host n [] = n"
| "failures_in host n (Failed h _ _ # es) = failures_in host (if h = host then Suc n else n) es"
| "failures_in host n (Answered h # es) = failures_in host (if h = host then 0 else n) es"

definition failure_streak :: "string \<Rightarrow> host_event list \<Rightarrow> nat" where
  "failure_streak host es = failures_in host 0 es"

lemma failures_in_append: "failures_in host n (es @ fs) = failures_in host (failures_in host n es) fs"
proof (induction es arbitrary: n)
  case (Cons e es)
  then show ?case by (cases e) auto
qed simp

lemma failure_streak_snoc:
  "failure_streak host (es @ [Failed h r t]) = (if h = host then Suc (failure_streak host es) else failure_streak host es)"
  "failure_streak host (es @ [Answered h]) = (if h = host then 0 else failure_streak host es)"
  by (simp_all add: failure_streak_def failures_in_append)

lemma unat_max_u32: "unat (- 1 :: 32 word) = 2 ^ 32 - 1"
  by (simp add: unsigned_minus_1_eq_mask mask_eq_exp_minus_1)

lemma unat_saturating_inc: "unat (u32_saturating_inc w) = min (Suc (unat w)) (2 ^ 32 - 1)"
proof (cases "w = - 1")
  case True
  then show ?thesis by (simp add: u32_saturating_inc_def unat_max_u32 del: unsigned_minus_1_eq_mask)
next
  case False
  then have "unat w \<noteq> unat (- 1 :: 32 word)" by (simp only: word_unat_eq_iff) simp
  then have "Suc (unat w) < 2 ^ 32"
    using unsigned_less [of w, where 'a = nat] unfolding unat_max_u32 by simp
  with False show ?thesis by (simp add: u32_saturating_inc_def unat_word_ariths)
qed

lemma cooldown_run_snoc: "cooldown_run (es @ [e]) = cooldown_step (cooldown_run es) e"
  by (simp add: cooldown_run_def)

lemma consecutive_failures_step [simp]:
  "consecutive_failures (record_failure h r t cds) host =
     (if h = host then u32_saturating_inc (consecutive_failures cds host) else consecutive_failures cds host)"
  "consecutive_failures (record_success h cds) host = (if h = host then 0 else consecutive_failures cds host)"
  by (auto simp: consecutive_failures_def record_failure_def record_success_def Let_def split: option.splits)

lemma consecutive_failures_streak:
  "unat (consecutive_failures (cooldown_run es) host) = min (failure_streak host es) (2 ^ 32 - 1)"
proof (induction es rule: rev_induct)
  case Nil
  then show ?case
    by (simp add: cooldown_run_def cooldowns_new_def consecutive_failures_def failure_streak_def)
next
  case (snoc e es)
  then show ?case
    by (cases e) (auto simp: cooldown_run_snoc failure_streak_snoc unat_saturating_inc)
qed

lemma is_saturated_iff: "is_saturated (cooldown_run es) host \<longleftrightarrow> 5 \<le> failure_streak host es"
  using consecutive_failures_streak [of es host]
  by (simp add: is_saturated_def SATURATED_CONSECUTIVE_FAILURES_def word_le_nat_alt)

lemma no_gate_iff: "eligible_at (cooldown_run es) host = None \<longleftrightarrow> failure_streak host es = 0"
proof (induction es rule: rev_induct)
  case Nil
  then show ?case by (simp add: cooldown_run_def cooldowns_new_def eligible_at_def failure_streak_def)
next
  case (snoc e es)
  then show ?case
    by (cases e) (auto simp: cooldown_run_snoc failure_streak_snoc eligible_at_def record_failure_def
        record_success_def Let_def)
qed

lemma failure_gate:
  "\<exists>at. eligible_at (record_failure host r now cds) host = Some at \<and> now \<le> at \<and> at \<le> now + MAX_BACKOFF"
  using backoff_le by (auto simp: eligible_at_def record_failure_def Let_def split: option.splits)

section \<open>The queue: facts\<close>

lemma drain_loop_eq:
  "drain_loop host q taken kept =
     (taken @ filter (\<lambda>i. item_host i = host) q, kept @ filter (\<lambda>i. item_host i \<noteq> host) q)"
  by (induction q arbitrary: taken kept) auto

lemma drain_host_eq:
  "drain_host host q = (filter (\<lambda>i. item_host i = host) q, filter (\<lambda>i. item_host i \<noteq> host) q)"
  by (simp add: drain_host_def drain_loop_eq)

definition earliest_of :: "nat list \<Rightarrow> nat option" where
  "earliest_of gs = (if gs = [] then None else Some (Min (set gs)))"

lemma earliest_of_snoc:
  "earliest_of (gs @ [g]) = Some (case earliest_of gs of Some e \<Rightarrow> min e g | None \<Rightarrow> g)"
  by (auto simp: earliest_of_def min.commute)

text \<open>The first ready item with what is before and after it; otherwise the earliest gate.\<close>

definition pop_spec :: "HostCooldowns \<Rightarrow> nat \<Rightarrow> 'a DeferredQueue \<Rightarrow> 'a PopResult \<times> 'a DeferredQueue" where
  "pop_spec cds now q =
     (let waiting = takeWhile (\<lambda>i. now < item_gate cds i) q in
      case dropWhile (\<lambda>i. now < item_gate cds i) q of
        item # rest \<Rightarrow> (Ready item, waiting @ rest)
      | [] \<Rightarrow> ((if q = [] then EmptyQueue else WaitUntil (Min (item_gate cds ` set q))), q))"

lemma pop_loop_spec:
  assumes "\<forall>i \<in> set pre. now < item_gate cds i"
  shows "pop_loop cds now (pre @ post) (length pre) (earliest_of (map (item_gate cds) pre)) =
    pop_spec cds now (pre @ post)"
  using assms
proof (induction post arbitrary: pre)
  case Nil
  then have e: "dropWhile (\<lambda>i. now < item_gate cds i) pre = []" by simp
  show ?case
    by (subst pop_loop.simps) (simp add: pop_spec_def earliest_of_def e)
next
  case (Cons x post)
  show ?case
  proof (cases "item_gate cds x \<le> now")
    case True
    with Cons.prems show ?thesis
      by (subst pop_loop.simps) (simp add: pop_spec_def remove_at_def Let_def not_less)
  next
    case False
    with Cons.prems Cons.IH [of "pre @ [x]"] show ?thesis
      by (subst pop_loop.simps) (simp add: earliest_of_snoc Let_def)
  qed
qed

lemma pop_eligible_spec: "pop_eligible cds now q = pop_spec cds now q"
  using pop_loop_spec [of "[]" now cds q] by (simp add: pop_eligible_def earliest_of_def)

lemma pop_ready:
  assumes "pop_eligible cds now q = (Ready item, q')"
  shows "item_gate cds item \<le> now" and "mset q = add_mset item (mset q')"
proof -
  let ?P = "\<lambda>i. now < item_gate cds i"
  from assms obtain d: "dropWhile ?P q = item # drop (length (takeWhile ?P q)) q'"
    and q': "q' = takeWhile ?P q @ drop (length (takeWhile ?P q)) q'"
    unfolding pop_eligible_spec pop_spec_def Let_def by (auto split: list.splits if_splits)
  from hd_dropWhile [of ?P q] d show "item_gate cds item \<le> now" by simp
  have "mset q = mset (takeWhile ?P q @ dropWhile ?P q)" by simp
  also have "\<dots> = add_mset item (mset q')" unfolding d by (subst q') simp
  finally show "mset q = add_mset item (mset q')" .
qed

lemma pop_wait:
  assumes "pop_eligible cds now q = (WaitUntil at, q')"
  shows "q' = q" and "at = Min (item_gate cds ` set q)" and "now < at" and "q \<noteq> []"
proof -
  from assms have e: "q' = q" "at = Min (item_gate cds ` set q)" "q \<noteq> []"
    "dropWhile (\<lambda>i. now < item_gate cds i) q = []"
    unfolding pop_eligible_spec pop_spec_def Let_def by (auto split: list.splits if_splits)
  then show "q' = q" "at = Min (item_gate cds ` set q)" "q \<noteq> []" by blast+
  from e show "now < at" by simp
qed

lemma pop_empty: "fst (pop_eligible cds now q) = EmptyQueue \<longleftrightarrow> q = []"
  by (auto simp: pop_eligible_spec pop_spec_def Let_def split: list.splits)

lemma drain_turns_retry:
  assumes "q \<noteq> []" and "0 < max_slice" and "Min (item_gate cds ` set q) \<le> now + k"
  shows "\<exists>item now' q'. drain_turns (Suc k) cds max_slice lag now q = Some (RetryItem item, now', q') \<and>
    mset q = add_mset item (mset q') \<and> item_gate cds item \<le> now'"
  using assms(3)
proof (induction k arbitrary: now)
  case (0 now)
  obtain r q' where p: "pop_eligible cds now q = (r, q')" by force
  show ?case
  proof (cases r)
    case (Ready item)
    with p pop_ready [of cds now q item q'] show ?thesis by (simp add: next_drain_step_def)
  next
    case (WaitUntil at)
    with p have "at = Min (item_gate cds ` set q)" "now < at" by (blast dest: pop_wait)+
    with 0 show ?thesis by linarith
  next
    case EmptyQueue
    with p pop_empty [of cds now q] assms(1) show ?thesis by simp
  qed
next
  case (Suc k now)
  obtain r q' where p: "pop_eligible cds now q = (r, q')" by force
  show ?case
  proof (cases r)
    case (Ready item)
    with p pop_ready [of cds now q item q'] show ?thesis by (simp add: next_drain_step_def)
  next
    case (WaitUntil at)
    let ?t = "now + min (at - now) max_slice + lag (Suc k)"
    from WaitUntil p pop_wait [of cds now q at q'] have e: "q' = q" "now < at" by simp_all
    with assms(2) have "now + 1 \<le> ?t" by simp
    with Suc.prems have "Min (item_gate cds ` set q) \<le> ?t + k" by simp
    from Suc.IH [OF this] p WaitUntil e show ?thesis by (simp add: next_drain_step_def)
  next
    case EmptyQueue
    with p pop_empty [of cds now q] assms(1) show ?thesis by simp
  qed
qed

section \<open>Properties\<close>

definition demo_item :: "string \<Rightarrow> nat \<Rightarrow> unit DeferredItem" where
  "demo_item host t = \<lparr>payload = (), item_host = host, item_attempts = 1, item_eligible_at = t\<rparr>"

text \<open>
  The backoff is half a second doubled with each further failure, up to two minutes,
  for every \<open>u32\<close> count: the bound of 20 on the shift and the checked multiplication never
  change the result. It never decreases as failures go on.
\<close>

theorem backoff_delay_bounds:
  "backoff_delay w = (if w = 0 then 0 else min (500000000 * 2 ^ (unat w - 1)) 120000000000) \<and>
   backoff_delay v \<le> backoff_delay (max v w)"
proof
  show "backoff_delay w = (if w = 0 then 0 else min (500000000 * 2 ^ (unat w - 1)) 120000000000)"
    using backoff_closed [of w] by (simp add: BASE_BACKOFF_def MAX_BACKOFF_def)
  have "backoff_delay v \<le> backoff_delay w" if "v \<le> w"
  proof (cases "v = 0")
    case False
    with that have "w \<noteq> 0" by auto
    moreover have "unat v - 1 \<le> unat w - 1" using that by (simp add: word_le_nat_alt diff_le_mono)
    then have "BASE_BACKOFF * 2 ^ (unat v - 1) \<le> BASE_BACKOFF * 2 ^ (unat w - 1)"
      by (intro mult_le_mono2 power_increasing) simp_all
    ultimately show ?thesis using False by (simp only: backoff_closed if_False min.mono order_refl)
  qed (simp add: backoff_closed)
  then show "backoff_delay v \<le> backoff_delay (max v w)" by (cases "v \<le> w") (auto simp: max_def)
qed

text \<open>
  Property C31. The cooldowns summarise the history of each host: the stored count is the number
  of failures since its last success (up to the largest \<open>u32\<close>), the host is given up on exactly
  from the fifth on, and it has no gate exactly when it has not failed since. A failure closes the
  gate for at most two minutes, whatever the \<open>Retry-After\<close> of the server.
\<close>

theorem cooldowns_summarise_history:
  "unat (consecutive_failures (cooldown_run es) host) = min (failure_streak host es) (2 ^ 32 - 1) \<and>
   (is_saturated (cooldown_run es) host \<longleftrightarrow> 5 \<le> failure_streak host es) \<and>
   (eligible_at (cooldown_run es) host = None \<longleftrightarrow> failure_streak host es = 0) \<and>
   (\<exists>at. eligible_at (cooldown_run (es @ [Failed host r now])) host = Some at \<and>
      now \<le> at \<and> at \<le> now + 120000000000)"
  using consecutive_failures_streak is_saturated_iff no_gate_iff failure_gate
  by (simp add: cooldown_run_snoc MAX_BACKOFF_def)

text \<open>
  \<open>pop_eligible\<close> takes the first item, in queue order, whose own time and whose
  host's cooldown have passed, and keeps the others in order; when there is none it leaves the
  queue alone and names the earliest moment one will be ready.
\<close>

theorem pop_eligible_first_ready:
  "pop_eligible cds now q =
     (case dropWhile (\<lambda>i. now < item_gate cds i) q of
        item # rest \<Rightarrow> (Ready item, takeWhile (\<lambda>i. now < item_gate cds i) q @ rest)
      | [] \<Rightarrow> (if q = [] then EmptyQueue else WaitUntil (Min (item_gate cds ` set q)), q))"
  by (simp add: pop_eligible_spec pop_spec_def Let_def)

text \<open>
  Property C17. Draining makes progress: with a positive slice, whatever the extra delay of each
  sleep, a drain of a queue that is not empty reaches a retry after at most one turn more than the
  time units left to the earliest gate, and hands out one of its items, past its gate, with every
  other item still queued.
\<close>

theorem drain_reaches_retry:
  assumes "q \<noteq> []" and "0 < max_slice"
  shows "\<exists>item now' q'.
    drain_turns (Suc (Min (item_gate cds ` set q) - now)) cds max_slice lag now q =
      Some (RetryItem item, now', q') \<and>
    mset q = add_mset item (mset q') \<and> item_gate cds item \<le> now'"
  using drain_turns_retry [OF assms, of cds now "Min (item_gate cds ` set q) - now"] by simp

theorem drain_reaches_retry_witness:
  "\<exists>item now' q'. drain_turns 4 Map.empty 2 (\<lambda>_. 0) 0 [demo_item ''a'' 5, demo_item ''b'' 3] =
      Some (RetryItem item, now', q') \<and>
    mset [demo_item ''a'' 5, demo_item ''b'' 3] = add_mset item (mset q') \<and>
    item_gate Map.empty item \<le> now'"
  using drain_reaches_retry [of "[demo_item ''a'' 5, demo_item ''b'' 3]" 2 Map.empty 0 "\<lambda>_. 0"]
  by (simp add: item_gate_def eligible_at_def demo_item_def eval_nat_numeral del: drain_turns.simps)

text \<open>
  Giving up on a host splits the queue: what is handed to the error recorder is
  exactly the work for that host and what stays is exactly the rest, both in queue order, and
  afterwards nothing for the host is queued.
\<close>

theorem drain_host_splits:
  "drain_host host q = (filter (\<lambda>i. item_host i = host) q, filter (\<lambda>i. item_host i \<noteq> host) q) \<and>
   mset (fst (drain_host host q)) + mset (snd (drain_host host q)) = mset q \<and>
   fst (drain_host host (snd (drain_host host q))) = []"
  by (simp add: drain_host_eq filter_empty_conv)

end
