(* ===== verification/Plugin_Graph.thy ===== *)
theory Plugin_Graph
  imports Prelude
begin

text \<open>
  The dependency graph over installed plugins (src/plugin/graph.rs). The crate \<open>semver\<close> is the
  argument \<open>semver\<close>: \<open>None\<close> when the requirement does not parse, otherwise whether it matches the
  version (\<open>False\<close> when the version does not parse). A \<open>BTreeSet\<close> is its ascending list of
  elements and a \<open>HashMap\<close> or \<open>BTreeMap\<close> a map. Ordering returns \<open>None\<close> where the code panics.
\<close>

section \<open>Data\<close>

record PluginDependency =
  dep_id :: string
  dep_version :: string

record PluginNode =
  node_id :: string
  node_version :: string
  node_dependencies :: "PluginDependency list"

datatype GraphError =
    MissingDependency string string
  | VersionMismatch string string string string
  | Cycle "string list"
  | HasDependents string "string list"
  | InvalidRequirement string string string
  | NamespaceTaken string string
  | LanguageIdTaken string string
  | ExtensionTaken string string

type_synonym semver = "string \<Rightarrow> string \<Rightarrow> bool option"

section \<open>Ordering\<close>

definition btree_insert :: "string \<Rightarrow> string list \<Rightarrow> string list" where
  "btree_insert x xs = (if x \<in> set xs then xs else insort x xs)"

definition node_ids :: "PluginNode list \<Rightarrow> string list" where
  "node_ids nodes = sort (remdups (map node_id nodes))"

definition by_id :: "PluginNode list \<Rightarrow> string \<rightharpoonup> PluginNode" where
  "by_id nodes = map_of (rev (map (\<lambda>n. (node_id n, n)) nodes))"

definition dep_ids :: "PluginNode \<Rightarrow> string list" where
  "dep_ids n = map dep_id (node_dependencies n)"

fun add_edges :: "string list \<Rightarrow> string \<Rightarrow> string list \<Rightarrow> (string \<Rightarrow> nat) \<times> (string \<Rightarrow> string list)
    \<Rightarrow> (string \<Rightarrow> nat) \<times> (string \<Rightarrow> string list)" where
  "add_edges ids n [] s = s"
| "add_edges ids n (d # ds) (deg, dts) =
     add_edges ids n ds
       (if d \<in> set ids then (deg(n := deg n + 1), dts(d := dts d @ [n])) else (deg, dts))"

definition count_edges :: "PluginNode list \<Rightarrow> (string \<Rightarrow> nat) \<times> (string \<Rightarrow> string list)" where
  "count_edges nodes =
     foldl (\<lambda>s n. add_edges (node_ids nodes) (node_id n) (dep_ids n) s) (\<lambda>_. 0, \<lambda>_. []) nodes"

text \<open>The inner loop: one edge less for each dependent; \<open>None\<close> where \<open>*d -= 1\<close> underflows.\<close>

fun release_edges :: "string list \<Rightarrow> (string \<Rightarrow> nat) \<Rightarrow> string list
    \<Rightarrow> ((string \<Rightarrow> nat) \<times> string list) option" where
  "release_edges [] deg ready = Some (deg, ready)"
| "release_edges (x # xs) deg ready =
     (if deg x = 0 then None
      else let d = deg x - 1 in
        release_edges xs (deg(x := d)) (if d = 0 then btree_insert x ready else ready))"

fun order_loop :: "nat \<Rightarrow> (string \<Rightarrow> string list) \<Rightarrow> (string \<Rightarrow> nat) \<Rightarrow> string list \<Rightarrow> string list
    \<Rightarrow> (string list \<times> (string \<Rightarrow> nat)) option" where
  "order_loop 0 dts deg ready order = None"
| "order_loop (Suc fuel) dts deg [] order = Some (order, deg)"
| "order_loop (Suc fuel) dts deg (pid # rest) order =
     (case release_edges (dts pid) deg rest of
        Some (deg', ready') \<Rightarrow> order_loop fuel dts deg' ready' (order @ [pid])
      | None \<Rightarrow> None)"

fun position :: "'a \<Rightarrow> 'a list \<Rightarrow> nat option" where
  "position x [] = None"
| "position x (y # ys) = (if y = x then Some 0 else map_option Suc (position x ys))"

fun walk_cycle :: "nat \<Rightarrow> PluginNode list \<Rightarrow> string list \<Rightarrow> string \<Rightarrow> string list \<Rightarrow> string
    \<Rightarrow> string list option" where
  "walk_cycle 0 nodes remaining start path current = None"
| "walk_cycle (Suc fuel) nodes remaining start path current =
     (case by_id nodes current of
        None \<Rightarrow> None
      | Some node \<Rightarrow>
          let next = (case List.find (\<lambda>d. d \<in> set remaining) (dep_ids node) of
                        Some d \<Rightarrow> d | None \<Rightarrow> start) in
          (case position next path of
             Some pos \<Rightarrow> Some (drop pos path @ [next])
           | None \<Rightarrow> walk_cycle fuel nodes remaining start (path @ [next]) next))"

definition load_order :: "PluginNode list \<Rightarrow> (GraphError + string list) option" where
  "load_order nodes =
     (let ids = node_ids nodes;
          (deg, dts) = count_edges nodes;
          ready = filter (\<lambda>pid. deg pid = 0) ids in
      case order_loop (Suc (length ids)) dts deg ready [] of
        None \<Rightarrow> None
      | Some (order, deg') \<Rightarrow>
          if length order = length nodes then Some (Ok order)
          else (case filter (\<lambda>pid. deg' pid > 0) ids of
                  [] \<Rightarrow> None
                | start # others \<Rightarrow>
                    (case walk_cycle (Suc (length ids)) nodes (start # others) start [start] start of
                       Some cycle \<Rightarrow> Some (Err (Cycle cycle))
                     | None \<Rightarrow> None)))"

section \<open>Installing and removing\<close>

definition check_edge :: "semver \<Rightarrow> PluginNode \<Rightarrow> PluginDependency \<Rightarrow> PluginNode \<Rightarrow> GraphError + unit" where
  "check_edge semver from dep to =
     (case semver (dep_version dep) (node_version to) of
        None \<Rightarrow> Err (InvalidRequirement (node_id from) (dep_id dep) (dep_version dep))
      | Some satisfied \<Rightarrow>
          if satisfied then Ok ()
          else Err (VersionMismatch (node_id from) (dep_id dep) (dep_version dep) (node_version to)))"

fun first_err :: "('e + unit) list \<Rightarrow> 'e + unit" where
  "first_err [] = Ok ()"
| "first_err (r # rs) = (case r of Err e \<Rightarrow> Err e | Ok _ \<Rightarrow> first_err rs)"

definition replace_node :: "PluginNode list \<Rightarrow> PluginNode \<Rightarrow> PluginNode list" where
  "replace_node installed candidate =
     filter (\<lambda>n. node_id n \<noteq> node_id candidate) installed @ [candidate]"

definition validate_install :: "semver \<Rightarrow> PluginNode list \<Rightarrow> PluginNode \<Rightarrow> (GraphError + unit) option" where
  "validate_install semver installed candidate =
     (let nodes = replace_node installed candidate in
      case first_err (map (\<lambda>dep. case by_id nodes (dep_id dep) of
             None \<Rightarrow> Err (MissingDependency (node_id candidate) (dep_id dep))
           | Some target \<Rightarrow> check_edge semver candidate dep target) (node_dependencies candidate)) of
        Err e \<Rightarrow> Some (Err e)
      | Ok _ \<Rightarrow>
          (case first_err (concat (map (\<lambda>node.
                  map (\<lambda>dep. check_edge semver node dep candidate)
                    (filter (\<lambda>d. dep_id d = node_id candidate) (node_dependencies node)))
                (filter (\<lambda>n. node_id n \<noteq> node_id candidate) nodes))) of
             Err e \<Rightarrow> Some (Err e)
           | Ok _ \<Rightarrow> map_option (map_sum (\<lambda>e. e) (\<lambda>_. ())) (load_order nodes)))"

definition direct_dependents :: "PluginNode list \<Rightarrow> string \<Rightarrow> string list" where
  "direct_dependents installed pid =
     sort (map node_id (filter (\<lambda>n. list_ex (\<lambda>d. d = pid) (dep_ids n)) installed))"

definition validate_remove :: "PluginNode list \<Rightarrow> string \<Rightarrow> GraphError + unit" where
  "validate_remove installed pid =
     (let dependents = direct_dependents installed pid in
      if dependents = [] then Ok () else Err (HasDependents pid dependents))"

fun visit :: "string list \<Rightarrow> string list \<times> string list \<Rightarrow> string list \<times> string list" where
  "visit [] (seen, frontier) = (seen, frontier)"
| "visit (d # ds) (seen, frontier) =
     (if d \<in> set seen then visit ds (seen, frontier)
      else visit ds (btree_insert d seen, frontier @ [d]))"

definition unseen :: "PluginNode list \<Rightarrow> string list \<Rightarrow> nat" where
  "unseen installed seen = card (node_id ` set installed - set seen)"

lemma set_btree_insert [simp]: "set (btree_insert x xs) = insert x (set xs)"
  by (auto simp: btree_insert_def set_insort_key)

lemma visit_measure:
  assumes "set ds \<subseteq> node_id ` set installed"
  shows "visit ds (seen, frontier) = (seen', frontier') \<Longrightarrow>
    length frontier' + unseen installed seen' = length frontier + unseen installed seen"
  using assms
proof (induction ds arbitrary: seen frontier)
  case (Cons d ds)
  have u: "unseen installed seen = Suc (unseen installed (btree_insert d seen))" if "d \<notin> set seen"
  proof -
    from that Cons.prems have "d \<in> node_id ` set installed - set seen" by simp
    from card.remove [OF _ this] show ?thesis
      by (simp add: unseen_def Diff_insert [symmetric])
  qed
  from Cons.prems have ds: "set ds \<subseteq> node_id ` set installed" by simp
  show ?case
  proof (cases "d \<in> set seen")
    case True
    with Cons.prems have "visit ds (seen, frontier) = (seen', frontier')" by simp
    from Cons.IH [OF this ds] show ?thesis .
  next
    case False
    with Cons.prems have "visit ds (btree_insert d seen, frontier @ [d]) = (seen', frontier')" by simp
    from Cons.IH [OF this ds] u [OF False] show ?thesis by simp
  qed
qed simp

lemma set_direct_dependents:
  "set (direct_dependents installed pid) = {node_id n |n. n \<in> set installed \<and> pid \<in> set (dep_ids n)}"
  by (auto simp: direct_dependents_def list_ex_iff)

text \<open>\<open>frontier.pop()\<close> takes the last element.\<close>

function dependents_loop :: "PluginNode list \<Rightarrow> string list \<Rightarrow> string list \<Rightarrow> string list" where
  "dependents_loop installed seen frontier =
     (if frontier = [] then seen
      else let (seen', frontier') =
             visit (direct_dependents installed (last frontier)) (seen, butlast frontier)
           in dependents_loop installed seen' frontier')"
  by pat_completeness auto
termination
proof (relation "measure (\<lambda>(installed, seen, frontier). length frontier + unseen installed seen)", simp)
  fix installed :: "PluginNode list" and seen frontier seen' frontier' :: "string list"
  fix x :: "string list \<times> string list"
  assume ne: "frontier \<noteq> []" and x: "x = visit (direct_dependents installed (last frontier)) (seen, butlast frontier)"
    and xy: "(seen', frontier') = x"
  have "set (direct_dependents installed (last frontier)) \<subseteq> node_id ` set installed"
    by (auto simp: set_direct_dependents)
  from visit_measure [OF this x [symmetric, folded xy]]
  have "length frontier' + unseen installed seen' = length (butlast frontier) + unseen installed seen" .
  moreover from ne have "length (butlast frontier) < length frontier" by simp
  ultimately show "((installed, seen', frontier'), installed, seen, frontier)
      \<in> measure (\<lambda>(installed, seen, frontier). length frontier + unseen installed seen)" by simp
qed

declare dependents_loop.simps [simp del]

definition transitive_dependents :: "PluginNode list \<Rightarrow> string \<Rightarrow> string list option" where
  "transitive_dependents installed pid =
     (let seen = dependents_loop installed [] [pid];
          subset = filter (\<lambda>n. node_id n \<in> set seen) installed in
      map_option (\<lambda>r. rev (case r of Ok order \<Rightarrow> order | Err _ \<Rightarrow> seen)) (load_order subset))"

end
