(* ===== verification/Plugin_Order.thy ===== *)
theory Plugin_Order
  imports Plugin_Graph
begin

text \<open>
  Correctness of the plugin order: \<open>load_order\<close> never panics on nodes with distinct ids, returns
  the alphabetically greedy topological order exactly when the graph is acyclic, and names a real
  cycle otherwise; \<open>transitive_dependents\<close> is the closure under dependency.
\<close>

section \<open>The graph\<close>

definition deps_of :: "PluginNode list \<Rightarrow> string \<Rightarrow> string list" where
  "deps_of nodes x = (case by_id nodes x of Some n \<Rightarrow> dep_ids n | None \<Rightarrow> [])"

definition distinct_ids :: "PluginNode list \<Rightarrow> bool" where
  "distinct_ids nodes \<longleftrightarrow> distinct (map node_id nodes)"

definition dep_edges :: "PluginNode list \<Rightarrow> (string \<times> string) set" where
  "dep_edges nodes = {(x, y). x \<in> node_id ` set nodes \<and> y \<in> node_id ` set nodes \<and> y \<in> set (deps_of nodes x)}"

definition next_ready :: "PluginNode list \<Rightarrow> string set \<Rightarrow> string set" where
  "next_ready nodes done =
     {x \<in> node_id ` set nodes - done. set (deps_of nodes x) \<inter> node_id ` set nodes \<subseteq> done}"

text \<open>Each entry is the alphabetically first of those whose dependencies are all listed before it.\<close>

definition greedy_order :: "PluginNode list \<Rightarrow> string list \<Rightarrow> bool" where
  "greedy_order nodes order \<longleftrightarrow>
     (\<forall>i < length order. order ! i \<in> next_ready nodes (set (take i order)) \<and>
        order ! i = Min (next_ready nodes (set (take i order))))"

definition closed_walk :: "PluginNode list \<Rightarrow> string list \<Rightarrow> bool" where
  "closed_walk nodes c \<longleftrightarrow> 2 \<le> length c \<and> hd c = last c \<and>
     (\<forall>i. Suc i < length c \<longrightarrow> (c ! i, c ! Suc i) \<in> dep_edges nodes)"

lemma set_node_ids [simp]: "set (node_ids nodes) = node_id ` set nodes"
  by (simp add: node_ids_def)

lemma distinct_node_ids [simp]: "distinct (node_ids nodes)" and sorted_node_ids [simp]: "sorted (node_ids nodes)"
  by (simp_all add: node_ids_def)

lemma length_node_ids: "distinct_ids nodes \<Longrightarrow> length (node_ids nodes) = length nodes"
  by (simp add: node_ids_def distinct_ids_def distinct_remdups_id)

lemma by_id_node: "distinct_ids nodes \<Longrightarrow> n \<in> set nodes \<Longrightarrow> by_id nodes (node_id n) = Some n"
  unfolding by_id_def by (rule map_of_is_SomeI) (auto simp: distinct_ids_def rev_map [symmetric] comp_def)

lemma by_id_SomeD: "by_id nodes x = Some n \<Longrightarrow> n \<in> set nodes \<and> node_id n = x"
  unfolding by_id_def by (drule map_of_SomeD) auto

lemma by_id_None: "by_id nodes x = None \<longleftrightarrow> x \<notin> node_id ` set nodes"
  unfolding by_id_def by (auto simp: map_of_eq_None_iff image_iff)

lemma deps_of_node: "distinct_ids nodes \<Longrightarrow> n \<in> set nodes \<Longrightarrow> deps_of nodes (node_id n) = dep_ids n"
  by (simp add: deps_of_def by_id_node)

lemma deps_of_outside: "x \<notin> node_id ` set nodes \<Longrightarrow> deps_of nodes x = []"
  by (simp add: deps_of_def by_id_None [THEN iffD2])

lemma finite_next_ready [simp]: "finite (next_ready nodes done)"
  by (simp add: next_ready_def)

section \<open>Counting edges\<close>

lemma add_edges_eq:
  "add_edges ids n ds (deg, dts) =
     (deg(n := deg n + length (filter (\<lambda>d. d \<in> set ids) ds)),
      \<lambda>y. dts y @ (if y \<in> set ids then replicate (count_list ds y) n else []))"
proof (induction ds arbitrary: deg dts)
  case (Cons d ds)
  show ?case
    by (auto simp: Cons.IH fun_eq_iff replicate_append_same replicate_app_Cons_same)
qed (simp add: fun_eq_iff)

lemma count_list_replicate: "count_list (replicate k a) b = (if a = b then k else 0)"
  by (induction k) auto

definition edges_to :: "string list \<Rightarrow> PluginNode list \<Rightarrow> string \<Rightarrow> string list" where
  "edges_to ids ns y = (if y \<in> set ids then concat (map (\<lambda>n. replicate (count_list (dep_ids n) y) (node_id n)) ns) else [])"

lemma count_edges_fold:
  "foldl (\<lambda>s n. add_edges ids (node_id n) (dep_ids n) s) (deg, dts) ns =
     (\<lambda>x. deg x + (\<Sum>n\<leftarrow>ns. if node_id n = x then length (filter (\<lambda>d. d \<in> set ids) (dep_ids n)) else 0),
      \<lambda>y. dts y @ edges_to ids ns y)"
proof (induction ns arbitrary: deg dts)
  case (Cons n ns)
  show ?case by (auto simp: add_edges_eq Cons.IH fun_eq_iff edges_to_def)
qed (simp add: fun_eq_iff edges_to_def)

lemma sum_list_unique:
  "distinct_ids ns \<Longrightarrow> (\<Sum>n\<leftarrow>ns. if node_id n = x then f n else 0) = (case by_id ns x of Some n \<Rightarrow> f n | None \<Rightarrow> (0::nat))"
proof (induction ns)
  case (Cons m ns)
  then have d: "distinct_ids ns" "node_id m \<notin> node_id ` set ns" by (simp_all add: distinct_ids_def)
  show ?case
  proof (cases "node_id m = x")
    case True
    with d have "by_id ns x = None" by (simp add: by_id_None)
    moreover have "by_id (m # ns) x = Some m" using by_id_node [OF Cons.prems, of m] True by simp
    ultimately show ?thesis using True Cons.IH [OF d(1)] by simp
  next
    case False
    then have "by_id (m # ns) x = by_id ns x"
      by (simp add: by_id_def map_add_def split: option.splits)
    with False Cons.IH [OF d(1)] show ?thesis by simp
  qed
qed (simp add: by_id_def)

lemma sum_list_const_if: "count_list (concat (map (\<lambda>n. replicate (g n) (node_id n)) ns)) x =
    (\<Sum>n\<leftarrow>ns. if node_id n = x then g n else 0)"
  by (induction ns) (auto simp: count_list_append count_list_replicate)

definition open_deps :: "PluginNode list \<Rightarrow> string set \<Rightarrow> string \<Rightarrow> nat" where
  "open_deps nodes done x = length (filter (\<lambda>d. d \<in> node_id ` set nodes - done) (deps_of nodes x))"

lemma count_edges_deg:
  assumes "distinct_ids nodes" and "count_edges nodes = (deg, dts)"
  shows "deg x = open_deps nodes {} x"
    and "count_list (dts y) x = (if y \<in> node_id ` set nodes then count_list (deps_of nodes x) y else 0)"
proof -
  from assms(2) have e: "deg = (\<lambda>x. (\<Sum>n\<leftarrow>nodes. if node_id n = x
      then length (filter (\<lambda>d. d \<in> set (node_ids nodes)) (dep_ids n)) else 0))"
    "dts = edges_to (node_ids nodes) nodes"
    by (auto simp: count_edges_def count_edges_fold fun_eq_iff)
  show "deg x = open_deps nodes {} x"
    unfolding e(1) sum_list_unique [OF assms(1)] open_deps_def deps_of_def by (cases "by_id nodes x") simp_all
  show "count_list (dts y) x = (if y \<in> node_id ` set nodes then count_list (deps_of nodes x) y else 0)"
    unfolding e(2) edges_to_def deps_of_def
    by (cases "by_id nodes x") (simp_all add: sum_list_const_if sum_list_unique [OF assms(1)])
qed

section \<open>The loop\<close>

lemma release_edges_spec:
  assumes "\<forall>x. count_list xs x \<le> deg x" and "sorted ready" and "distinct ready"
  shows "\<exists>ready'. release_edges xs deg ready = Some (\<lambda>x. deg x - count_list xs x, ready') \<and>
    sorted ready' \<and> distinct ready' \<and>
    set ready' = set ready \<union> {x \<in> set xs. deg x = count_list xs x}"
  using assms
proof (induction xs arbitrary: deg ready)
  case (Cons x xs)
  define deg' where "deg' = deg(x := deg x - 1)"
  define ready1 where "ready1 = (if deg x - 1 = 0 then btree_insert x ready else ready)"
  from Cons.prems(1) [rule_format, of x] have pos: "deg x \<noteq> 0" by simp
  have c: "count_list xs y \<le> deg' y" for y
    using Cons.prems(1) [rule_format, of y] by (auto simp: deg'_def split: if_splits)
  have r1: "sorted ready1" "distinct ready1"
    using Cons.prems(2,3) by (auto simp: ready1_def btree_insert_def sorted_insort distinct_insort)
  from Cons.IH [OF _ r1, of deg'] c obtain ready' where
    r: "release_edges xs deg' ready1 = Some (\<lambda>y. deg' y - count_list xs y, ready')"
      "sorted ready'" "distinct ready'" "set ready' = set ready1 \<union> {y \<in> set xs. deg' y = count_list xs y}"
    by blast
  have "y \<in> set ready' \<longleftrightarrow> y \<in> set ready \<or> y \<in> set (x # xs) \<and> deg y = count_list (x # xs) y" for y
  proof (cases "y = x")
    case True
    have "x \<in> set xs \<longleftrightarrow> count_list xs x \<noteq> 0" by (simp add: count_list_0_iff)
    then show ?thesis
      unfolding True r(4) using pos c [of x] by (simp add: ready1_def deg'_def) linarith
  next
    case False
    then show ?thesis unfolding r(4) by (simp add: ready1_def deg'_def)
  qed
  then have "set ready' = set ready \<union> {y \<in> set (x # xs). deg y = count_list (x # xs) y}" by blast
  moreover have "release_edges (x # xs) deg ready = Some (\<lambda>y. deg y - count_list (x # xs) y, ready')"
    using r(1) pos by (auto simp: deg'_def ready1_def Let_def fun_eq_iff)
  ultimately show ?case using r(2,3) by blast
qed auto

definition order_state :: "PluginNode list \<Rightarrow> (string \<Rightarrow> nat) \<Rightarrow> string list \<Rightarrow> string list \<Rightarrow> bool" where
  "order_state nodes deg ready order \<longleftrightarrow>
     distinct order \<and> set order \<subseteq> node_id ` set nodes \<and> greedy_order nodes order \<and>
     deg = open_deps nodes (set order) \<and> sorted ready \<and> distinct ready \<and>
     set ready = next_ready nodes (set order)"

lemma open_deps_0: "open_deps nodes done x = 0 \<longleftrightarrow> set (deps_of nodes x) \<inter> node_id ` set nodes \<subseteq> done"
  by (auto simp: open_deps_def filter_empty_conv)

lemma next_ready_iff: "x \<in> next_ready nodes done \<longleftrightarrow> x \<in> node_id ` set nodes \<and> x \<notin> done \<and> open_deps nodes done x = 0"
  by (auto simp: next_ready_def open_deps_0)

lemma open_deps_insert:
  assumes "y \<in> node_id ` set nodes" and "y \<notin> done"
  shows "open_deps nodes done x = open_deps nodes (insert y done) x + count_list (deps_of nodes x) y"
proof -
  have "length (filter (\<lambda>d. d \<in> node_id ` set nodes - done) ds) =
    length (filter (\<lambda>d. d \<in> node_id ` set nodes - insert y done) ds) + count_list ds y" for ds
    using assms by (induction ds) auto
  then show ?thesis by (simp add: open_deps_def)
qed

lemma greedy_order_snoc:
  assumes "greedy_order nodes order" and "x \<in> next_ready nodes (set order)" and "x = Min (next_ready nodes (set order))"
  shows "greedy_order nodes (order @ [x])"
  using assms unfolding greedy_order_def by (auto simp: nth_append less_Suc_eq)

lemma order_state_step:
  assumes s: "order_state nodes deg (y # rest) order"
    and dts: "\<And>x. count_list (dts y) x = count_list (deps_of nodes x) y"
  shows "\<exists>deg' ready'. release_edges (dts y) deg rest = Some (deg', ready') \<and>
    order_state nodes deg' ready' (order @ [y])"
proof -
  from s have y: "y \<in> node_id ` set nodes" "y \<notin> set order" "y \<in> next_ready nodes (set order)"
    and deg: "deg = open_deps nodes (set order)" and rdy: "set (y # rest) = next_ready nodes (set order)"
    and sd: "sorted rest" "distinct rest" "y \<notin> set rest"
    by (auto simp: order_state_def next_ready_iff)
  note ins = open_deps_insert [OF y(1,2)]
  have "\<forall>x. count_list (dts y) x \<le> deg x" by (simp add: dts deg ins)
  from release_edges_spec [OF this sd(1,2)] obtain ready' where
    r: "release_edges (dts y) deg rest = Some (\<lambda>x. deg x - count_list (dts y) x, ready')"
      "sorted ready'" "distinct ready'" "set ready' = set rest \<union> {x \<in> set (dts y). deg x = count_list (dts y) x}"
    by blast
  have deg': "(\<lambda>x. deg x - count_list (dts y) x) = open_deps nodes (set (order @ [y]))"
    by (simp add: fun_eq_iff dts deg ins)
  have in_dts: "x \<in> set (dts y) \<longleftrightarrow> y \<in> set (deps_of nodes x)" for x
    using dts [of x] count_list_0_iff by metis
  have y_self: "y \<notin> set (deps_of nodes y)" using y(1-3) by (auto simp: next_ready_def)
  have later: "x \<in> node_id ` set nodes \<and> x \<notin> set order" if "y \<in> set (deps_of nodes x)" for x
  proof
    show "x \<in> node_id ` set nodes" using that deps_of_outside [of x nodes] by (cases "x \<in> node_id ` set nodes") simp_all
    show "x \<notin> set order"
    proof
      assume "x \<in> set order"
      then obtain i where i: "i < length order" "order ! i = x" by (auto simp: in_set_conv_nth)
      with s have "x \<in> next_ready nodes (set (take i order))" by (auto simp: order_state_def greedy_order_def)
      with that y(1) have "y \<in> set (take i order)" by (auto simp: next_ready_def)
      with y(2) show False by (auto dest: in_set_takeD)
    qed
  qed
  have "x \<in> set ready' \<longleftrightarrow> x \<in> next_ready nodes (insert y (set order))" for x
  proof (cases "y \<in> set (deps_of nodes x)")
    case True
    then have "x \<noteq> y" "count_list (deps_of nodes x) y \<noteq> 0" using y_self by (auto simp: count_list_0_iff)
    moreover from this have "x \<notin> set rest" using rdy ins [of x] by (auto simp: next_ready_iff)
    ultimately show ?thesis
      using True later [OF True] by (simp add: r(4) in_dts next_ready_iff dts deg ins)
  next
    case False
    then have "count_list (deps_of nodes x) y = 0" by (simp add: count_list_0_iff)
    moreover have "x \<in> set rest \<longleftrightarrow> x \<noteq> y \<and> x \<in> next_ready nodes (set order)" using rdy sd(3) by auto
    ultimately show ?thesis
      using False ins [of x] by (auto simp: r(4) in_dts next_ready_iff)
  qed
  then have "set ready' = next_ready nodes (set (order @ [y]))" by auto
  moreover have "y = Min (next_ready nodes (set order))"
    using s by (subst rdy [symmetric]) (auto simp: order_state_def intro!: Min_eqI [symmetric])
  ultimately have "order_state nodes (open_deps nodes (set (order @ [y]))) ready' (order @ [y])"
    using s y r(2,3) greedy_order_snoc [OF _ y(3)] by (simp add: order_state_def)
  with r(1) deg' show ?thesis by metis
qed

lemma order_loop_ends:
  assumes "\<And>x y. y \<in> node_id ` set nodes \<Longrightarrow> count_list (dts y) x = count_list (deps_of nodes x) y"
    and "order_state nodes deg ready order" and "card (node_id ` set nodes) < length order + fuel"
  shows "\<exists>order' deg'. order_loop fuel dts deg ready order = Some (order', deg') \<and>
    order_state nodes deg' [] order'"
  using assms(2,3)
proof (induction fuel arbitrary: deg ready order)
  case 0
  then have "length order \<le> card (node_id ` set nodes)"
    unfolding order_state_def by (metis card_mono distinct_card finite_imageI List.finite_set)
  with 0 show ?case by simp
next
  case (Suc fuel)
  show ?case
  proof (cases ready)
    case Nil
    with Suc.prems show ?thesis by simp
  next
    case (Cons y rest)
    with Suc.prems have "y \<in> node_id ` set nodes" by (auto simp: order_state_def next_ready_iff)
    from order_state_step [OF Suc.prems(1) [unfolded Cons], of dts] assms(1) [OF this]
    obtain deg' ready' where r: "release_edges (dts y) deg rest = Some (deg', ready')"
      "order_state nodes deg' ready' (order @ [y])" by blast
    from Suc.IH [OF r(2)] Suc.prems(2) r(1) Cons show ?thesis by simp
  qed
qed

lemma order_state_init:
  assumes "distinct_ids nodes" and "count_edges nodes = (deg, dts)"
  shows "order_state nodes deg (filter (\<lambda>pid. deg pid = 0) (node_ids nodes)) []"
proof -
  have "deg = open_deps nodes {}" using count_edges_deg(1) [OF assms] by (simp add: fun_eq_iff)
  then show ?thesis
    by (auto simp: order_state_def greedy_order_def next_ready_iff sorted_wrt_filter)
qed

section \<open>The cycle walk\<close>

lemma position_None: "position x xs = None \<longleftrightarrow> x \<notin> set xs"
  by (induction xs) auto

lemma position_Some: "position x xs = Some i \<Longrightarrow> i < length xs \<and> xs ! i = x"
  by (induction xs arbitrary: i) (auto split: if_splits)

definition chain :: "PluginNode list \<Rightarrow> string list \<Rightarrow> bool" where
  "chain nodes p \<longleftrightarrow> (\<forall>i. Suc i < length p \<longrightarrow> (p ! i, p ! Suc i) \<in> dep_edges nodes)"

lemma chain_snoc: "chain nodes p \<Longrightarrow> p \<noteq> [] \<Longrightarrow> (last p, x) \<in> dep_edges nodes \<Longrightarrow> chain nodes (p @ [x])"
  unfolding chain_def by (auto simp: nth_append last_conv_nth less_Suc_eq dest: sym [of "Suc _"])

lemma chain_drop: "chain nodes p \<Longrightarrow> chain nodes (drop k p)"
  unfolding chain_def by auto

lemma walk_cycle_finds:
  assumes "distinct_ids nodes"
    and rem: "\<And>x. x \<in> set remaining \<Longrightarrow> x \<in> node_id ` set nodes \<and> (\<exists>y \<in> set (deps_of nodes x). y \<in> set remaining)"
    and "path \<noteq> []" "last path = current" "distinct path" "set path \<subseteq> set remaining" "chain nodes path"
    and "card (set remaining) < length path + fuel"
  shows "\<exists>c. walk_cycle fuel nodes remaining start path current = Some c \<and> closed_walk nodes c \<and> set c \<subseteq> set remaining"
  using assms(3-)
proof (induction fuel arbitrary: path current)
  case 0
  then have "length path \<le> card (set remaining)" by (metis card_mono distinct_card List.finite_set)
  with 0 show ?case by simp
next
  case (Suc fuel)
  have cur: "current \<in> set remaining" using Suc.prems by auto
  then obtain n where n: "by_id nodes current = Some n" "deps_of nodes current = dep_ids n"
    using rem [OF cur] by_id_node [OF assms(1)] by (auto simp: deps_of_def)
  obtain d where d: "List.find (\<lambda>d. d \<in> set remaining) (dep_ids n) = Some d"
    using rem [OF cur] n(2) by (cases "List.find (\<lambda>d. d \<in> set remaining) (dep_ids n)") (auto simp: find_None_iff)
  then have d': "d \<in> set remaining" "d \<in> set (deps_of nodes current)"
    using n(2) by (auto simp: find_Some_iff)
  then have e: "(last path, d) \<in> dep_edges nodes"
    using rem [OF cur] rem [OF d'(1)] Suc.prems(2) by (simp add: dep_edges_def)
  note ch = chain_snoc [OF Suc.prems(5,1) e]
  show ?case
  proof (cases "position d path")
    case None
    then have "d \<notin> set path" by (simp add: position_None)
    with Suc.IH [of "path @ [d]" d] Suc.prems ch d'(1) n d None show ?thesis by simp
  next
    case (Some pos)
    from position_Some [OF this] have pos: "pos < length path" "path ! pos = d" by auto
    have "closed_walk nodes (drop pos path @ [d])"
      using chain_drop [OF ch, of pos] pos
      by (auto simp: closed_walk_def chain_def hd_append hd_drop_conv_nth)
    moreover have "set (drop pos path @ [d]) \<subseteq> set remaining"
      using Suc.prems(4) d'(1) by (auto dest: in_set_dropD)
    ultimately show ?thesis using n d Some by simp
  qed
qed

section \<open>The result of \<open>load_order\<close>\<close>

lemma order_loop_total:
  assumes "distinct_ids nodes" and "count_edges nodes = (deg, dts)"
  shows "\<exists>order deg'. order_loop (Suc (length (node_ids nodes))) dts deg
      (filter (\<lambda>pid. deg pid = 0) (node_ids nodes)) [] = Some (order, deg') \<and> order_state nodes deg' [] order"
proof (rule order_loop_ends [OF _ order_state_init [OF assms]])
  have "card (node_id ` set nodes) = length (node_ids nodes)"
    by (metis distinct_card distinct_node_ids set_node_ids)
  then show "card (node_id ` set nodes) < length [] + Suc (length (node_ids nodes))" by simp
qed (simp add: count_edges_deg(2) [OF assms])

lemma listed_has_no_open_deps:
  assumes "greedy_order nodes order" and "x \<in> set order"
  shows "open_deps nodes (set order) x = 0"
proof -
  from assms(2) obtain i where "i < length order" "order ! i = x" by (auto simp: in_set_conv_nth)
  with assms(1) have "x \<in> next_ready nodes (set (take i order))" by (auto simp: greedy_order_def)
  then show ?thesis by (auto simp: next_ready_def open_deps_0 dest: in_set_takeD)
qed

lemma remaining_iff:
  assumes "order_state nodes deg [] order" and "x \<in> node_id ` set nodes"
  shows "deg x > 0 \<longleftrightarrow> x \<notin> set order"
proof -
  from assms(1) have o: "greedy_order nodes order" "deg = open_deps nodes (set order)" "next_ready nodes (set order) = {}"
    by (auto simp: order_state_def)
  from o(3) next_ready_iff [of x nodes "set order"] assms(2) have "x \<in> set order \<or> deg x > 0" by (auto simp: o(2))
  with listed_has_no_open_deps [OF o(1), of x] show ?thesis by (auto simp: o(2))
qed

lemma stuck_order_has_cycle:
  assumes "distinct_ids nodes" and "order_state nodes deg [] order" and "set order \<noteq> node_id ` set nodes"
    and remaining: "remaining = filter (\<lambda>pid. deg pid > 0) (node_ids nodes)"
  obtains start others c where "remaining = start # others"
    "walk_cycle (Suc (length (node_ids nodes))) nodes remaining start [start] start = Some c"
    "closed_walk nodes c" "set c \<subseteq> node_id ` set nodes"
proof -
  have left: "x \<in> set remaining \<longleftrightarrow> x \<in> node_id ` set nodes - set order" for x
    using remaining_iff [OF assms(2), of x] by (auto simp: remaining)
  from assms(2) have o: "set order \<subseteq> node_id ` set nodes" "deg = open_deps nodes (set order)"
    by (auto simp: order_state_def)
  with assms(3) left obtain start others where so: "remaining = start # others" by (cases remaining) auto
  have sub: "set remaining \<subseteq> set (node_ids nodes)" by (auto simp: remaining)
  have "\<exists>c. walk_cycle (Suc (length (node_ids nodes))) nodes remaining start [start] start = Some c \<and>
    closed_walk nodes c \<and> set c \<subseteq> set remaining"
  proof (rule walk_cycle_finds [OF assms(1)])
    fix x assume "x \<in> set remaining"
    then have "x \<in> node_id ` set nodes" "open_deps nodes (set order) x \<noteq> 0" by (auto simp: remaining o(2))
    with left show "x \<in> node_id ` set nodes \<and> (\<exists>y \<in> set (deps_of nodes x). y \<in> set remaining)"
      unfolding open_deps_0 by blast
  next
    show "card (set remaining) < length [start] + Suc (length (node_ids nodes))"
      using card_mono [OF _ sub] card_length [of "node_ids nodes"] by simp
  qed (auto simp: so chain_def)
  with that [OF so] sub show thesis by auto
qed

lemma load_order_cases:
  assumes "distinct_ids nodes"
  obtains (order) order where "load_order nodes = Some (Ok order)" "distinct order"
      "set order = node_id ` set nodes" "greedy_order nodes order"
  | (cycle) c where "load_order nodes = Some (Err (Cycle c))" "closed_walk nodes c" "set c \<subseteq> node_id ` set nodes"
proof -
  obtain deg dts where ce: "count_edges nodes = (deg, dts)" by force
  from order_loop_total [OF assms ce] obtain ord deg' where
    l: "order_loop (Suc (length (node_ids nodes))) dts deg
      (filter (\<lambda>pid. deg pid = 0) (node_ids nodes)) [] = Some (ord, deg')" and st: "order_state nodes deg' [] ord"
    by blast
  from st have o: "distinct ord" "set ord \<subseteq> node_id ` set nodes" "greedy_order nodes ord"
    by (auto simp: order_state_def)
  have "length nodes = card (node_id ` set nodes)"
    using assms distinct_card [of "map node_id nodes"] by (simp add: distinct_ids_def)
  then have len: "length ord = length nodes \<longleftrightarrow> set ord = node_id ` set nodes"
    using distinct_card [OF o(1)] card_subset_eq [OF _ o(2)] by auto
  show thesis
  proof (cases "set ord = node_id ` set nodes")
    case True
    then have "load_order nodes = Some (Ok ord)" using l len by (simp add: load_order_def ce)
    with True order o(1,3) show thesis by blast
  next
    case False
    from stuck_order_has_cycle [OF assms st False refl] obtain start others c where
      c: "filter (\<lambda>pid. deg' pid > 0) (node_ids nodes) = start # others"
        "walk_cycle (Suc (length (node_ids nodes))) nodes (start # others) start [start] start = Some c"
        "closed_walk nodes c" "set c \<subseteq> node_id ` set nodes" by metis
    then have "load_order nodes = Some (Err (Cycle c))"
      using l False len by (simp add: load_order_def ce)
    with c(3,4) cycle show thesis by blast
  qed
qed

section \<open>Acyclicity\<close>

lemma chain_trancl: "chain nodes p \<Longrightarrow> i < j \<Longrightarrow> j < length p \<Longrightarrow> (p ! i, p ! j) \<in> (dep_edges nodes)\<^sup>+"
proof (induction j)
  case (Suc j)
  then have e: "(p ! j, p ! Suc j) \<in> dep_edges nodes" by (simp add: chain_def)
  show ?case
  proof (cases "i = j")
    case False
    with Suc have "(p ! i, p ! j) \<in> (dep_edges nodes)\<^sup>+" by simp
    from this e show ?thesis by (rule trancl.trancl_into_trancl)
  qed (use e in auto)
qed simp

lemma closed_walk_cyclic:
  assumes "closed_walk nodes c"
  shows "\<not> acyclic (dep_edges nodes)"
proof -
  from assms have c: "chain nodes c" "2 \<le> length c" "hd c = last c" by (auto simp: closed_walk_def chain_def)
  then have "c \<noteq> []" "0 < length c - 1" "length c - 1 < length c" by auto
  with chain_trancl [OF c(1)] c(3) have "(hd c, hd c) \<in> (dep_edges nodes)\<^sup>+"
    by (metis hd_conv_nth last_conv_nth)
  then show ?thesis by (auto simp: acyclic_def)
qed

lemma greedy_order_edges:
  assumes "greedy_order nodes order" and "(order ! i, y) \<in> dep_edges nodes" and "i < length order"
  shows "\<exists>j < i. order ! j = y"
proof -
  from assms(1,3) have "order ! i \<in> next_ready nodes (set (take i order))"
    unfolding greedy_order_def by blast
  with assms(2) have "y \<in> set (take i order)" by (auto simp: next_ready_def dep_edges_def)
  with assms(3) show ?thesis by (auto simp: in_set_conv_nth)
qed

lemma greedy_order_trancl:
  assumes "greedy_order nodes order" and "(x, y) \<in> (dep_edges nodes)\<^sup>+"
  shows "\<forall>i < length order. order ! i = x \<longrightarrow> (\<exists>j < i. order ! j = y)"
  using assms(2)
proof (induction rule: trancl_induct)
  case (step y z)
  then show ?case using greedy_order_edges [OF assms(1)] by (metis order_less_trans)
qed (use greedy_order_edges [OF assms(1)] in blast)

lemma greedy_order_acyclic:
  assumes "greedy_order nodes order" and "distinct order" and "set order = node_id ` set nodes"
  shows "acyclic (dep_edges nodes)"
  unfolding acyclic_def
proof (intro allI notI)
  fix x
  assume c: "(x, x) \<in> (dep_edges nodes)\<^sup>+"
  then have "x \<in> node_id ` set nodes" by (auto dest!: tranclD simp: dep_edges_def)
  then obtain i where "i < length order" "order ! i = x" using assms(3) by (metis in_set_conv_nth)
  with greedy_order_trancl [OF assms(1) c] show False
    using assms(2) by (metis nat_neq_iff nth_eq_iff_index_eq order_less_trans)
qed

lemma load_order_acyclic:
  assumes "distinct_ids nodes" and "acyclic (dep_edges nodes)"
  obtains order where "load_order nodes = Some (Ok order)" "distinct order"
    "set order = node_id ` set nodes" "greedy_order nodes order"
  using load_order_cases [OF assms(1)] closed_walk_cyclic assms(2) by metis

lemma load_order_ok_acyclic:
  assumes "distinct_ids nodes" and "load_order nodes = Some (Ok order)"
  shows "acyclic (dep_edges nodes)"
  using load_order_cases [OF assms(1)] greedy_order_acyclic assms(2) by (metis option.inject sum.distinct(1) sum.inject(2))

section \<open>Dependents\<close>

definition requires :: "PluginNode list \<Rightarrow> (string \<times> string) set" where
  "requires nodes = {(node_id n, d) |n d. n \<in> set nodes \<and> d \<in> set (dep_ids n)}"

lemma direct_dependents_iff: "x \<in> set (direct_dependents installed y) \<longleftrightarrow> (x, y) \<in> requires installed"
  by (auto simp: set_direct_dependents requires_def)

lemma visit_sets:
  "visit ds (seen, frontier) = (seen', frontier') \<Longrightarrow>
     set seen' = set seen \<union> set ds \<and> set frontier' = set frontier \<union> (set ds - set seen)"
proof (induction ds arbitrary: seen frontier)
  case (Cons d ds)
  show ?case
  proof (cases "d \<in> set seen")
    case True
    with Cons show ?thesis by auto
  next
    case False
    with Cons.prems have "visit ds (btree_insert d seen, frontier @ [d]) = (seen', frontier')" by simp
    from Cons.IH [OF this] False show ?thesis by auto
  qed
qed simp

definition search_state :: "PluginNode list \<Rightarrow> string \<Rightarrow> string list \<Rightarrow> string list \<Rightarrow> bool" where
  "search_state installed pid seen frontier \<longleftrightarrow>
     (\<forall>x \<in> set seen. (x, pid) \<in> (requires installed)\<^sup>+) \<and> set frontier \<subseteq> insert pid (set seen) \<and>
     (\<forall>x y. (x, y) \<in> requires installed \<longrightarrow> y \<in> insert pid (set seen) - set frontier \<longrightarrow> x \<in> set seen)"

lemma search_state_step:
  assumes s: "search_state installed pid seen frontier" and "frontier \<noteq> []"
    and v: "visit (direct_dependents installed (last frontier)) (seen, butlast frontier) = (seen', frontier')"
  shows "search_state installed pid seen' frontier'"
proof -
  let ?c = "last frontier"
  have fr: "set frontier = insert ?c (set (butlast frontier))"
    using assms(2) by (metis append_butlast_last_id list.simps(15) rotate1.simps(2) set_rotate1)
  from visit_sets [OF v] have se: "x \<in> set seen' \<longleftrightarrow> x \<in> set seen \<or> (x, ?c) \<in> requires installed"
    and fe: "x \<in> set frontier' \<longleftrightarrow> x \<in> set (butlast frontier) \<or> (x, ?c) \<in> requires installed \<and> x \<notin> set seen" for x
    by (auto simp: direct_dependents_iff)
  have "?c \<in> insert pid (set seen)" using s fr by (auto simp: search_state_def)
  then have reach: "(x, pid) \<in> (requires installed)\<^sup>+" if "(x, ?c) \<in> requires installed" for x
    using that s by (auto simp: search_state_def intro: trancl_into_trancl2)
  show ?thesis
    unfolding search_state_def
  proof (intro conjI)
    show "\<forall>x \<in> set seen'. (x, pid) \<in> (requires installed)\<^sup>+" using s reach by (auto simp: se search_state_def)
    show "set frontier' \<subseteq> insert pid (set seen')" using s fr by (auto simp: se fe search_state_def)
    show "\<forall>x y. (x, y) \<in> requires installed \<longrightarrow> y \<in> insert pid (set seen') - set frontier' \<longrightarrow> x \<in> set seen'"
    proof (intro allI impI)
      fix x y
      assume xy: "(x, y) \<in> requires installed" "y \<in> insert pid (set seen') - set frontier'"
      show "x \<in> set seen'"
      proof (cases "y = ?c")
        case False
        with xy(2) fr se fe have "y \<in> insert pid (set seen) - set frontier" by auto
        with s xy(1) show ?thesis by (auto simp: search_state_def se)
      qed (use xy(1) in \<open>simp add: se\<close>)
    qed
  qed
qed

lemma dependents_loop_closure:
  "search_state installed pid seen frontier \<Longrightarrow>
     set (dependents_loop installed seen frontier) = {x. (x, pid) \<in> (requires installed)\<^sup>+}"
proof (induction installed seen frontier rule: dependents_loop.induct)
  case (1 installed seen frontier)
  show ?case
  proof (cases "frontier = []")
    case True
    have "x \<in> set seen" if "(x, pid) \<in> (requires installed)\<^sup>+" for x
      using that
    proof (induction rule: converse_trancl_induct)
      case (base x)
      with 1(2) True show ?case by (auto simp: search_state_def)
    next
      case (step x y)
      with 1(2) True show ?case by (auto simp: search_state_def)
    qed
    with 1(2) True show ?thesis by (subst dependents_loop.simps) (auto simp: search_state_def)
  next
    case False
    obtain seen' frontier' where
      v: "visit (direct_dependents installed (last frontier)) (seen, butlast frontier) = (seen', frontier')" by force
    from 1(1) [OF False refl v [symmetric] search_state_step [OF 1(2) False v]] False v
    show ?thesis by (subst dependents_loop.simps) simp
  qed
qed

lemma set_dependents_loop: "set (dependents_loop installed [] [pid]) = {x. (x, pid) \<in> (requires installed)\<^sup>+}"
  by (rule dependents_loop_closure) (simp add: search_state_def)

lemma requires_dep_edges:
  assumes "distinct_ids nodes"
  shows "dep_edges nodes = {(x, y) \<in> requires nodes. y \<in> node_id ` set nodes}"
proof -
  have "(x, y) \<in> dep_edges nodes \<longleftrightarrow> (x, y) \<in> requires nodes \<and> y \<in> node_id ` set nodes" for x y
    using deps_of_node [OF assms] by (auto simp: dep_edges_def requires_def)
  then show ?thesis by auto
qed

lemma requires_trancl_ids: "(x, y) \<in> (requires nodes)\<^sup>+ \<Longrightarrow> x \<in> node_id ` set nodes"
  by (auto dest!: tranclD simp: requires_def)

lemma distinct_ids_filter: "distinct_ids nodes \<Longrightarrow> distinct_ids (filter P nodes)"
  by (simp add: distinct_ids_def distinct_map_filter)

lemma dep_edges_filter:
  assumes "distinct_ids nodes"
  shows "dep_edges (filter P nodes) \<subseteq> dep_edges nodes"
  unfolding requires_dep_edges [OF assms] requires_dep_edges [OF distinct_ids_filter [OF assms]]
  by (auto simp: requires_def)

definition removal_order :: "PluginNode list \<Rightarrow> string list \<Rightarrow> bool" where
  "removal_order nodes ds \<longleftrightarrow>
     (\<forall>i < length ds. \<forall>j < length ds. (ds ! i, ds ! j) \<in> requires nodes \<longrightarrow> i < j)"

lemma greedy_order_removal:
  assumes "distinct_ids nodes" and "greedy_order nodes order" and "distinct order" and "set order = node_id ` set nodes"
  shows "removal_order nodes (rev order)"
  unfolding removal_order_def
proof (intro allI impI)
  fix i j
  assume ij: "i < length (rev order)" "j < length (rev order)" and r: "(rev order ! i, rev order ! j) \<in> requires nodes"
  define i' j' where "i' = length order - Suc i" and "j' = length order - Suc j"
  from ij have n: "rev order ! i = order ! i'" "rev order ! j = order ! j'" "i' < length order" "j' < length order"
    by (auto simp: rev_nth i'_def j'_def)
  from r n have "(order ! i', order ! j') \<in> dep_edges nodes"
    using requires_dep_edges [OF assms(1)] assms(4) nth_mem by fastforce
  from greedy_order_edges [OF assms(2) this n(3)] obtain k where k: "k < i'" "order ! k = order ! j'" by blast
  with n assms(3) have "k = j'" by (metis nth_eq_iff_index_eq order_less_trans)
  with k ij show "i < j" by (simp add: i'_def j'_def)
qed

lemma transitive_dependents_acyclic:
  assumes "distinct_ids installed" and "acyclic (dep_edges installed)"
  obtains ds where "transitive_dependents installed pid = Some ds" "distinct ds"
    "set ds = {x. (x, pid) \<in> (requires installed)\<^sup>+}" "removal_order installed ds"
proof -
  define seen where "seen = dependents_loop installed [] [pid]"
  define sub where "sub = filter (\<lambda>n. node_id n \<in> set seen) installed"
  have seen: "set seen = {x. (x, pid) \<in> (requires installed)\<^sup>+}" by (simp add: seen_def set_dependents_loop)
  have d: "distinct_ids sub" "acyclic (dep_edges sub)"
    using distinct_ids_filter [OF assms(1)] acyclic_subset [OF assms(2) dep_edges_filter [OF assms(1)]]
    by (auto simp: sub_def)
  from load_order_acyclic [OF this] obtain order where
    o: "load_order sub = Some (Ok order)" "distinct order" "set order = node_id ` set sub" "greedy_order sub order" .
  have ids: "node_id ` set sub = set seen"
    using requires_trancl_ids by (fastforce simp: sub_def seen)
  have "removal_order sub (rev order)" by (rule greedy_order_removal [OF d(1) o(4,2,3)])
  moreover have "(x, y) \<in> requires sub" if "(x, y) \<in> requires installed" "x \<in> set seen" for x y
    using that by (auto simp: requires_def sub_def)
  ultimately have "removal_order installed (rev order)"
    using o(3) ids unfolding removal_order_def by (metis length_rev nth_mem set_rev)
  moreover have "transitive_dependents installed pid = Some (rev order)"
    using o(1) by (simp add: transitive_dependents_def seen_def sub_def)
  ultimately show thesis using that o(2,3) ids seen by auto
qed

section \<open>Properties\<close>

definition demo_plugin :: "string \<Rightarrow> string list \<Rightarrow> PluginNode" where
  "demo_plugin pid deps = \<lparr>node_id = pid, node_version = ''1.0.0'',
     node_dependencies = map (\<lambda>d. \<lparr>dep_id = d, dep_version = ''*''\<rparr>) deps\<rparr>"

definition demo_plugins :: "PluginNode list" where
  "demo_plugins = [demo_plugin ''a'' [''b''], demo_plugin ''b'' [], demo_plugin ''c'' [''a'']]"

lemma demo_distinct: "distinct_ids demo_plugins"
  by (simp add: distinct_ids_def demo_plugins_def demo_plugin_def)

lemma demo_order: "load_order demo_plugins = Some (Ok [''b'', ''a'', ''c''])"
  by code_simp

lemma demo_acyclic: "acyclic (dep_edges demo_plugins)"
  by (rule load_order_ok_acyclic [OF demo_distinct demo_order])

text \<open>
  Property C6. On plugins with distinct ids \<open>load_order\<close> always answers. When no plugin depends on
  itself through others, it lists every plugin once, each one the alphabetically first whose
  dependencies are listed before it. Otherwise it names a cycle in which each plugin depends on
  the next and the last is the first.
\<close>

theorem load_order_correct:
  assumes "distinct_ids nodes"
  shows "(acyclic (dep_edges nodes) \<and>
      (\<exists>order. load_order nodes = Some (Ok order) \<and> distinct order \<and>
        set order = node_id ` set nodes \<and> greedy_order nodes order)) \<or>
    (\<not> acyclic (dep_edges nodes) \<and>
      (\<exists>c. load_order nodes = Some (Err (Cycle c)) \<and> closed_walk nodes c))"
  using load_order_cases [OF assms] load_order_ok_acyclic [OF assms] closed_walk_cyclic by metis

theorem load_order_correct_witness:
  "\<exists>order. load_order demo_plugins = Some (Ok order) \<and> distinct order \<and>
     set order = node_id ` set demo_plugins \<and> greedy_order demo_plugins order"
  using load_order_correct [OF demo_distinct] demo_acyclic by blast

text \<open>
  In an acyclic set of plugins \<open>transitive_dependents\<close> is exactly the plugins that
  depend on the given one, directly or through others, each once, and each before everything it
  depends on.
\<close>

theorem transitive_dependents_closure:
  assumes "distinct_ids installed" and "acyclic (dep_edges installed)"
  shows "\<exists>ds. transitive_dependents installed pid = Some ds \<and> distinct ds \<and>
    set ds = {x. (x, pid) \<in> (requires installed)\<^sup>+} \<and> removal_order installed ds"
  using transitive_dependents_acyclic [OF assms] by blast

theorem transitive_dependents_closure_witness:
  "\<exists>ds. transitive_dependents demo_plugins ''b'' = Some ds \<and> distinct ds \<and>
    set ds = {x. (x, ''b'') \<in> (requires demo_plugins)\<^sup>+} \<and> removal_order demo_plugins ds"
  by (rule transitive_dependents_closure [OF demo_distinct demo_acyclic])

end
