(* ===== verification/Plugin_Types.thy ===== *)
theory Plugin_Types
  imports Plugin_Graph
begin

text \<open>
  Plugins as the registry holds them (src/plugin/types.rs): the manifest with the fields the
  registry reads, what the module reports of itself, and the accessors that hide a field from the
  plugin types it does not apply to.
\<close>

datatype PluginType = Auth | Interpreter | Library

definition plugin_type_as_str :: "PluginType \<Rightarrow> string" where
  "plugin_type_as_str t = (case t of Auth \<Rightarrow> ''auth'' | Interpreter \<Rightarrow> ''interpreter'' | Library \<Rightarrow> ''library'')"

definition plugin_type_parse_str :: "string \<Rightarrow> PluginType option" where
  "plugin_type_parse_str s =
     (if s = ''auth'' then Some Auth
      else if s = ''interpreter'' then Some Interpreter
      else if s = ''library'' then Some Library
      else None)"

record PluginManifest =
  mf_id :: string
  mf_icon_url :: "string option"
  mf_banner_url :: "string option"
  mf_description :: "string option"
  mf_plugin_type :: PluginType
  mf_dependencies :: "PluginDependency list"
  mf_namespace :: "string option"
  mf_language_id :: "string option"
  mf_file_extension :: "string option"
  mf_extensions :: "string list"
  mf_supports_libraries :: "string list"

record PluginInfo =
  info_id :: string
  info_version :: string
  info_icon_url :: "string option"

record LoadedPlugin =
  pl_info :: PluginInfo
  pl_wasm_bytes :: string
  pl_manifest :: "PluginManifest option"

definition plugin_id :: "LoadedPlugin \<Rightarrow> string" where
  "plugin_id p = info_id (pl_info p)"

definition plugin_type :: "LoadedPlugin \<Rightarrow> PluginType" where
  "plugin_type p = (case pl_manifest p of Some m \<Rightarrow> mf_plugin_type m | None \<Rightarrow> Auth)"

definition plugin_dependencies :: "LoadedPlugin \<Rightarrow> PluginDependency list" where
  "plugin_dependencies p = (case pl_manifest p of Some m \<Rightarrow> mf_dependencies m | None \<Rightarrow> [])"

definition plugin_description :: "LoadedPlugin \<Rightarrow> string option" where
  "plugin_description p = Option.bind (pl_manifest p) mf_description"

definition plugin_icon_url :: "LoadedPlugin \<Rightarrow> string option" where
  "plugin_icon_url p =
     (case Option.bind (pl_manifest p) mf_icon_url of Some u \<Rightarrow> Some u | None \<Rightarrow> info_icon_url (pl_info p))"

definition plugin_banner_url :: "LoadedPlugin \<Rightarrow> string option" where
  "plugin_banner_url p = Option.bind (pl_manifest p) mf_banner_url"

definition plugin_namespace :: "LoadedPlugin \<Rightarrow> string option" where
  "plugin_namespace p =
     (case pl_manifest p of
        None \<Rightarrow> None
      | Some m \<Rightarrow>
          if mf_plugin_type m \<noteq> Library then None
          else Some (case mf_namespace m of Some ns \<Rightarrow> ns | None \<Rightarrow> mf_id m))"

definition plugin_supports_libraries :: "LoadedPlugin \<Rightarrow> string list" where
  "plugin_supports_libraries p =
     (case pl_manifest p of
        Some m \<Rightarrow> if mf_plugin_type m = Interpreter then mf_supports_libraries m else []
      | None \<Rightarrow> [])"

definition plugin_language_id :: "LoadedPlugin \<Rightarrow> string option" where
  "plugin_language_id p =
     (case pl_manifest p of
        None \<Rightarrow> None
      | Some m \<Rightarrow> if mf_plugin_type m \<noteq> Interpreter then None else mf_language_id m)"

definition effective_extensions :: "PluginManifest \<Rightarrow> string list" where
  "effective_extensions m =
     (if mf_extensions m = [] then (case mf_file_extension m of Some e \<Rightarrow> [e] | None \<Rightarrow> [])
      else mf_extensions m)"

definition plugin_extensions :: "LoadedPlugin \<Rightarrow> string list" where
  "plugin_extensions p =
     (case pl_manifest p of
        Some m \<Rightarrow> if mf_plugin_type m = Interpreter then effective_extensions m else []
      | None \<Rightarrow> [])"

definition node_of :: "LoadedPlugin \<Rightarrow> PluginNode" where
  "node_of p = \<lparr>node_id = plugin_id p, node_version = info_version (pl_info p),
     node_dependencies = plugin_dependencies p\<rparr>"

lemma node_id_node_of [simp]: "node_id (node_of p) = plugin_id p"
  by (simp add: node_of_def)

lemma plugin_type_roundtrip [simp]: "plugin_type_parse_str (plugin_type_as_str t) = Some t"
  by (cases t) (simp_all add: plugin_type_parse_str_def plugin_type_as_str_def)

lemma only_interpreters_claim_languages:
  "plugin_type p \<noteq> Interpreter \<Longrightarrow> plugin_language_id p = None \<and> plugin_extensions p = []"
  by (auto simp: plugin_type_def plugin_language_id_def plugin_extensions_def split: option.splits)

end
