(* ===== verification/Prepared_Cache.thy ===== *)
theory Prepared_Cache
  imports Plugin_Types
begin

text \<open>
  Prepared artifacts (src/plugin/prepared.rs): the stamp naming the interpreter build that made
  one, and the bounded cache of dashboard scripts' artifacts. SHA-256 is an argument: \<open>hex_digest\<close>
  is the digest in hexadecimal and \<open>source_hash\<close> its 32 bytes. The cache's hash map is the list of
  its entries; a subtraction of weights is exact because the byte count is their sum.
\<close>

section \<open>Stamps\<close>

record PreparedArtifact =
  art_interpreter :: string
  art_version :: string
  art_engine :: string
  art_format :: string
  art_bytes :: string
  art_source_map :: "string option"

record ArtifactStamp =
  stamp_interpreter :: string
  stamp_version :: string

definition stamp_of :: "(string \<Rightarrow> string) \<Rightarrow> LoadedPlugin \<Rightarrow> ArtifactStamp" where
  "stamp_of hex_digest p =
     \<lparr>stamp_interpreter = plugin_id p,
      stamp_version = info_version (pl_info p) @ ''+'' @ take 16 (hex_digest (pl_wasm_bytes p))\<rparr>"

definition stamp_apply :: "ArtifactStamp \<Rightarrow> PreparedArtifact \<Rightarrow> PreparedArtifact" where
  "stamp_apply st a = a\<lparr>art_interpreter := stamp_interpreter st, art_version := stamp_version st\<rparr>"

definition stamp_matches :: "ArtifactStamp \<Rightarrow> PreparedArtifact \<Rightarrow> bool" where
  "stamp_matches st a \<longleftrightarrow> art_interpreter a = stamp_interpreter st \<and> art_version a = stamp_version st"

section \<open>The cache\<close>

type_synonym Cached = "PreparedArtifact option"

definition PREPARED_CACHE_CAPACITY :: nat where
  "PREPARED_CACHE_CAPACITY = 1024"

definition PREPARED_CACHE_MAX_BYTES :: nat where
  "PREPARED_CACHE_MAX_BYTES = 64 * 1024 * 1024"

record Entries =
  ent_map :: "((string \<times> string) \<times> Cached) list"
  ent_bytes :: nat

definition cache_default :: Entries where
  "cache_default = \<lparr>ent_map = [], ent_bytes = 0\<rparr>"

definition weight :: "Cached \<Rightarrow> nat" where
  "weight cached =
     (case cached of
        Some a \<Rightarrow> length (art_bytes a) + (case art_source_map a of Some m \<Rightarrow> length m | None \<Rightarrow> 0)
      | None \<Rightarrow> 0)"

definition entries_remove :: "string \<times> string \<Rightarrow> Entries \<Rightarrow> Entries" where
  "entries_remove key e =
     (case map_of (ent_map e) key of
        Some old \<Rightarrow> \<lparr>ent_map = filter (\<lambda>(k, _). k \<noteq> key) (ent_map e), ent_bytes = ent_bytes e - weight old\<rparr>
      | None \<Rightarrow> e)"

definition cache_lookup :: "(string \<Rightarrow> string) \<Rightarrow> string \<Rightarrow> string \<Rightarrow> Entries \<Rightarrow> Cached option" where
  "cache_lookup source_hash interpreter source e = map_of (ent_map e) (interpreter, source_hash source)"

definition store_key :: "string \<times> string \<Rightarrow> Cached \<Rightarrow> Entries \<Rightarrow> Entries" where
  "store_key key cached e0 =
     (let e = entries_remove key e0;
          added = weight cached;
          e' = (if ent_map e \<noteq> [] \<and> (length (ent_map e) \<ge> PREPARED_CACHE_CAPACITY
                    \<or> ent_bytes e + added > PREPARED_CACHE_MAX_BYTES)
                then \<lparr>ent_map = [], ent_bytes = 0\<rparr> else e)
      in \<lparr>ent_map = ent_map e' @ [(key, cached)], ent_bytes = ent_bytes e' + added\<rparr>)"

definition cache_store :: "(string \<Rightarrow> string) \<Rightarrow> string \<Rightarrow> string \<Rightarrow> Cached \<Rightarrow> Entries \<Rightarrow> Cached \<times> Entries" where
  "cache_store source_hash interpreter source artifact e =
     (artifact, store_key (interpreter, source_hash source) artifact e)"

definition cache_forget :: "(string \<Rightarrow> string) \<Rightarrow> string \<Rightarrow> string \<Rightarrow> Entries \<Rightarrow> Entries" where
  "cache_forget source_hash interpreter source e = entries_remove (interpreter, source_hash source) e"

definition evict_interpreter :: "string \<Rightarrow> Entries \<Rightarrow> Entries" where
  "evict_interpreter interpreter e =
     (let dropped = filter (\<lambda>(pid, _). pid = interpreter) (map fst (ent_map e))
      in foldl (\<lambda>e key. entries_remove key e) e dropped)"

section \<open>Invariant\<close>

definition cache_ok :: "Entries \<Rightarrow> bool" where
  "cache_ok e \<longleftrightarrow> distinct (map fst (ent_map e)) \<and>
     ent_bytes e = sum_list (map (weight \<circ> snd) (ent_map e)) \<and>
     length (ent_map e) \<le> PREPARED_CACHE_CAPACITY \<and>
     (length (ent_map e) \<le> 1 \<or> ent_bytes e \<le> PREPARED_CACHE_MAX_BYTES)"

lemma sum_weights_remove:
  assumes "distinct (map fst m)" and "map_of m key = Some old"
  shows "sum_list (map (weight \<circ> snd) m) = weight old + sum_list (map (weight \<circ> snd) (filter (\<lambda>(k, _). k \<noteq> key) m))"
  using assms
proof (induction m)
  case (Cons kv m)
  obtain k v where kv: "kv = (k, v)" by force
  show ?case
  proof (cases "k = key")
    case True
    with Cons.prems kv have "filter (\<lambda>(k, _). k \<noteq> key) m = m" by (force simp: filter_id_conv)
    with True Cons.prems kv show ?thesis by simp
  next
    case False
    with Cons kv show ?thesis by simp
  qed
qed simp

lemma entries_remove_map: "map_of (ent_map (entries_remove key e)) = (map_of (ent_map e))(key := None)"
proof -
  have "map_of (filter (\<lambda>(k, _). k \<noteq> key) m) = (map_of m)(key := None)" for m :: "((string \<times> string) \<times> Cached) list"
    by (induction m) (auto simp: fun_eq_iff)
  then show ?thesis by (auto simp: entries_remove_def fun_eq_iff split: option.splits)
qed

lemma entries_remove_ok:
  assumes "cache_ok e"
  shows "cache_ok (entries_remove key e)"
proof (cases "map_of (ent_map e) key")
  case (Some old)
  define m where "m = filter (\<lambda>(k, _). k \<noteq> key) (ent_map e)"
  have "length m \<le> length (ent_map e)" by (simp add: m_def)
  moreover have "distinct (map fst m)" using assms by (simp add: cache_ok_def distinct_map_filter m_def)
  moreover have "ent_bytes e = weight old + sum_list (map (weight \<circ> snd) m)"
    using sum_weights_remove [OF _ Some] assms by (simp add: cache_ok_def m_def)
  ultimately show ?thesis
    using assms Some by (auto simp: cache_ok_def entries_remove_def m_def [symmetric])
qed (use assms in \<open>simp add: entries_remove_def\<close>)

lemma store_key_ok:
  assumes "cache_ok e0"
  shows "cache_ok (store_key key cached e0)"
proof -
  define e where "e = entries_remove key e0"
  have ok: "cache_ok e" unfolding e_def by (rule entries_remove_ok [OF assms])
  have "map_of (ent_map e) key = None" by (simp add: e_def entries_remove_map)
  then have nk: "key \<notin> fst ` set (ent_map e)" by (simp add: map_of_eq_None_iff)
  show ?thesis
    using ok nk unfolding store_key_def e_def [symmetric] Let_def
    by (auto simp: cache_ok_def PREPARED_CACHE_CAPACITY_def)
qed

lemma foldl_remove:
  "cache_ok e \<Longrightarrow> cache_ok (foldl (\<lambda>e key. entries_remove key e) e ks)"
  "map_of (ent_map (foldl (\<lambda>e key. entries_remove key e) e ks)) = (\<lambda>k. if k \<in> set ks then None else map_of (ent_map e) k)"
  by (induction ks arbitrary: e) (auto simp: entries_remove_ok entries_remove_map fun_eq_iff)

lemma evict_ok: "cache_ok e \<Longrightarrow> cache_ok (evict_interpreter i e)"
  by (simp add: evict_interpreter_def foldl_remove)

lemma evict_map:
  "map_of (ent_map (evict_interpreter i e)) = (\<lambda>k. if fst k = i then None else map_of (ent_map e) k)"
  by (force simp: evict_interpreter_def foldl_remove fun_eq_iff map_of_eq_None_iff)

lemma store_key_map:
  "map_of (ent_map (store_key key cached e)) key = Some cached"
  "k \<noteq> key \<Longrightarrow> map_of (ent_map (store_key key cached e)) k = None \<or>
     map_of (ent_map (store_key key cached e)) k = map_of (ent_map e) k"
proof -
  obtain m b where s: "ent_map (store_key key cached e) = m @ [(key, cached)]"
    and m: "m = [] \<or> m = ent_map (entries_remove key e)"
    by (auto simp: store_key_def Let_def)
  from m entries_remove_map [of key e] have "map_of m key = None" by auto
  then show "map_of (ent_map (store_key key cached e)) key = Some cached" by (simp add: s map_add_def)
  from m entries_remove_map [of key e]
  show "k \<noteq> key \<Longrightarrow> map_of (ent_map (store_key key cached e)) k = None \<or>
     map_of (ent_map (store_key key cached e)) k = map_of (ent_map e) k"
    by (auto simp: s map_add_def split: option.splits)
qed

section \<open>Properties\<close>

datatype cache_op = StoreOp string string Cached | ForgetOp string string | EvictOp string

fun cache_step :: "(string \<Rightarrow> string) \<Rightarrow> Entries \<Rightarrow> cache_op \<Rightarrow> Entries" where
  "cache_step h e (StoreOp i src a) = snd (cache_store h i src a e)"
| "cache_step h e (ForgetOp i src) = cache_forget h i src e"
| "cache_step h e (EvictOp i) = evict_interpreter i e"

definition cache_run :: "(string \<Rightarrow> string) \<Rightarrow> cache_op list \<Rightarrow> Entries" where
  "cache_run h ops = foldl (cache_step h) cache_default ops"

lemma cache_run_ok: "cache_ok (cache_run h ops)"
proof (induction ops rule: rev_induct)
  case Nil
  then show ?case by (simp add: cache_run_def cache_default_def cache_ok_def)
next
  case (snoc a ops)
  then show ?case
    by (cases a) (simp_all add: cache_run_def cache_store_def cache_forget_def store_key_ok entries_remove_ok evict_ok)
qed

text \<open>
  Property C29. The cache stays within its bounds and its byte count is exact, after any sequence
  of stores, forgets and evictions: at most 1024 entries, and at most 64 MiB of artifacts unless a
  single larger one is all it holds.
\<close>

theorem prepared_cache_bounded:
  "length (ent_map (cache_run h ops)) \<le> 1024 \<and>
   ent_bytes (cache_run h ops) = sum_list (map (weight \<circ> snd) (ent_map (cache_run h ops))) \<and>
   (length (ent_map (cache_run h ops)) \<le> 1 \<or> ent_bytes (cache_run h ops) \<le> 64 * 1024 * 1024)"
  using cache_run_ok [of h ops]
  unfolding cache_ok_def PREPARED_CACHE_CAPACITY_def PREPARED_CACHE_MAX_BYTES_def by blast

definition sized :: "nat \<Rightarrow> PreparedArtifact" where
  "sized n = \<lparr>art_interpreter = ''lua'', art_version = ''1'', art_engine = ''e'', art_format = ''f'',
     art_bytes = replicate n (CHR ''x''), art_source_map = None\<rparr>"

lemma weight_sized [simp]: "weight (Some (sized n)) = n"
  by (simp add: weight_def sized_def)

text \<open>
  Property C30. Replacing the artifact of a script already held can clear every other script: with
  one script at 1 byte and another at 64 MiB less one, saving the first again at 2 bytes leaves it alone
  in the cache. The comment on \<open>store\<close> says a replacement never starts the cache over; that is so
  for the number of entries only.
\<close>

theorem replacing_can_clear_the_cache:
  "let held = [StoreOp ''lua'' ''a'' (Some (sized 1)), StoreOp ''lua'' ''b'' (Some (sized (64 * 1024 * 1024 - 1)))] in
   cache_lookup id ''lua'' ''a'' (cache_run id held) = Some (Some (sized 1)) \<and>
   cache_lookup id ''lua'' ''b'' (cache_run id held) = Some (Some (sized (64 * 1024 * 1024 - 1))) \<and>
   cache_lookup id ''lua'' ''a'' (cache_run id (held @ [StoreOp ''lua'' ''a'' (Some (sized 2))])) = Some (Some (sized 2)) \<and>
   cache_lookup id ''lua'' ''b'' (cache_run id (held @ [StoreOp ''lua'' ''a'' (Some (sized 2))])) = None"
  by (simp add: Let_def cache_run_def cache_default_def cache_store_def cache_lookup_def store_key_def
      entries_remove_def PREPARED_CACHE_CAPACITY_def PREPARED_CACHE_MAX_BYTES_def)

end
