(* ===== verification/Plugin_Registry.thy ===== *)
theory Plugin_Registry
  imports Plugin_Order Prepared_Cache "HOL-Library.Word"
begin

text \<open>
  The registry of loaded plugins (src/plugin/mod.rs). An \<open>Arc\<close> is a plugin with its address, so
  that the identity the code compares is explicit; the hash maps are lists of their entries, or
  maps. The API surface of a plugin is a value of any type. \<open>None\<close> is a panic. The row
  \<open>register\<close> writes to the database is not part of the state: a failure to write it is only logged
  and the registry never reads it back. Nor is the compilation that \<open>install\<close> starts in the
  background.
\<close>

section \<open>State\<close>

type_synonym arc_plugin = "nat \<times> LoadedPlugin"

record 's PluginRegistry =
  reg_plugins :: "arc_plugin list"
  reg_next_arc :: nat
  reg_api_surfaces :: "string \<rightharpoonup> 's"
  reg_modules :: "string \<rightharpoonup> nat"
  reg_stamps :: "string \<rightharpoonup> arc_plugin \<times> ArtifactStamp"
  reg_prepared :: Entries
  reg_generation :: "64 word"

definition registry_new :: "'s PluginRegistry" where
  "registry_new = \<lparr>reg_plugins = [], reg_next_arc = 0, reg_api_surfaces = Map.empty,
     reg_modules = Map.empty, reg_stamps = Map.empty, reg_prepared = cache_default, reg_generation = 0\<rparr>"

section \<open>Entries\<close>

definition registry_get :: "string \<Rightarrow> 's PluginRegistry \<Rightarrow> arc_plugin option" where
  "registry_get pid reg = List.find (\<lambda>p. plugin_id (snd p) = pid) (reg_plugins reg)"

definition registry_list :: "'s PluginRegistry \<Rightarrow> arc_plugin list" where
  "registry_list reg = reg_plugins reg"

definition evict_module :: "string \<Rightarrow> 's PluginRegistry \<Rightarrow> 's PluginRegistry" where
  "evict_module pid reg = reg\<lparr>reg_modules := (reg_modules reg)(pid := None)\<rparr>"

definition cached_api_surface :: "string \<Rightarrow> 's PluginRegistry \<Rightarrow> 's option" where
  "cached_api_surface pid reg = reg_api_surfaces reg pid"

definition cache_api_surface :: "string \<Rightarrow> 's \<Rightarrow> 's PluginRegistry \<Rightarrow> 's PluginRegistry" where
  "cache_api_surface pid surface reg = reg\<lparr>reg_api_surfaces := (reg_api_surfaces reg)(pid \<mapsto> surface)\<rparr>"

definition invalidate_api_surface :: "string \<Rightarrow> 's PluginRegistry \<Rightarrow> 's PluginRegistry" where
  "invalidate_api_surface pid reg = reg\<lparr>reg_api_surfaces := (reg_api_surfaces reg)(pid := None)\<rparr>"

definition interpreter_changed :: "(string \<Rightarrow> string) \<Rightarrow> string \<Rightarrow> arc_plugin option \<Rightarrow> 's PluginRegistry
    \<Rightarrow> 's PluginRegistry" where
  "interpreter_changed hex_digest pid incoming reg =
     reg\<lparr>reg_stamps := (reg_stamps reg)(pid := map_option (\<lambda>p. (p, stamp_of hex_digest (snd p))) incoming),
         reg_prepared := evict_interpreter pid (reg_prepared reg),
         reg_generation := reg_generation reg + 1\<rparr>"

definition is_interpreter :: "arc_plugin option \<Rightarrow> bool" where
  "is_interpreter p \<longleftrightarrow> (case p of Some q \<Rightarrow> plugin_type (snd q) = Interpreter | None \<Rightarrow> False)"

definition register :: "(string \<Rightarrow> string) \<Rightarrow> LoadedPlugin \<Rightarrow> 's PluginRegistry \<Rightarrow> 's PluginRegistry" where
  "register hex_digest plugin reg =
     (let pid = plugin_id plugin;
          reg1 = evict_module pid (invalidate_api_surface pid reg);
          arc = (reg_next_arc reg1, plugin);
          previous = registry_get pid reg1;
          reg2 = reg1\<lparr>reg_plugins := filter (\<lambda>p. plugin_id (snd p) \<noteq> pid) (reg_plugins reg1) @ [arc],
                      reg_next_arc := reg_next_arc reg1 + 1\<rparr> in
      if plugin_type plugin = Interpreter then interpreter_changed hex_digest pid (Some arc) reg2
      else if is_interpreter previous then interpreter_changed hex_digest pid None reg2
      else reg2)"

definition remove_plugin :: "(string \<Rightarrow> string) \<Rightarrow> string \<Rightarrow> 's PluginRegistry
    \<Rightarrow> arc_plugin option \<times> 's PluginRegistry" where
  "remove_plugin hex_digest pid reg =
     (let reg1 = evict_module pid (invalidate_api_surface pid reg);
          removed = registry_get pid reg1;
          reg2 = reg1\<lparr>reg_plugins := filter (\<lambda>p. plugin_id (snd p) \<noteq> pid) (reg_plugins reg1)\<rparr> in
      (removed, if is_interpreter removed then interpreter_changed hex_digest pid None reg2 else reg2))"

section \<open>Prepared artifacts\<close>

definition artifact_stamp :: "string \<Rightarrow> 's PluginRegistry \<Rightarrow> ArtifactStamp option" where
  "artifact_stamp pid reg = map_option snd (reg_stamps reg pid)"

definition artifact_stamp_for :: "arc_plugin \<Rightarrow> 's PluginRegistry \<Rightarrow> ArtifactStamp option" where
  "artifact_stamp_for p reg =
     (case reg_stamps reg (plugin_id (snd p)) of
        Some (current, stamp) \<Rightarrow> if fst current = fst p then Some stamp else None
      | None \<Rightarrow> None)"

definition store_prepared :: "(string \<Rightarrow> string) \<Rightarrow> arc_plugin \<Rightarrow> string \<Rightarrow> PreparedArtifact option
    \<Rightarrow> 's PluginRegistry \<Rightarrow> Cached \<times> 's PluginRegistry" where
  "store_prepared source_hash p source artifact reg =
     (case artifact_stamp_for p reg of
        None \<Rightarrow> (None, reg)
      | Some stamp \<Rightarrow>
          let (cached, entries) = cache_store source_hash (plugin_id (snd p)) source
                (map_option (stamp_apply stamp) artifact) (reg_prepared reg)
          in (cached, reg\<lparr>reg_prepared := entries\<rparr>))"

section \<open>Installing and uninstalling\<close>

definition registry_nodes :: "'s PluginRegistry \<Rightarrow> PluginNode list" where
  "registry_nodes reg = map (node_of \<circ> snd) (reg_plugins reg)"

definition other_plugin :: "LoadedPlugin \<Rightarrow> (LoadedPlugin \<Rightarrow> bool) \<Rightarrow> 's PluginRegistry \<Rightarrow> LoadedPlugin option" where
  "other_plugin plugin claims reg =
     List.find (\<lambda>p. plugin_id p \<noteq> plugin_id plugin \<and> claims p) (map snd (reg_plugins reg))"

definition namespace_clash :: "LoadedPlugin \<Rightarrow> 's PluginRegistry \<Rightarrow> GraphError option" where
  "namespace_clash plugin reg =
     (case plugin_namespace plugin of
        None \<Rightarrow> None
      | Some ns \<Rightarrow> map_option (\<lambda>p. NamespaceTaken ns (plugin_id p))
          (other_plugin plugin (\<lambda>p. plugin_namespace p = Some ns) reg))"

definition language_clash :: "LoadedPlugin \<Rightarrow> 's PluginRegistry \<Rightarrow> GraphError option" where
  "language_clash plugin reg =
     (case plugin_language_id plugin of
        None \<Rightarrow> None
      | Some lang \<Rightarrow> map_option (\<lambda>p. LanguageIdTaken lang (plugin_id p))
          (other_plugin plugin (\<lambda>p. plugin_language_id p = Some lang) reg))"

fun extension_clash :: "LoadedPlugin \<Rightarrow> 's PluginRegistry \<Rightarrow> string list \<Rightarrow> GraphError option" where
  "extension_clash plugin reg [] = None"
| "extension_clash plugin reg (ext # exts) =
     (case other_plugin plugin (\<lambda>p. ext \<in> set (plugin_extensions p)) reg of
        Some p \<Rightarrow> Some (ExtensionTaken ext (plugin_id p))
      | None \<Rightarrow> extension_clash plugin reg exts)"

definition install :: "semver \<Rightarrow> (string \<Rightarrow> string) \<Rightarrow> LoadedPlugin \<Rightarrow> 's PluginRegistry
    \<Rightarrow> ((GraphError + unit) \<times> 's PluginRegistry) option" where
  "install semver hex_digest plugin reg =
     (case namespace_clash plugin reg of Some e \<Rightarrow> Some (Err e, reg) | None \<Rightarrow>
      case language_clash plugin reg of Some e \<Rightarrow> Some (Err e, reg) | None \<Rightarrow>
      case extension_clash plugin reg (plugin_extensions plugin) of Some e \<Rightarrow> Some (Err e, reg) | None \<Rightarrow>
      case validate_install semver (registry_nodes reg) (node_of plugin) of
        None \<Rightarrow> None
      | Some (Err e) \<Rightarrow> Some (Err e, reg)
      | Some (Ok _) \<Rightarrow> Some (Ok (), register hex_digest plugin reg))"

definition remove_all :: "(string \<Rightarrow> string) \<Rightarrow> string list \<Rightarrow> 's PluginRegistry \<Rightarrow> 's PluginRegistry" where
  "remove_all hex_digest pids reg = foldl (\<lambda>r pid. snd (remove_plugin hex_digest pid r)) reg pids"

definition uninstall :: "(string \<Rightarrow> string) \<Rightarrow> string \<Rightarrow> bool \<Rightarrow> 's PluginRegistry
    \<Rightarrow> ((GraphError + string list) \<times> 's PluginRegistry) option" where
  "uninstall hex_digest pid force reg =
     (if registry_get pid reg = None then Some (Ok [], reg)
      else case (if force then map_option Ok (transitive_dependents (registry_nodes reg) pid)
                 else Some (map_sum (\<lambda>e. e) (\<lambda>_. []) (validate_remove (registry_nodes reg) pid))) of
        None \<Rightarrow> None
      | Some (Err e) \<Rightarrow> Some (Err e, reg)
      | Some (Ok pids) \<Rightarrow> Some (Ok (pids @ [pid]), remove_all hex_digest (pids @ [pid]) reg))"

section \<open>Reloading\<close>

text \<open>
  The part of the reload handler that changes the registry. The installed plugin is removed before
  its address is written to the database, which may fail, and before the new build is checked.
  Nothing compares the new build's id with the one that was removed.
\<close>

datatype ReloadError = PersistFailed | ReloadRefused GraphError

definition reload_plugin :: "semver \<Rightarrow> (string \<Rightarrow> string) \<Rightarrow> string \<Rightarrow> bool \<Rightarrow> LoadedPlugin \<Rightarrow> 's PluginRegistry
    \<Rightarrow> ((ReloadError + unit) \<times> 's PluginRegistry) option" where
  "reload_plugin semver hex_digest pid persisted plugin reg =
     (let (_, reg1) = remove_plugin hex_digest pid reg in
      if \<not> persisted then Some (Err PersistFailed, reg1)
      else case install semver hex_digest plugin reg1 of
        None \<Rightarrow> None
      | Some (Err e, reg2) \<Rightarrow> Some (Err (ReloadRefused e), reg2)
      | Some (Ok _, reg2) \<Rightarrow> Some (Ok (), reg2))"

section \<open>Batches\<close>

definition pending_of :: "LoadedPlugin list \<Rightarrow> LoadedPlugin list" where
  "pending_of plugins =
     foldl (\<lambda>ps p. filter (\<lambda>q. plugin_id q \<noteq> plugin_id p) ps @ [p]) [] plugins"

fun drop_cycle :: "string list \<Rightarrow> string list \<Rightarrow> LoadedPlugin list \<times> (string \<times> GraphError) list
    \<Rightarrow> LoadedPlugin list \<times> (string \<times> GraphError) list" where
  "drop_cycle cycle [] (pending, failures) = (pending, failures)"
| "drop_cycle cycle (pid # pids) (pending, failures) =
     (if pid \<in> plugin_id ` set pending
      then drop_cycle cycle pids (filter (\<lambda>p. plugin_id p \<noteq> pid) pending, failures @ [(pid, Cycle cycle)])
      else drop_cycle cycle pids (pending, failures))"

fun install_in_order :: "semver \<Rightarrow> (string \<Rightarrow> string) \<Rightarrow> string list \<Rightarrow> LoadedPlugin list
    \<Rightarrow> (string \<times> GraphError) list \<Rightarrow> 's PluginRegistry \<Rightarrow> ((string \<times> GraphError) list \<times> 's PluginRegistry) option" where
  "install_in_order semver hex_digest [] pending failures reg = Some (failures, reg)"
| "install_in_order semver hex_digest (pid # pids) pending failures reg =
     (case List.find (\<lambda>p. plugin_id p = pid) pending of
        None \<Rightarrow> install_in_order semver hex_digest pids pending failures reg
      | Some plugin \<Rightarrow>
          let pending' = filter (\<lambda>p. plugin_id p \<noteq> pid) pending in
          (case install semver hex_digest plugin reg of
             None \<Rightarrow> None
           | Some (Err e, reg') \<Rightarrow> install_in_order semver hex_digest pids pending' (failures @ [(pid, e)]) reg'
           | Some (Ok _, reg') \<Rightarrow> install_in_order semver hex_digest pids pending' failures reg'))"

definition batch_nodes :: "LoadedPlugin list \<Rightarrow> 's PluginRegistry \<Rightarrow> PluginNode list" where
  "batch_nodes pending reg =
     filter (\<lambda>n. node_id n \<notin> plugin_id ` set pending) (registry_nodes reg) @ map node_of pending"

definition register_all :: "semver \<Rightarrow> (string \<Rightarrow> string) \<Rightarrow> LoadedPlugin list \<Rightarrow> 's PluginRegistry
    \<Rightarrow> ((string \<times> GraphError) list \<times> 's PluginRegistry) option" where
  "register_all semver hex_digest plugins reg =
     (let pending = pending_of plugins; nodes = batch_nodes pending reg in
      case (case load_order nodes of
              None \<Rightarrow> None
            | Some (Ok order) \<Rightarrow> Some (order, pending, [])
            | Some (Err (Cycle cycle)) \<Rightarrow>
                let (pending', failures) = drop_cycle cycle cycle (pending, []);
                    remaining = filter (\<lambda>n. node_id n \<notin> set cycle) nodes in
                (case load_order remaining of
                   None \<Rightarrow> None
                 | Some (Ok order) \<Rightarrow> Some (order, pending', failures)
                 | Some (Err _) \<Rightarrow> Some ([], pending', failures))
            | Some (Err other) \<Rightarrow> Some ([], [], map (\<lambda>p. (plugin_id p, other)) pending)) of
        None \<Rightarrow> None
      | Some (order, pending', failures) \<Rightarrow>
          map_option (\<lambda>(fs, reg'). (sort_key fst fs, reg'))
            (install_in_order semver hex_digest order pending' failures reg))"

section \<open>Queries\<close>

definition list_by_type :: "PluginType \<Rightarrow> 's PluginRegistry \<Rightarrow> arc_plugin list" where
  "list_by_type t reg = filter (\<lambda>p. plugin_type (snd p) = t) (reg_plugins reg)"

definition get_library_by_namespace :: "string \<Rightarrow> 's PluginRegistry \<Rightarrow> arc_plugin option" where
  "get_library_by_namespace ns reg = List.find (\<lambda>p. plugin_namespace (snd p) = Some ns) (reg_plugins reg)"

definition get_interpreter_by_language :: "string \<Rightarrow> 's PluginRegistry \<Rightarrow> arc_plugin option" where
  "get_interpreter_by_language lang reg = List.find (\<lambda>p. plugin_language_id (snd p) = Some lang) (reg_plugins reg)"

end
