(* ===== verification/Registry_Invariant.thy ===== *)
theory Registry_Invariant
  imports Plugin_Registry
begin

text \<open>
  What the plugin registry keeps true: dependencies present, satisfied and acyclic, names claimed
  once, and every cached artifact made by the build that is registered.
\<close>

section \<open>The graph\<close>

definition edge_ok :: "semver \<Rightarrow> PluginNode list \<Rightarrow> PluginDependency \<Rightarrow> bool" where
  "edge_ok semver nodes d \<longleftrightarrow>
     (case by_id nodes (dep_id d) of
        Some t \<Rightarrow> semver (dep_version d) (node_version t) = Some True
      | None \<Rightarrow> False)"

definition graph_ok :: "semver \<Rightarrow> PluginNode list \<Rightarrow> bool" where
  "graph_ok semver nodes \<longleftrightarrow> distinct_ids nodes \<and> acyclic (dep_edges nodes) \<and>
     (\<forall>n \<in> set nodes. \<forall>d \<in> set (node_dependencies n). edge_ok semver nodes d)"

lemma first_err_Ok: "first_err rs = Ok () \<longleftrightarrow> (\<forall>r \<in> set rs. r = Ok ())"
  by (induction rs) (auto split: sum.splits)

lemma check_edge_Ok: "check_edge semver n d t = Ok () \<longleftrightarrow> semver (dep_version d) (node_version t) = Some True"
  by (auto simp: check_edge_def split: option.splits)

lemma distinct_ids_replace: "distinct_ids installed \<Longrightarrow> distinct_ids (replace_node installed c)"
  by (auto simp: distinct_ids_def replace_node_def distinct_map_filter)

lemma by_id_replace:
  "by_id (replace_node installed c) x = (if x = node_id c then Some c else by_id installed x)"
proof -
  have "map_of (rev (map (\<lambda>n. (node_id n, n)) (filter (\<lambda>n. node_id n \<noteq> node_id c) installed))) x =
    map_of (rev (map (\<lambda>n. (node_id n, n)) installed)) x" if "x \<noteq> node_id c"
    using that by (induction installed rule: rev_induct) auto
  then show ?thesis by (auto simp: by_id_def replace_node_def)
qed

lemma set_replace: "set (replace_node installed c) = insert c {n \<in> set installed. node_id n \<noteq> node_id c}"
  by (auto simp: replace_node_def)

lemma validate_install_edges:
  assumes "graph_ok semver installed"
  shows "(\<forall>n \<in> set (replace_node installed c). \<forall>d \<in> set (node_dependencies n). edge_ok semver (replace_node installed c) d) \<longleftrightarrow>
    first_err (map (\<lambda>dep. case by_id (replace_node installed c) (dep_id dep) of
        None \<Rightarrow> Err (MissingDependency (node_id c) (dep_id dep))
      | Some target \<Rightarrow> check_edge semver c dep target) (node_dependencies c)) = Ok () \<and>
    first_err (concat (map (\<lambda>node. map (\<lambda>dep. check_edge semver node dep c)
        (filter (\<lambda>d. dep_id d = node_id c) (node_dependencies node)))
      (filter (\<lambda>n. node_id n \<noteq> node_id c) (replace_node installed c)))) = Ok ()"
    (is "?all \<longleftrightarrow> ?own \<and> ?others")
proof -
  have own: "?own \<longleftrightarrow> (\<forall>d \<in> set (node_dependencies c). edge_ok semver (replace_node installed c) d)"
    by (auto simp: first_err_Ok edge_ok_def check_edge_Ok split: option.splits)
  have old: "edge_ok semver installed d" if "n \<in> set installed" "d \<in> set (node_dependencies n)" for n d
    using assms that by (auto simp: graph_ok_def)
  have "?others \<longleftrightarrow> (\<forall>n \<in> set installed. node_id n \<noteq> node_id c \<longrightarrow>
      (\<forall>d \<in> set (node_dependencies n). edge_ok semver (replace_node installed c) d))"
    using old by (auto simp: first_err_Ok check_edge_Ok set_replace edge_ok_def by_id_replace)
  with own show ?thesis by (auto simp: set_replace)
qed

lemma validate_install_iff:
  assumes "graph_ok semver installed"
  shows "validate_install semver installed c \<noteq> None"
    and "validate_install semver installed c = Some (Ok ()) \<longleftrightarrow> graph_ok semver (replace_node installed c)"
proof -
  let ?nodes = "replace_node installed c"
  have d: "distinct_ids ?nodes" using assms distinct_ids_replace by (simp add: graph_ok_def)
  have lo: "load_order ?nodes \<noteq> None"
    "(\<exists>order. load_order ?nodes = Some (Ok order)) \<longleftrightarrow> acyclic (dep_edges ?nodes)"
    using load_order_cases [OF d] load_order_acyclic [OF d] load_order_ok_acyclic [OF d]
    by (metis option.distinct(1))+
  then show "validate_install semver installed c \<noteq> None"
    by (auto simp: validate_install_def Let_def split: sum.split)
  have "validate_install semver installed c = Some (Ok ()) \<longleftrightarrow>
    (\<forall>n \<in> set ?nodes. \<forall>d \<in> set (node_dependencies n). edge_ok semver ?nodes d) \<and>
    (\<exists>order. load_order ?nodes = Some (Ok order))"
    unfolding validate_install_edges [OF assms] validate_install_def Let_def
    by (cases "load_order ?nodes") (auto split: sum.splits simp: map_sum_def)
  then show "validate_install semver installed c = Some (Ok ()) \<longleftrightarrow> graph_ok semver ?nodes"
    unfolding graph_ok_def lo(2) using d by blast
qed

lemma by_id_filter:
  assumes "distinct_ids nodes"
  shows "by_id (filter P nodes) x = (case by_id nodes x of Some n \<Rightarrow> if P n then Some n else None | None \<Rightarrow> None)"
proof (cases "by_id nodes x")
  case None
  then have "x \<notin> node_id ` set (filter P nodes)" by (auto simp: by_id_None)
  with None show ?thesis by (simp add: by_id_None [THEN iffD2])
next
  case (Some n)
  then have n: "n \<in> set nodes" "node_id n = x" using by_id_SomeD by auto
  show ?thesis
  proof (cases "P n")
    case True
    with n by_id_node [OF distinct_ids_filter [OF assms], of n P] Some show ?thesis by simp
  next
    case False
    have "x \<notin> node_id ` set (filter P nodes)"
    proof
      assume "x \<in> node_id ` set (filter P nodes)"
      then obtain m where m: "m \<in> set nodes" "P m" "node_id m = x" by auto
      with by_id_node [OF assms m(1)] Some have "m = n" by simp
      with m False show False by simp
    qed
    with Some False show ?thesis by (simp add: by_id_None [THEN iffD2])
  qed
qed

lemma graph_ok_remove:
  assumes "graph_ok semver nodes" and closed: "\<And>x y. (x, y) \<in> requires nodes \<Longrightarrow> y \<in> R \<Longrightarrow> x \<in> R"
  shows "graph_ok semver (filter (\<lambda>n. node_id n \<notin> R) nodes)"
proof -
  let ?f = "filter (\<lambda>n. node_id n \<notin> R) nodes"
  from assms(1) have d: "distinct_ids nodes" by (simp add: graph_ok_def)
  have "edge_ok semver ?f dep" if "n \<in> set nodes" "node_id n \<notin> R" "dep \<in> set (node_dependencies n)" for n dep
  proof -
    have "(node_id n, dep_id dep) \<in> requires nodes" using that by (auto simp: requires_def dep_ids_def)
    with closed that(2) have "dep_id dep \<notin> R" by blast
    moreover have "edge_ok semver nodes dep" using assms(1) that by (auto simp: graph_ok_def)
    ultimately show ?thesis
      by (auto simp: edge_ok_def by_id_filter [OF d] dest: by_id_SomeD split: option.splits)
  qed
  moreover have "acyclic (dep_edges ?f)"
    using assms(1) acyclic_subset [OF _ dep_edges_filter [OF d]] by (simp add: graph_ok_def)
  ultimately show ?thesis using distinct_ids_filter [OF d] by (auto simp: graph_ok_def)
qed

section \<open>Registry steps\<close>

lemma interpreter_changed_fields [simp]:
  "reg_plugins (interpreter_changed h pid i reg) = reg_plugins reg"
  "reg_next_arc (interpreter_changed h pid i reg) = reg_next_arc reg"
  "reg_stamps (interpreter_changed h pid i reg) =
     (reg_stamps reg)(pid := map_option (\<lambda>p. (p, stamp_of h (snd p))) i)"
  "reg_prepared (interpreter_changed h pid i reg) = evict_interpreter pid (reg_prepared reg)"
  "registry_get x (interpreter_changed h pid i reg) = registry_get x reg"
  by (simp_all add: interpreter_changed_def registry_get_def)

lemma evict_fields [simp]:
  "reg_plugins (evict_module pid (invalidate_api_surface pid reg)) = reg_plugins reg"
  "reg_next_arc (evict_module pid (invalidate_api_surface pid reg)) = reg_next_arc reg"
  "reg_stamps (evict_module pid (invalidate_api_surface pid reg)) = reg_stamps reg"
  "reg_prepared (evict_module pid (invalidate_api_surface pid reg)) = reg_prepared reg"
  "registry_get x (evict_module pid (invalidate_api_surface pid reg)) = registry_get x reg"
  by (simp_all add: evict_module_def invalidate_api_surface_def registry_get_def)

lemma register_plugins:
  "reg_plugins (register h p reg) = filter (\<lambda>q. plugin_id (snd q) \<noteq> plugin_id p) (reg_plugins reg) @ [(reg_next_arc reg, p)]"
  "reg_next_arc (register h p reg) = reg_next_arc reg + 1"
  by (simp_all add: register_def Let_def)

lemma remove_plugins:
  "reg_plugins (snd (remove_plugin h pid reg)) = filter (\<lambda>q. plugin_id (snd q) \<noteq> pid) (reg_plugins reg)"
  "reg_next_arc (snd (remove_plugin h pid reg)) = reg_next_arc reg"
  by (simp_all add: remove_plugin_def Let_def)

lemma find_filter_other:
  "List.find P (filter Q xs) = List.find (\<lambda>x. P x \<and> Q x) xs"
  by (induction xs) auto

lemma find_append: "List.find P (xs @ ys) = (case List.find P xs of Some x \<Rightarrow> Some x | None \<Rightarrow> List.find P ys)"
  by (induction xs) auto

lemma find_false: "(\<And>x. \<not> P x) \<Longrightarrow> List.find P xs = None"
  by (simp add: find_None_iff)

lemma registry_get_register:
  "registry_get x (register h p reg) = (if x = plugin_id p then Some (reg_next_arc reg, p) else registry_get x reg)"
proof (cases "x = plugin_id p")
  case True
  then show ?thesis
    by (simp add: registry_get_def register_plugins find_append find_filter_other find_false)
next
  case False
  then have "(\<lambda>q. plugin_id (snd q) = x \<and> plugin_id (snd q) \<noteq> plugin_id p) = (\<lambda>q. plugin_id (snd (q :: arc_plugin)) = x)"
    by auto
  with False show ?thesis
    by (simp add: registry_get_def register_plugins find_append find_filter_other split: option.splits)
qed

lemma registry_get_remove:
  "registry_get x (snd (remove_plugin h pid reg)) = (if x = pid then None else registry_get x reg)"
proof (cases "x = pid")
  case True
  then show ?thesis by (simp add: registry_get_def remove_plugins find_filter_other find_false)
next
  case False
  then have "(\<lambda>q. plugin_id (snd q) = x \<and> plugin_id (snd q) \<noteq> pid) = (\<lambda>q. plugin_id (snd (q :: arc_plugin)) = x)"
    by auto
  with False show ?thesis by (simp add: registry_get_def remove_plugins find_filter_other)
qed

lemma register_nodes: "registry_nodes (register h p reg) = replace_node (registry_nodes reg) (node_of p)"
  by (simp add: registry_nodes_def register_plugins replace_node_def filter_map comp_def)

lemma remove_nodes: "registry_nodes (snd (remove_plugin h pid reg)) = filter (\<lambda>n. node_id n \<noteq> pid) (registry_nodes reg)"
  by (simp add: registry_nodes_def remove_plugins filter_map comp_def)

lemma remove_all_plugins:
  "reg_plugins (remove_all h pids reg) = filter (\<lambda>q. plugin_id (snd q) \<notin> set pids) (reg_plugins reg)"
  by (induction pids arbitrary: reg) (auto simp: remove_all_def remove_plugins intro!: filter_cong)

lemma remove_all_nodes: "registry_nodes (remove_all h pids reg) = filter (\<lambda>n. node_id n \<notin> set pids) (registry_nodes reg)"
  by (simp add: registry_nodes_def remove_all_plugins filter_map comp_def)

section \<open>Names\<close>

definition names_apart :: "LoadedPlugin \<Rightarrow> LoadedPlugin \<Rightarrow> bool" where
  "names_apart p q \<longleftrightarrow>
     (plugin_namespace p = None \<or> plugin_namespace p \<noteq> plugin_namespace q) \<and>
     (plugin_language_id p = None \<or> plugin_language_id p \<noteq> plugin_language_id q) \<and>
     set (plugin_extensions p) \<inter> set (plugin_extensions q) = {}"

definition names_ok :: "'s PluginRegistry \<Rightarrow> bool" where
  "names_ok reg \<longleftrightarrow> (\<forall>p \<in> set (reg_plugins reg). \<forall>q \<in> set (reg_plugins reg).
     plugin_id (snd p) \<noteq> plugin_id (snd q) \<longrightarrow> names_apart (snd p) (snd q))"

definition registry_ok :: "semver \<Rightarrow> 's PluginRegistry \<Rightarrow> bool" where
  "registry_ok semver reg \<longleftrightarrow> graph_ok semver (registry_nodes reg) \<and> names_ok reg"

lemma other_plugin_None:
  "other_plugin p claims reg = None \<longleftrightarrow>
     (\<forall>q \<in> set (reg_plugins reg). plugin_id (snd q) \<noteq> plugin_id p \<longrightarrow> \<not> claims (snd q))"
  by (auto simp: other_plugin_def find_None_iff)

lemma extension_clash_None:
  "extension_clash p reg exts = None \<longleftrightarrow>
     (\<forall>ext \<in> set exts. other_plugin p (\<lambda>q. ext \<in> set (plugin_extensions q)) reg = None)"
  by (induction exts) (auto split: option.splits)

lemma no_clash_iff:
  "namespace_clash p reg = None \<and> language_clash p reg = None \<and>
     extension_clash p reg (plugin_extensions p) = None \<longleftrightarrow>
   (\<forall>q \<in> set (reg_plugins reg). plugin_id (snd q) \<noteq> plugin_id p \<longrightarrow> names_apart p (snd q))"
proof -
  have ns: "namespace_clash p reg = None \<longleftrightarrow> (\<forall>q \<in> set (reg_plugins reg). plugin_id (snd q) \<noteq> plugin_id p \<longrightarrow>
      plugin_namespace p = None \<or> plugin_namespace p \<noteq> plugin_namespace (snd q))"
    by (cases "plugin_namespace p") (auto simp: namespace_clash_def other_plugin_None)
  have lang: "language_clash p reg = None \<longleftrightarrow> (\<forall>q \<in> set (reg_plugins reg). plugin_id (snd q) \<noteq> plugin_id p \<longrightarrow>
      plugin_language_id p = None \<or> plugin_language_id p \<noteq> plugin_language_id (snd q))"
    by (cases "plugin_language_id p") (auto simp: language_clash_def other_plugin_None)
  show ?thesis
    unfolding ns lang extension_clash_None other_plugin_None names_apart_def by blast
qed

lemma names_apart_sym: "names_apart p q \<longleftrightarrow> names_apart q p"
  by (auto simp: names_apart_def)

lemma install_cases:
  assumes "registry_ok semver reg"
  obtains (refused) e where "install semver h p reg = Some (Err e, reg)"
  | (installed) "install semver h p reg = Some (Ok (), register h p reg)"
      "registry_ok semver (register h p reg)"
proof -
  from assms have g: "graph_ok semver (registry_nodes reg)" and n: "names_ok reg" by (auto simp: registry_ok_def)
  obtain r where v: "validate_install semver (registry_nodes reg) (node_of p) = Some r"
    using validate_install_iff(1) [OF g] by blast
  show thesis
  proof (cases "namespace_clash p reg = None \<and> language_clash p reg = None \<and>
      extension_clash p reg (plugin_extensions p) = None \<and> r = Ok ()")
    case True
    then have "graph_ok semver (registry_nodes (register h p reg))"
      using v validate_install_iff(2) [OF g] by (simp add: register_nodes)
    moreover have "\<forall>q \<in> set (reg_plugins reg). plugin_id (snd q) \<noteq> plugin_id p \<longrightarrow>
        names_apart p (snd q) \<and> names_apart (snd q) p"
      using True no_clash_iff [of p reg] names_apart_sym by blast
    then have "names_ok (register h p reg)"
      using n unfolding names_ok_def register_plugins by fastforce
    ultimately show thesis using True v installed by (simp add: install_def registry_ok_def)
  next
    case False
    with v have "\<exists>e. install semver h p reg = Some (Err e, reg)"
      unfolding install_def by (cases r) (auto split: option.split)
    with refused show thesis by blast
  qed
qed

section \<open>Removal\<close>

lemma registry_get_None: "registry_get pid reg = None \<longleftrightarrow> pid \<notin> node_id ` set (registry_nodes reg)"
  by (force simp: registry_get_def find_None_iff registry_nodes_def)

lemma remove_all_ok:
  assumes "registry_ok semver reg"
    and "\<And>x y. (x, y) \<in> requires (registry_nodes reg) \<Longrightarrow> y \<in> set pids \<Longrightarrow> x \<in> set pids"
  shows "registry_ok semver (remove_all h pids reg)"
  using assms graph_ok_remove [OF _ assms(2)]
  by (auto simp: registry_ok_def remove_all_nodes names_ok_def remove_all_plugins)

lemma removal_prefix_closed:
  assumes ds: "set ds = {x. (x, pid) \<in> (requires nodes)\<^sup>+}" "removal_order nodes ds"
    and xy: "(x, y) \<in> requires nodes" "y \<in> set (take k (ds @ [pid]))"
  shows "x \<in> set (take k (ds @ [pid]))"
proof -
  have in_take: "z \<in> set (take k xs) \<longleftrightarrow> (\<exists>j. j < length xs \<and> j < k \<and> xs ! j = z)" for z :: string and xs
    by (auto simp: in_set_conv_nth)
  from xy(2) obtain j where j: "j < length (ds @ [pid])" "j < k" "(ds @ [pid]) ! j = y"
    unfolding in_take by blast
  have y: "y \<in> insert pid (set ds)" using xy(2) by (auto dest: in_set_takeD)
  with xy(1) ds(1) have "x \<in> set ds" by (auto intro: trancl_into_trancl2)
  then obtain i where i: "i < length ds" "ds ! i = x" by (auto simp: in_set_conv_nth)
  have "i < j"
  proof (cases "j < length ds")
    case True
    with i j xy(1) ds(2) show ?thesis by (auto simp: removal_order_def nth_append)
  next
    case False
    with i show ?thesis by simp
  qed
  with i j show ?thesis unfolding in_take by (intro exI [of _ i]) (auto simp: nth_append)
qed

lemma no_dependents:
  assumes "validate_remove nodes pid = Ok ()"
  shows "(x, pid) \<notin> requires nodes"
  using assms direct_dependents_iff [of x nodes pid]
  by (auto simp: validate_remove_def Let_def split: if_splits)

text \<open>What \<open>uninstall\<close> answers, and that every prefix of its removals leaves the registry in order.\<close>

lemma uninstall_cases:
  assumes "registry_ok semver reg"
  obtains (absent) "registry_get pid reg = None" "uninstall h pid force reg = Some (Ok [], reg)"
  | (refused) "\<not> force" "direct_dependents (registry_nodes reg) pid \<noteq> []"
      "uninstall h pid force reg =
        Some (Err (HasDependents pid (direct_dependents (registry_nodes reg) pid)), reg)"
  | (removed) ds where "uninstall h pid force reg = Some (Ok (ds @ [pid]), remove_all h (ds @ [pid]) reg)"
      "registry_get pid reg \<noteq> None"
      "set ds = {x. (x, pid) \<in> (requires (registry_nodes reg))\<^sup>+}"
      "\<And>k. registry_ok semver (remove_all h (take k (ds @ [pid])) reg)"
proof -
  from assms have g: "distinct_ids (registry_nodes reg)" "acyclic (dep_edges (registry_nodes reg))"
    by (auto simp: registry_ok_def graph_ok_def)
  note closed = remove_all_ok [OF assms removal_prefix_closed]
  show thesis
  proof (cases "registry_get pid reg")
    case None
    with absent show thesis by (simp add: uninstall_def)
  next
    case (Some a)
    show thesis
    proof (cases force)
      case True
      from transitive_dependents_acyclic [OF g, of pid] obtain ds where
        d: "transitive_dependents (registry_nodes reg) pid = Some ds"
        "set ds = {x. (x, pid) \<in> (requires (registry_nodes reg))\<^sup>+}" "removal_order (registry_nodes reg) ds" .
      from removed [of ds] closed [OF d(2,3)] d Some True show thesis by (simp add: uninstall_def)
    next
      case False
      show thesis
      proof (cases "validate_remove (registry_nodes reg) pid")
        case (Inl e)
        with refused Some False show thesis
          by (auto simp: uninstall_def validate_remove_def Let_def split: if_splits)
      next
        case (Inr u)
        then have "(x, pid) \<notin> (requires (registry_nodes reg))\<^sup>+" for x
          using no_dependents [of "registry_nodes reg" pid] by (auto dest: tranclD2)
        then have "set [] = {x. (x, pid) \<in> (requires (registry_nodes reg))\<^sup>+}" "removal_order (registry_nodes reg) []"
          by (auto simp: removal_order_def)
        from removed [of "[]"] closed [OF this] this Inr Some False show thesis by (simp add: uninstall_def)
      qed
    qed
  qed
qed

section \<open>Stamps\<close>

definition stamp_entry :: "(string \<Rightarrow> string) \<Rightarrow> arc_plugin option \<Rightarrow> (arc_plugin \<times> ArtifactStamp) option" where
  "stamp_entry h p = (if is_interpreter p then map_option (\<lambda>p. (p, stamp_of h (snd p))) p else None)"

definition cached_matches :: "'s PluginRegistry \<Rightarrow> bool" where
  "cached_matches reg \<longleftrightarrow> (\<forall>pid sh c. map_of (ent_map (reg_prepared reg)) (pid, sh) = Some c \<longrightarrow>
     (\<exists>st. artifact_stamp pid reg = Some st \<and> (\<forall>a. c = Some a \<longrightarrow> stamp_matches st a)))"

definition stamps_ok :: "(string \<Rightarrow> string) \<Rightarrow> 's PluginRegistry \<Rightarrow> bool" where
  "stamps_ok h reg \<longleftrightarrow> (\<forall>pid. reg_stamps reg pid = stamp_entry h (registry_get pid reg)) \<and>
     cache_ok (reg_prepared reg) \<and> cached_matches reg"

lemma cached_matches_changed:
  assumes "cached_matches reg" and "reg_stamps reg2 = reg_stamps reg" and "reg_prepared reg2 = reg_prepared reg"
  shows "cached_matches (interpreter_changed h pid i reg2)"
  unfolding cached_matches_def
proof (intro allI impI)
  fix x sh c
  assume "map_of (ent_map (reg_prepared (interpreter_changed h pid i reg2))) (x, sh) = Some c"
  then have "x \<noteq> pid" "map_of (ent_map (reg_prepared reg)) (x, sh) = Some c"
    using assms(3) by (auto simp: evict_map split: if_splits)
  moreover from this(1) assms(2) have "artifact_stamp x (interpreter_changed h pid i reg2) = artifact_stamp x reg"
    by (simp add: artifact_stamp_def)
  ultimately show "\<exists>st. artifact_stamp x (interpreter_changed h pid i reg2) = Some st \<and>
      (\<forall>a. c = Some a \<longrightarrow> stamp_matches st a)"
    using assms(1) unfolding cached_matches_def by simp
qed

lemma stamps_ok_changed:
  assumes "stamps_ok h reg" and "registry_get pid reg2 = incoming" and "\<And>x. x \<noteq> pid \<Longrightarrow> registry_get x reg2 = registry_get x reg"
    and "reg_stamps reg2 = reg_stamps reg" "reg_prepared reg2 = reg_prepared reg"
    and "i = (if is_interpreter incoming then incoming else None)"
  shows "stamps_ok h (interpreter_changed h pid i reg2)"
  using assms cached_matches_changed [of reg reg2 h pid i]
  by (auto simp: stamps_ok_def stamp_entry_def evict_ok)

lemma stamps_ok_unchanged:
  assumes "stamps_ok h reg" and "\<And>x. stamp_entry h (registry_get x reg2) = stamp_entry h (registry_get x reg)"
    and "reg_stamps reg2 = reg_stamps reg" "reg_prepared reg2 = reg_prepared reg"
  shows "stamps_ok h reg2"
  using assms by (auto simp: stamps_ok_def cached_matches_def artifact_stamp_def)

lemma register_stamps_ok:
  assumes "stamps_ok h reg"
  shows "stamps_ok h (register h p reg)"
proof -
  define reg2 where "reg2 = (let r = evict_module (plugin_id p) (invalidate_api_surface (plugin_id p) reg) in
    r\<lparr>reg_plugins := filter (\<lambda>q. plugin_id (snd q) \<noteq> plugin_id p) (reg_plugins r) @ [(reg_next_arc r, p)],
      reg_next_arc := reg_next_arc r + 1\<rparr>)"
  have r: "register h p reg =
    (if plugin_type p = Interpreter then interpreter_changed h (plugin_id p) (Some (reg_next_arc reg, p)) reg2
     else if is_interpreter (registry_get (plugin_id p) reg) then interpreter_changed h (plugin_id p) None reg2 else reg2)"
    by (simp add: register_def reg2_def Let_def)
  have same: "registry_get x reg2 = registry_get x (register h p reg)" for x by (simp add: r)
  have f: "reg_stamps reg2 = reg_stamps reg" "reg_prepared reg2 = reg_prepared reg"
    by (simp_all add: reg2_def Let_def)
  have get: "registry_get x reg2 = (if x = plugin_id p then Some (reg_next_arc reg, p) else registry_get x reg)" for x
    unfolding same registry_get_register ..
  show ?thesis
  proof (cases "plugin_type p = Interpreter \<or> is_interpreter (registry_get (plugin_id p) reg)")
    case True
    then show ?thesis
      using stamps_ok_changed [OF assms get [THEN trans, OF if_P [OF refl]] _ f refl] get
      by (auto simp: r is_interpreter_def)
  next
    case False
    then have "stamp_entry h (registry_get x reg2) = stamp_entry h (registry_get x reg)" for x
      by (auto simp: get stamp_entry_def is_interpreter_def)
    from stamps_ok_unchanged [OF assms this f] False show ?thesis by (simp add: r)
  qed
qed

lemma remove_stamps_ok:
  assumes "stamps_ok h reg"
  shows "stamps_ok h (snd (remove_plugin h pid reg))"
proof -
  define reg2 where "reg2 = (let r = evict_module pid (invalidate_api_surface pid reg) in
    r\<lparr>reg_plugins := filter (\<lambda>q. plugin_id (snd q) \<noteq> pid) (reg_plugins r)\<rparr>)"
  have r: "snd (remove_plugin h pid reg) =
    (if is_interpreter (registry_get pid reg) then interpreter_changed h pid None reg2 else reg2)"
    by (simp add: remove_plugin_def reg2_def Let_def)
  have same: "registry_get x reg2 = registry_get x (snd (remove_plugin h pid reg))" for x by (simp add: r)
  have f: "reg_stamps reg2 = reg_stamps reg" "reg_prepared reg2 = reg_prepared reg"
    by (simp_all add: reg2_def Let_def)
  have get: "registry_get x reg2 = (if x = pid then None else registry_get x reg)" for x
    unfolding same registry_get_remove ..
  show ?thesis
  proof (cases "is_interpreter (registry_get pid reg)")
    case True
    then show ?thesis
      using stamps_ok_changed [OF assms _ _ f, of pid None None] get by (simp add: r is_interpreter_def)
  next
    case False
    then have "stamp_entry h (registry_get x reg2) = stamp_entry h (registry_get x reg)" for x
      by (auto simp: get stamp_entry_def is_interpreter_def)
    from stamps_ok_unchanged [OF assms this f] False show ?thesis by (simp add: r)
  qed
qed

lemma remove_all_stamps_ok: "stamps_ok h reg \<Longrightarrow> stamps_ok h (remove_all h pids reg)"
  by (induction pids arbitrary: reg) (simp_all add: remove_all_def remove_stamps_ok)

lemma store_prepared_cached:
  assumes "cache_ok (reg_prepared reg)" and "cached_matches reg"
  shows "cache_ok (reg_prepared (snd (store_prepared sh p source artifact reg))) \<and>
    cached_matches (snd (store_prepared sh p source artifact reg))"
proof (cases "artifact_stamp_for p reg")
  case None
  with assms show ?thesis by (simp add: store_prepared_def)
next
  case (Some st)
  define key c where "key = (plugin_id (snd p), sh source)" and "c = map_option (stamp_apply st) artifact"
  have s: "snd (store_prepared sh p source artifact reg) = reg\<lparr>reg_prepared := store_key key c (reg_prepared reg)\<rparr>"
    using Some by (simp add: store_prepared_def cache_store_def key_def c_def)
  have st: "artifact_stamp (fst key) reg = Some st"
    using Some by (auto simp: artifact_stamp_for_def artifact_stamp_def key_def split: option.splits if_splits)
  have "cached_matches (reg\<lparr>reg_prepared := store_key key c (reg_prepared reg)\<rparr>)"
    unfolding cached_matches_def
  proof (intro allI impI)
    fix x s c'
    assume m: "map_of (ent_map (reg_prepared (reg\<lparr>reg_prepared := store_key key c (reg_prepared reg)\<rparr>))) (x, s) = Some c'"
    have "\<exists>st. artifact_stamp x reg = Some st \<and> (\<forall>a. c' = Some a \<longrightarrow> stamp_matches st a)"
    proof (cases "(x, s) = key")
      case True
      then have x: "x = fst key" by auto
      from m True store_key_map(1) [of key c "reg_prepared reg"] have "c' = c" by simp
      then have "\<forall>a. c' = Some a \<longrightarrow> stamp_matches st a"
        by (auto simp: c_def stamp_apply_def stamp_matches_def)
      with st x show ?thesis by blast
    next
      case False
      with m store_key_map(2) [OF False, of c "reg_prepared reg"]
      have "map_of (ent_map (reg_prepared reg)) (x, s) = Some c'" by auto
      with assms(2) show ?thesis by (simp add: cached_matches_def)
    qed
    then show "\<exists>st. artifact_stamp x (reg\<lparr>reg_prepared := store_key key c (reg_prepared reg)\<rparr>) = Some st \<and>
        (\<forall>a. c' = Some a \<longrightarrow> stamp_matches st a)" by (simp add: artifact_stamp_def)
  qed
  with assms s show ?thesis by (simp add: store_key_ok)
qed

lemma store_prepared_fields:
  "reg_plugins (snd (store_prepared sh p source artifact reg)) = reg_plugins reg"
  "reg_stamps (snd (store_prepared sh p source artifact reg)) = reg_stamps reg"
  "reg_next_arc (snd (store_prepared sh p source artifact reg)) = reg_next_arc reg"
  by (simp_all add: store_prepared_def cache_store_def split: option.splits)

lemma store_prepared_stamps_ok: "stamps_ok h reg \<Longrightarrow> stamps_ok h (snd (store_prepared sh p source artifact reg))"
  using store_prepared_cached [of reg sh p source artifact]
  by (simp add: stamps_ok_def registry_get_def store_prepared_fields)

lemma forget_cached:
  assumes "cache_ok (reg_prepared reg)" and "cached_matches reg"
  shows "cache_ok (cache_forget sh i source (reg_prepared reg)) \<and>
    cached_matches (reg\<lparr>reg_prepared := cache_forget sh i source (reg_prepared reg)\<rparr>)"
  using assms
  by (auto simp: cache_forget_def entries_remove_ok cached_matches_def artifact_stamp_def entries_remove_map
      split: if_splits)

section \<open>Batches\<close>

definition ids_apart :: "LoadedPlugin list \<Rightarrow> bool" where
  "ids_apart ps \<longleftrightarrow> distinct (map plugin_id ps)"

definition is_installed :: "LoadedPlugin \<Rightarrow> 's PluginRegistry \<Rightarrow> bool" where
  "is_installed p reg \<longleftrightarrow> (\<exists>a. registry_get (plugin_id p) reg = Some (a, p))"

lemma ids_apart_filter: "ids_apart ps \<Longrightarrow> ids_apart (filter P ps)"
  by (simp add: ids_apart_def distinct_map_filter)

lemma ids_apart_find:
  "ids_apart ps \<Longrightarrow> p \<in> set ps \<Longrightarrow> List.find (\<lambda>q. plugin_id q = plugin_id p) ps = Some p"
  by (induction ps) (auto simp: ids_apart_def)

lemma pending_of_snoc:
  "pending_of (ps @ [p]) = filter (\<lambda>q. plugin_id q \<noteq> plugin_id p) (pending_of ps) @ [p]"
  by (simp add: pending_of_def)

lemma pending_of_apart: "ids_apart (pending_of ps)"
proof (induction ps rule: rev_induct)
  case (snoc p ps)
  then show ?case using ids_apart_filter by (fastforce simp: pending_of_snoc ids_apart_def)
qed (simp add: pending_of_def ids_apart_def)

lemma batch_nodes_distinct:
  assumes "distinct_ids (registry_nodes reg)" and "ids_apart pending"
  shows "distinct_ids (batch_nodes pending reg)"
  using assms distinct_ids_filter [OF assms(1)]
  by (auto simp: batch_nodes_def distinct_ids_def ids_apart_def comp_def)

lemma drop_cycle_apart:
  "ids_apart pending \<Longrightarrow> ids_apart (fst (drop_cycle c pids (pending, failures)))"
  by (induction pids arbitrary: pending failures) (simp_all add: ids_apart_filter)

lemma install_in_order_ok:
  assumes "registry_ok semver reg" and "stamps_ok h reg" and "ids_apart pending"
  shows "\<exists>fs reg'. install_in_order semver h order pending failures reg = Some (failures @ fs, reg') \<and>
    registry_ok semver reg' \<and> stamps_ok h reg' \<and>
    (\<forall>x. x \<notin> plugin_id ` set pending \<longrightarrow> registry_get x reg' = registry_get x reg) \<and>
    (\<forall>p \<in> set pending. plugin_id p \<in> set order \<longrightarrow> is_installed p reg' \<or> plugin_id p \<in> fst ` set fs)"
  using assms
proof (induction order arbitrary: pending failures reg)
  case (Cons x order)
  show ?case
  proof (cases "List.find (\<lambda>p. plugin_id p = x) pending")
    case None
    then have "\<forall>p \<in> set pending. plugin_id p \<noteq> x" by (simp add: find_None_iff)
    with Cons.IH [OF Cons.prems, of failures] None show ?thesis by fastforce
  next
    case (Some p)
    then have p: "p \<in> set pending" "plugin_id p = x" by (auto simp: find_Some_iff)
    define rest where "rest = filter (\<lambda>q. plugin_id q \<noteq> x) pending"
    have apart: "ids_apart rest" using Cons.prems(3) by (simp add: rest_def ids_apart_filter)
    have only: "q = p" if "q \<in> set pending" "plugin_id q = x" for q
      using ids_apart_find [OF Cons.prems(3) that(1)] that(2) Some by simp
    have keep: "x \<notin> plugin_id ` set rest" "\<And>y. y \<notin> plugin_id ` set pending \<Longrightarrow> y \<notin> plugin_id ` set rest"
      by (auto simp: rest_def)
    show ?thesis
    proof (cases rule: install_cases [OF Cons.prems(1), of h p])
      case (1 e)
      from Cons.IH [OF Cons.prems(1,2) apart, of "failures @ [(x, e)]"] obtain fs reg' where
        r: "install_in_order semver h order rest (failures @ [(x, e)]) reg = Some ((failures @ [(x, e)]) @ fs, reg')"
          "registry_ok semver reg'" "stamps_ok h reg'"
          "\<forall>y. y \<notin> plugin_id ` set rest \<longrightarrow> registry_get y reg' = registry_get y reg"
          "\<forall>q \<in> set rest. plugin_id q \<in> set order \<longrightarrow> is_installed q reg' \<or> plugin_id q \<in> fst ` set fs"
        by blast
      have "install_in_order semver h (x # order) pending failures reg = Some (failures @ (x, e) # fs, reg')"
        using Some 1 r(1) by (simp add: rest_def)
      moreover have "\<forall>q \<in> set pending. plugin_id q \<in> set (x # order) \<longrightarrow>
          is_installed q reg' \<or> plugin_id q \<in> fst ` set ((x, e) # fs)"
        using r(5) by (auto simp: rest_def)
      ultimately show ?thesis using r(2-4) keep(2) by blast
    next
      case 2
      from Cons.IH [OF 2(2) register_stamps_ok [OF Cons.prems(2)] apart, of failures] obtain fs reg' where
        r: "install_in_order semver h order rest failures (register h p reg) = Some (failures @ fs, reg')"
          "registry_ok semver reg'" "stamps_ok h reg'"
          "\<forall>y. y \<notin> plugin_id ` set rest \<longrightarrow> registry_get y reg' = registry_get y (register h p reg)"
          "\<forall>q \<in> set rest. plugin_id q \<in> set order \<longrightarrow> is_installed q reg' \<or> plugin_id q \<in> fst ` set fs"
        by blast
      have "install_in_order semver h (x # order) pending failures reg = Some (failures @ fs, reg')"
        using Some 2 r(1) by (simp add: rest_def)
      moreover have "is_installed p reg'"
        using r(4) keep(1) p(2) by (simp add: is_installed_def registry_get_register)
      then have "\<forall>q \<in> set pending. plugin_id q \<in> set (x # order) \<longrightarrow> is_installed q reg' \<or> plugin_id q \<in> fst ` set fs"
        using r(5) only by (auto simp: rest_def)
      moreover have "\<forall>y. y \<notin> plugin_id ` set pending \<longrightarrow> registry_get y reg' = registry_get y reg"
        using r(4) keep(2) p by (auto simp: registry_get_register)
      ultimately show ?thesis using r(2,3) by blast
    qed
  qed
qed simp

lemma register_all_ok:
  assumes "registry_ok semver reg" and "stamps_ok h reg"
  obtains fs reg' where "register_all semver h ps reg = Some (fs, reg')" "registry_ok semver reg'" "stamps_ok h reg'"
proof -
  let ?pending = "pending_of ps" and ?nodes = "batch_nodes (pending_of ps) reg"
  from assms(1) have d: "distinct_ids ?nodes"
    by (auto intro: batch_nodes_distinct pending_of_apart simp: registry_ok_def graph_ok_def)
  have go: "\<exists>fs reg'. install_in_order semver h order pending fs0 reg = Some (fs, reg') \<and>
      registry_ok semver reg' \<and> stamps_ok h reg'" if "ids_apart pending" for order pending fs0
    using install_in_order_ok [OF assms that, of order fs0] by blast
  show thesis
  proof (cases rule: load_order_cases [OF d])
    case (1 order)
    obtain fs reg' where g: "install_in_order semver h order ?pending [] reg = Some (fs, reg')"
      "registry_ok semver reg'" "stamps_ok h reg'" using go [OF pending_of_apart] by blast
    then have "register_all semver h ps reg = Some (sort_key fst fs, reg')"
      using 1(1) by (simp add: register_all_def)
    with that g show thesis by blast
  next
    case (2 c)
    obtain pending' fs0 where dc: "drop_cycle c c (?pending, []) = (pending', fs0)" by force
    then have apart: "ids_apart pending'" using drop_cycle_apart [OF pending_of_apart, of c c ps "[]"] by simp
    have d': "distinct_ids (filter (\<lambda>n. node_id n \<notin> set c) ?nodes)" by (rule distinct_ids_filter [OF d])
    define order where "order = (case load_order (filter (\<lambda>n. node_id n \<notin> set c) ?nodes) of
      Some (Ok order) \<Rightarrow> order | _ \<Rightarrow> [])"
    obtain fs reg' where g: "install_in_order semver h order pending' fs0 reg = Some (fs, reg')"
      "registry_ok semver reg'" "stamps_ok h reg'" using go [OF apart] by blast
    then have "register_all semver h ps reg = Some (sort_key fst fs, reg')"
      using 2(1) dc
      by (cases rule: load_order_cases [OF d']) (simp_all add: register_all_def order_def)
    with that g show thesis by blast
  qed
qed

end
