(* ===== verification/Registry_Runs.thy ===== *)
theory Registry_Runs
  imports Registry_Invariant
begin

text \<open>
  The plugin registry under concurrent callers. An install checks against one snapshot of the
  entries and registers later, an uninstall removes one plugin at a time, and a reload removes
  before it installs; what the locks keep together is smaller than any of these operations. A run
  is a sequence of the pieces that are kept together: a change of the entries, under their write
  lock; the restamping that the holder of that lock still owes, under the lock of the stamps; a
  prepared script stored or forgotten; and any change at all of the caches of modules and of API
  surfaces. The results of every operation of the registry are runs, whatever ran in between.
\<close>

section \<open>Runs\<close>

definition insert_entry :: "LoadedPlugin \<Rightarrow> 's PluginRegistry \<Rightarrow> 's PluginRegistry" where
  "insert_entry p reg =
     reg\<lparr>reg_plugins := filter (\<lambda>q. plugin_id (snd q) \<noteq> plugin_id p) (reg_plugins reg) @ [(reg_next_arc reg, p)],
         reg_next_arc := reg_next_arc reg + 1\<rparr>"

definition take_out :: "string \<Rightarrow> 's PluginRegistry \<Rightarrow> 's PluginRegistry" where
  "take_out pid reg = reg\<lparr>reg_plugins := filter (\<lambda>q. plugin_id (snd q) \<noteq> pid) (reg_plugins reg)\<rparr>"

text \<open>The restamping owed once the entry of an id is what it is, given what it was.\<close>

definition owed_change :: "string \<Rightarrow> arc_plugin option \<Rightarrow> arc_plugin option \<Rightarrow> (string \<times> arc_plugin option) option" where
  "owed_change pid previous incoming =
     (if is_interpreter incoming then Some (pid, incoming)
      else if is_interpreter previous then Some (pid, None) else None)"

inductive registry_run :: "(string \<Rightarrow> string) \<Rightarrow> (string \<Rightarrow> string) \<Rightarrow> 's PluginRegistry \<Rightarrow>
    (string \<times> arc_plugin option) option \<Rightarrow> bool" for hex_digest source_hash :: "string \<Rightarrow> string" where
  run_new: "registry_run hex_digest source_hash registry_new None"
| run_insert: "registry_run hex_digest source_hash reg None \<Longrightarrow>
    registry_run hex_digest source_hash (insert_entry p reg)
      (owed_change (plugin_id p) (registry_get (plugin_id p) reg) (Some (reg_next_arc reg, p)))"
| run_take_out: "registry_run hex_digest source_hash reg None \<Longrightarrow>
    registry_run hex_digest source_hash (take_out pid reg) (owed_change pid (registry_get pid reg) None)"
| run_restamp: "registry_run hex_digest source_hash reg (Some (pid, incoming)) \<Longrightarrow>
    registry_run hex_digest source_hash (interpreter_changed hex_digest pid incoming reg) None"
| run_prepared: "registry_run hex_digest source_hash reg owed \<Longrightarrow>
    registry_run hex_digest source_hash (snd (store_prepared source_hash p source artifact reg)) owed"
| run_forget: "registry_run hex_digest source_hash reg owed \<Longrightarrow>
    registry_run hex_digest source_hash
      (reg\<lparr>reg_prepared := cache_forget source_hash interpreter source (reg_prepared reg)\<rparr>) owed"
| run_modules: "registry_run hex_digest source_hash reg owed \<Longrightarrow>
    registry_run hex_digest source_hash (reg\<lparr>reg_modules := modules\<rparr>) owed"
| run_surfaces: "registry_run hex_digest source_hash reg owed \<Longrightarrow>
    registry_run hex_digest source_hash (reg\<lparr>reg_api_surfaces := surfaces\<rparr>) owed"

section \<open>The operations are runs\<close>

lemma run_evicted:
  "registry_run h sh reg owed \<Longrightarrow> registry_run h sh (evict_module pid (invalidate_api_surface pid reg)) owed"
  unfolding evict_module_def invalidate_api_surface_def by (intro run_modules run_surfaces)

lemma run_register:
  assumes "registry_run h sh reg None"
  shows "registry_run h sh (register h p reg) None"
proof -
  let ?reg = "evict_module (plugin_id p) (invalidate_api_surface (plugin_id p) reg)"
  note inserted = run_insert [OF run_evicted [OF assms, of "plugin_id p"], of p]
  consider "is_interpreter (Some (reg_next_arc ?reg, p))"
    | "\<not> is_interpreter (Some (reg_next_arc ?reg, p))" "is_interpreter (registry_get (plugin_id p) ?reg)"
    | "\<not> is_interpreter (Some (reg_next_arc ?reg, p))" "\<not> is_interpreter (registry_get (plugin_id p) ?reg)" by blast
  then show ?thesis
  proof cases
    case 1
    with inserted run_restamp show ?thesis
      by (auto simp: owed_change_def register_def Let_def insert_entry_def is_interpreter_def)
  next
    case 2
    with inserted run_restamp show ?thesis
      by (auto simp: owed_change_def register_def Let_def insert_entry_def is_interpreter_def)
  next
    case 3
    with inserted show ?thesis
      by (auto simp: owed_change_def register_def Let_def insert_entry_def is_interpreter_def)
  qed
qed

lemma run_remove:
  assumes "registry_run h sh reg None"
  shows "registry_run h sh (snd (remove_plugin h pid reg)) None"
proof -
  let ?reg = "evict_module pid (invalidate_api_surface pid reg)"
  have taken: "registry_run h sh (take_out pid ?reg) (owed_change pid (registry_get pid ?reg) None)"
    by (intro run_take_out run_evicted assms)
  show ?thesis
  proof (cases "is_interpreter (registry_get pid ?reg)")
    case True
    then have "owed_change pid (registry_get pid ?reg) None = Some (pid, None)"
      by (simp add: owed_change_def is_interpreter_def)
    with taken have "registry_run h sh (interpreter_changed h pid None (take_out pid ?reg)) None"
      by (auto intro: run_restamp)
    with True show ?thesis by (simp add: remove_plugin_def Let_def take_out_def)
  next
    case False
    then have "owed_change pid (registry_get pid ?reg) None = None"
      by (simp add: owed_change_def is_interpreter_def)
    with taken False show ?thesis by (simp add: remove_plugin_def Let_def take_out_def)
  qed
qed

lemma run_install:
  "registry_run h sh reg None \<Longrightarrow> install semver h p reg = Some (r, reg') \<Longrightarrow> registry_run h sh reg' None"
  by (auto simp: install_def intro: run_register split: option.splits sum.splits)

lemma run_remove_all: "registry_run h sh reg None \<Longrightarrow> registry_run h sh (remove_all h pids reg) None"
  by (induction pids arbitrary: reg) (simp_all add: remove_all_def run_remove)

lemma run_uninstall:
  "registry_run h sh reg None \<Longrightarrow> uninstall h pid force reg = Some (r, reg') \<Longrightarrow> registry_run h sh reg' None"
  by (auto simp: uninstall_def intro: run_remove_all split: option.splits sum.splits if_splits)

lemma run_reload:
  "registry_run h sh reg None \<Longrightarrow> reload_plugin semver h pid persisted p reg = Some (r, reg') \<Longrightarrow>
   registry_run h sh reg' None"
  using run_remove [of h sh reg pid]
  by (auto simp: reload_plugin_def Let_def case_prod_beta dest: run_install split: option.splits sum.splits if_splits)

lemma run_install_in_order:
  "registry_run h sh reg None \<Longrightarrow> install_in_order semver h order pending failures reg = Some (fs, reg') \<Longrightarrow>
   registry_run h sh reg' None"
proof (induction order arbitrary: pending failures reg)
  case (Cons pid order)
  then show ?case by (auto simp: Let_def dest: run_install split: option.splits sum.splits)
qed simp

lemma run_register_all:
  assumes "registry_run h sh reg None" and "register_all semver h plugins reg = Some (fs, reg')"
  shows "registry_run h sh reg' None"
proof -
  from assms(2) obtain order pending failures fs' where
    "install_in_order semver h order pending failures reg = Some (fs', reg')"
    by (auto simp: register_all_def Let_def split: option.splits prod.splits sum.splits)
  with assms(1) show ?thesis by (rule run_install_in_order)
qed

section \<open>What every run keeps\<close>

definition restamp_due :: "'s PluginRegistry \<Rightarrow> (string \<times> arc_plugin option) option \<Rightarrow> bool" where
  "restamp_due reg owed \<longleftrightarrow> (case owed of None \<Rightarrow> True | Some (pid, incoming) \<Rightarrow>
     incoming = (if is_interpreter (registry_get pid reg) then registry_get pid reg else None))"

definition run_ok :: "(string \<Rightarrow> string) \<Rightarrow> 's PluginRegistry \<Rightarrow> (string \<times> arc_plugin option) option \<Rightarrow> bool" where
  "run_ok h reg owed \<longleftrightarrow> distinct_ids (registry_nodes reg) \<and> cache_ok (reg_prepared reg) \<and> cached_matches reg \<and>
     restamp_due reg owed \<and>
     (\<forall>pid. pid \<notin> fst ` set_option owed \<longrightarrow> reg_stamps reg pid = stamp_entry h (registry_get pid reg))"

lemma run_ok_same:
  assumes "run_ok h reg owed" and "reg_plugins reg' = reg_plugins reg" and "reg_stamps reg' = reg_stamps reg"
    and "cache_ok (reg_prepared reg') \<and> cached_matches reg'"
  shows "run_ok h reg' owed"
proof -
  have "registry_get x reg' = registry_get x reg" for x using assms(2) by (simp add: registry_get_def)
  then have "restamp_due reg' owed = restamp_due reg owed" by (cases owed) (simp_all add: restamp_due_def case_prod_beta)
  with assms \<open>\<And>x. registry_get x reg' = registry_get x reg\<close> show ?thesis by (simp add: run_ok_def registry_nodes_def)
qed

lemma run_ok_entry:
  assumes "run_ok h reg None" and "distinct_ids (registry_nodes reg')"
    and "\<And>x. registry_get x reg' = (if x = pid then incoming else registry_get x reg)"
    and "reg_stamps reg' = reg_stamps reg" and "reg_prepared reg' = reg_prepared reg"
  shows "run_ok h reg' (owed_change pid (registry_get pid reg) incoming)"
proof -
  have "cached_matches reg" using assms(1) by (simp add: run_ok_def)
  then have "cached_matches reg'" by (simp add: cached_matches_def artifact_stamp_def assms(4,5))
  moreover have "restamp_due reg' (owed_change pid (registry_get pid reg) incoming)"
    by (simp add: restamp_due_def owed_change_def assms(3))
  moreover have "reg_stamps reg' x = stamp_entry h (registry_get x reg')"
    if "x \<notin> fst ` set_option (owed_change pid (registry_get pid reg) incoming)" for x
    using that assms(1,3,4) by (auto simp: run_ok_def owed_change_def stamp_entry_def split: if_splits)
  ultimately show ?thesis using assms(1,2,5) by (simp add: run_ok_def)
qed

lemma registry_run_ok: "registry_run h sh reg owed \<Longrightarrow> run_ok h reg owed"
proof (induction rule: registry_run.induct)
  case run_new
  show ?case
    by (simp add: run_ok_def registry_new_def registry_nodes_def distinct_ids_def cache_ok_def cache_default_def
        cached_matches_def restamp_due_def stamp_entry_def registry_get_def is_interpreter_def)
next
  case (run_insert reg p)
  have "reg_plugins (insert_entry p reg) = reg_plugins (register h p reg)"
    by (simp add: insert_entry_def register_plugins)
  then have same: "registry_get x (insert_entry p reg) = registry_get x (register h p reg)"
      "registry_nodes (insert_entry p reg) = registry_nodes (register h p reg)" for x
    by (simp_all add: registry_get_def registry_nodes_def)
  show ?case
    by (rule run_ok_entry [OF run_insert.IH])
      (use run_insert.IH in \<open>simp_all add: same registry_get_register register_nodes distinct_ids_replace run_ok_def,
        simp_all add: insert_entry_def\<close>)
next
  case (run_take_out reg pid)
  have "reg_plugins (take_out pid reg) = reg_plugins (snd (remove_plugin h pid reg))"
    by (simp add: take_out_def remove_plugins)
  then have same: "registry_get x (take_out pid reg) = registry_get x (snd (remove_plugin h pid reg))"
      "registry_nodes (take_out pid reg) = registry_nodes (snd (remove_plugin h pid reg))" for x
    by (simp_all add: registry_get_def registry_nodes_def)
  show ?case
    by (rule run_ok_entry [OF run_take_out.IH])
      (use run_take_out.IH in \<open>simp_all add: same registry_get_remove remove_nodes distinct_ids_filter run_ok_def,
        simp_all add: take_out_def\<close>)
next
  case (run_restamp reg pid incoming)
  then have "cached_matches (interpreter_changed h pid incoming reg)"
    by (intro cached_matches_changed) (simp_all add: run_ok_def)
  with run_restamp.IH show ?case
    by (auto simp: run_ok_def restamp_due_def stamp_entry_def evict_ok registry_nodes_def)
next
  case (run_prepared reg owed p source artifact)
  then show ?case
    by (intro run_ok_same [OF run_prepared.IH] store_prepared_cached) (simp_all add: store_prepared_fields run_ok_def)
next
  case (run_forget reg owed interpreter source)
  then show ?case
    using forget_cached [of reg sh interpreter source] by (intro run_ok_same [OF run_forget.IH]) (simp_all add: run_ok_def)
next
  case (run_modules reg owed modules)
  then show ?case by (intro run_ok_same [OF run_modules.IH]) (simp_all add: run_ok_def cached_matches_def artifact_stamp_def)
next
  case (run_surfaces reg owed surfaces)
  then show ?case by (intro run_ok_same [OF run_surfaces.IH]) (simp_all add: run_ok_def cached_matches_def artifact_stamp_def)
qed

lemma run_ok_settled: "run_ok h reg None \<Longrightarrow> stamps_ok h reg"
  by (simp add: run_ok_def stamps_ok_def)

end
