(* ===== verification/Registry_Properties.thy ===== *)
theory Registry_Properties
  imports Registry_Runs
begin

text \<open>
  The histories of the plugin registry in which operations take effect one after another: what holds
  in every registry they build, how a removal proceeds, and what a batch leaves unreported. Reloads
  belong to these histories when they succeed under the id that was installed; what any other
  reload leaves behind, and what installs that overlap can leave, is stated apart.
\<close>

section \<open>Histories\<close>

inductive registry_reach :: "semver \<Rightarrow> (string \<Rightarrow> string) \<Rightarrow> (string \<Rightarrow> string) \<Rightarrow> 's PluginRegistry \<Rightarrow> bool"
  for semver :: semver and hex_digest source_hash :: "string \<Rightarrow> string" where
  reach_new: "registry_reach semver hex_digest source_hash registry_new"
| reach_install: "registry_reach semver hex_digest source_hash reg \<Longrightarrow>
    install semver hex_digest plugin reg = Some (r, reg') \<Longrightarrow> registry_reach semver hex_digest source_hash reg'"
| reach_uninstall: "registry_reach semver hex_digest source_hash reg \<Longrightarrow>
    uninstall hex_digest pid force reg = Some (r', reg') \<Longrightarrow> registry_reach semver hex_digest source_hash reg'"
| reach_batch: "registry_reach semver hex_digest source_hash reg \<Longrightarrow>
    register_all semver hex_digest plugins reg = Some (fs, reg') \<Longrightarrow> registry_reach semver hex_digest source_hash reg'"
| reach_reload: "registry_reach semver hex_digest source_hash reg \<Longrightarrow>
    reload_plugin semver hex_digest (plugin_id p) True p reg = Some (Ok (), reg') \<Longrightarrow>
    registry_reach semver hex_digest source_hash reg'"
| reach_prepared: "registry_reach semver hex_digest source_hash reg \<Longrightarrow>
    registry_reach semver hex_digest source_hash (snd (store_prepared source_hash p source artifact reg))"
| reach_forget: "registry_reach semver hex_digest source_hash reg \<Longrightarrow>
    registry_reach semver hex_digest source_hash
      (reg\<lparr>reg_prepared := cache_forget source_hash interpreter source (reg_prepared reg)\<rparr>)"
| reach_surface: "registry_reach semver hex_digest source_hash reg \<Longrightarrow>
    registry_reach semver hex_digest source_hash (cache_api_surface pid surface reg)"

lemma registry_new_fields [simp]: "reg_plugins registry_new = []" "reg_next_arc registry_new = 0"
  by (simp_all add: registry_new_def)

lemma registry_new_ok: "registry_ok semver registry_new" "stamps_ok h registry_new"
  by (simp_all add: registry_ok_def registry_new_def graph_ok_def registry_nodes_def distinct_ids_def
      dep_edges_def names_ok_def stamps_ok_def stamp_entry_def registry_get_def is_interpreter_def
      cache_ok_def cache_default_def cached_matches_def acyclic_def)

lemma registry_ok_same_plugins: "reg_plugins reg' = reg_plugins reg \<Longrightarrow> registry_ok semver reg \<Longrightarrow> registry_ok semver reg'"
  by (simp add: registry_ok_def registry_nodes_def names_ok_def)

text \<open>
  A reload under the installed id is judged as an install in place of the old build would be: the
  checks leave out the namesake, so its absence changes no answer.
\<close>

lemma replace_node_filter:
  "replace_node (filter (\<lambda>n. node_id n \<noteq> node_id c) nodes) c = replace_node nodes c"
  by (simp add: replace_node_def)

lemma other_plugin_removed:
  "other_plugin p claims (snd (remove_plugin h (plugin_id p) reg)) = other_plugin p claims reg"
proof -
  have "(\<lambda>q. (plugin_id q \<noteq> plugin_id p \<and> claims q) \<and> plugin_id q \<noteq> plugin_id p) =
    (\<lambda>q. plugin_id q \<noteq> plugin_id p \<and> claims q)" by auto
  moreover have "map snd (filter (\<lambda>q. plugin_id (snd q) \<noteq> plugin_id p) xs) =
    filter (\<lambda>q. plugin_id q \<noteq> plugin_id p) (map snd xs)" for xs :: "arc_plugin list"
    by (induction xs) simp_all
  ultimately show ?thesis by (simp add: other_plugin_def remove_plugins find_filter_other)
qed

lemma extension_clash_removed:
  "extension_clash p (snd (remove_plugin h (plugin_id p) reg)) exts = extension_clash p reg exts"
  by (induction exts) (simp_all add: other_plugin_removed split: option.split)

lemma install_removed:
  "install semver h p (snd (remove_plugin h (plugin_id p) reg)) =
     map_option (\<lambda>(r, _). (r, case r of Err _ \<Rightarrow> snd (remove_plugin h (plugin_id p) reg)
       | Ok _ \<Rightarrow> register h p (snd (remove_plugin h (plugin_id p) reg)))) (install semver h p reg)"
proof -
  have "validate_install semver (registry_nodes (snd (remove_plugin h (plugin_id p) reg))) (node_of p) =
    validate_install semver (registry_nodes reg) (node_of p)"
    using replace_node_filter [of "node_of p" "registry_nodes reg"]
    by (simp add: validate_install_def remove_nodes)
  then show ?thesis
    by (auto simp: install_def namespace_clash_def language_clash_def other_plugin_removed extension_clash_removed
        split: option.splits sum.splits)
qed

lemma register_removed_plugins:
  "reg_plugins (register h p (snd (remove_plugin h (plugin_id p) reg))) = reg_plugins (register h p reg)"
  by (simp add: register_plugins remove_plugins)

lemma reload_cases:
  assumes "registry_ok semver reg"
  obtains (refused) e where "install semver h p reg = Some (Err e, reg)"
      "reload_plugin semver h (plugin_id p) True p reg =
        Some (Err (ReloadRefused e), snd (remove_plugin h (plugin_id p) reg))"
  | (reloaded) "install semver h p reg = Some (Ok (), register h p reg)"
      "reload_plugin semver h (plugin_id p) True p reg =
        Some (Ok (), register h p (snd (remove_plugin h (plugin_id p) reg)))"
      "registry_ok semver (register h p (snd (remove_plugin h (plugin_id p) reg)))"
proof (cases rule: install_cases [OF assms, of h p])
  case (1 e)
  then have "reload_plugin semver h (plugin_id p) True p reg =
    Some (Err (ReloadRefused e), snd (remove_plugin h (plugin_id p) reg))"
    using install_removed [of semver h p reg] by (simp add: reload_plugin_def Let_def case_prod_beta)
  with 1 refused show ?thesis by blast
next
  case 2
  then have "reload_plugin semver h (plugin_id p) True p reg =
    Some (Ok (), register h p (snd (remove_plugin h (plugin_id p) reg)))"
    using install_removed [of semver h p reg] by (simp add: reload_plugin_def Let_def case_prod_beta)
  with 2 reloaded registry_ok_same_plugins [OF register_removed_plugins 2(2)] show ?thesis by blast
qed

lemma registry_reach_ok:
  "registry_reach semver h sh reg \<Longrightarrow> registry_ok semver reg \<and> stamps_ok h reg"
proof (induction rule: registry_reach.induct)
  case (reach_install reg plugin r reg')
  then have ok: "registry_ok semver reg" by simp
  show ?case
    by (cases rule: install_cases [OF ok, of h plugin]) (use reach_install in \<open>auto intro: register_stamps_ok\<close>)
next
  case (reach_uninstall reg pid force r' reg')
  then have ok: "registry_ok semver reg" by simp
  show ?case
  proof (cases rule: uninstall_cases [OF ok, of pid h force])
    case (3 ds)
    from 3(4) [of "Suc (length ds)"] 3(1) reach_uninstall show ?thesis by (auto intro: remove_all_stamps_ok)
  qed (use reach_uninstall in auto)
next
  case (reach_batch reg plugins fs reg')
  then show ?case by (metis register_all_ok option.inject prod.inject)
next
  case (reach_reload reg p reg')
  then have ok: "registry_ok semver reg" by simp
  show ?case
    by (cases rule: reload_cases [OF ok, of h p]) (use reach_reload in \<open>auto intro: register_stamps_ok remove_stamps_ok\<close>)
next
  case (reach_prepared reg p source artifact)
  then show ?case using registry_ok_same_plugins store_prepared_fields(1) store_prepared_stamps_ok by metis
next
  case (reach_forget reg interpreter source)
  then show ?case
    using registry_ok_same_plugins [of "reg\<lparr>reg_prepared := cache_forget sh interpreter source (reg_prepared reg)\<rparr>" reg]
      forget_cached [of reg sh interpreter source]
    by (auto simp: stamps_ok_def registry_get_def)
next
  case (reach_surface reg pid surface)
  then show ?case
    by (auto simp: cache_api_surface_def stamps_ok_def registry_get_def cached_matches_def artifact_stamp_def
        intro: registry_ok_same_plugins [rotated])
qed (simp add: registry_new_ok)

lemma reach_runs: "registry_reach semver h sh reg \<Longrightarrow> registry_run h sh reg None"
proof (induction rule: registry_reach.induct)
  case (reach_surface reg pid surface)
  then show ?case unfolding cache_api_surface_def by (intro run_surfaces)
qed (auto intro: run_new run_install run_uninstall run_register_all run_reload run_prepared run_forget)

section \<open>Demo plugins\<close>

definition demo_loaded :: "string \<Rightarrow> string list \<Rightarrow> LoadedPlugin" where
  "demo_loaded pid deps =
     \<lparr>pl_info = \<lparr>info_id = pid, info_version = ''1.0.0'', info_icon_url = None\<rparr>, pl_wasm_bytes = [],
      pl_manifest = Some \<lparr>mf_id = pid, mf_icon_url = None, mf_banner_url = None, mf_description = None,
        mf_plugin_type = Library, mf_dependencies = map (\<lambda>d. \<lparr>dep_id = d, dep_version = ''*''\<rparr>) deps,
        mf_namespace = None, mf_language_id = None, mf_file_extension = None, mf_extensions = [],
        mf_supports_libraries = []\<rparr>\<rparr>"

definition any_version :: semver where
  "any_version req v = Some True"

definition demo_installed :: "unit PluginRegistry" where
  "demo_installed = register id (demo_loaded ''a'' [''b'']) (register id (demo_loaded ''b'' []) registry_new)"

lemma demo_valid:
  "validate_install any_version [] (node_of (demo_loaded ''b'' [])) = Some (Ok ())"
  "validate_install any_version [node_of (demo_loaded ''b'' [])] (node_of (demo_loaded ''a'' [''b''])) = Some (Ok ())"
  by code_simp+

lemma demo_accessors [simp]:
  "plugin_id (demo_loaded pid deps) = pid" "plugin_type (demo_loaded pid deps) = Library"
  "plugin_namespace (demo_loaded pid deps) = Some pid" "plugin_language_id (demo_loaded pid deps) = None"
  "plugin_extensions (demo_loaded pid deps) = []"
  by (simp_all add: demo_loaded_def plugin_id_def plugin_type_def plugin_namespace_def plugin_language_id_def
      plugin_extensions_def)

lemma demo_installs:
  "install any_version id (demo_loaded ''b'' []) (registry_new :: unit PluginRegistry) =
     Some (Ok (), register id (demo_loaded ''b'' []) registry_new)"
  "install any_version id (demo_loaded ''a'' [''b'']) (register id (demo_loaded ''b'' []) registry_new) =
     Some (Ok (), demo_installed)"
  using demo_valid
  by (simp_all add: install_def namespace_clash_def language_clash_def other_plugin_def registry_nodes_def
      register_plugins demo_installed_def)

lemma demo_reach: "registry_reach any_version id id demo_installed"
  using registry_reach.reach_install [OF registry_reach.reach_install [OF registry_reach.reach_new demo_installs(1)] demo_installs(2)] .

section \<open>Properties\<close>

text \<open>
  Property C2. However the registry's callers overlap, that is in every run of the pieces its locks
  keep together, no two entries have one id, the cache of prepared scripts stays within its bound,
  and every cached artifact carries the stamp held for its interpreter; whenever no restamping is
  owed, exactly the installed interpreters have a stamp, that of the build registered. In the
  histories in which installs, uninstalls, batches and successful reloads take effect one after
  another, each dependency is also installed at a version that satisfies it, no plugin depends on
  itself through others, and no two plugins claim a namespace, a language or a file extension; every
  such history is a run.
\<close>

theorem registry_invariant:
  "(\<forall>owed. registry_run hex_digest source_hash reg owed \<longrightarrow>
      distinct_ids (registry_nodes reg) \<and> cache_ok (reg_prepared reg) \<and> cached_matches reg \<and>
      (owed = None \<longrightarrow> stamps_ok hex_digest reg)) \<and>
   (\<forall>semver. registry_reach semver hex_digest source_hash reg \<longrightarrow>
      registry_ok semver reg \<and> registry_run hex_digest source_hash reg None)"
  using registry_run_ok [of hex_digest source_hash reg] run_ok_settled [of hex_digest reg]
    registry_reach_ok [of _ hex_digest source_hash reg] reach_runs [of _ hex_digest source_hash reg]
  by (auto simp: run_ok_def)

theorem registry_invariant_witness:
  "registry_reach any_version id id demo_installed \<and> registry_ok any_version demo_installed \<and>
   registry_run id id demo_installed None \<and> stamps_ok id demo_installed"
  using registry_invariant [of id id demo_installed] demo_reach by blast

text \<open>
  Property C11. An install succeeds exactly when no other plugin claims one of the plugin's names
  and the graph with the plugin in place of its namesake is in order: its own dependencies, those
  of everything that depends on it, and no cycle. It then registers the plugin; otherwise nothing changes.
\<close>

theorem install_exactly_when_sound:
  assumes "registry_reach semver hex_digest source_hash reg"
  shows "if (\<forall>q \<in> set (reg_plugins reg). plugin_id (snd q) \<noteq> plugin_id p \<longrightarrow> names_apart p (snd q)) \<and>
      graph_ok semver (replace_node (registry_nodes reg) (node_of p))
    then install semver hex_digest p reg = Some (Ok (), register hex_digest p reg)
    else \<exists>e. install semver hex_digest p reg = Some (Err e, reg)"
proof -
  from registry_reach_ok [OF assms] have g: "graph_ok semver (registry_nodes reg)" by (simp add: registry_ok_def)
  obtain r where v: "validate_install semver (registry_nodes reg) (node_of p) = Some r"
    using validate_install_iff(1) [OF g] by blast
  note names = no_clash_iff [of p reg, symmetric] and graph = validate_install_iff(2) [OF g, symmetric]
  show ?thesis
    unfolding names graph install_def using v by (cases r) (auto split: option.split)
qed

theorem install_exactly_when_sound_witness:
  "install any_version id (demo_loaded ''b'' []) (registry_new :: unit PluginRegistry) =
     Some (Ok (), register id (demo_loaded ''b'' []) registry_new)"
proof -
  have "graph_ok any_version (replace_node [] (node_of (demo_loaded ''b'' [])))"
    using validate_install_iff(2) [of any_version "[]" "node_of (demo_loaded ''b'' [])"] demo_valid(1)
    by (simp add: graph_ok_def distinct_ids_def dep_edges_def acyclic_def)
  with install_exactly_when_sound [OF registry_reach.reach_new [of any_version id id], of "demo_loaded ''b'' []"]
  show ?thesis by (simp add: registry_nodes_def)
qed

text \<open>
  Property C16. A forced uninstall removes exactly the plugin and everything that depends on it,
  directly or not, dependents first: the registry is in order after each single removal, so no
  installed plugin is ever without a dependency on the way.
\<close>

theorem forced_uninstall_cascades:
  assumes "registry_reach semver hex_digest source_hash reg" and "registry_get pid reg \<noteq> None"
  shows "\<exists>ds. uninstall hex_digest pid True reg = Some (Ok (ds @ [pid]), remove_all hex_digest (ds @ [pid]) reg) \<and>
    set ds = {x. (x, pid) \<in> (requires (registry_nodes reg))\<^sup>+} \<and>
    (\<forall>k. registry_ok semver (remove_all hex_digest (take k (ds @ [pid])) reg))"
proof -
  from registry_reach_ok [OF assms(1)] have ok: "registry_ok semver reg" by simp
  show ?thesis
  proof (cases rule: uninstall_cases [OF ok, of pid hex_digest True])
    case (3 ds)
    then show ?thesis by blast
  qed (use assms(2) in auto)
qed

lemma demo_get: "registry_get ''b'' demo_installed \<noteq> None"
  by (simp add: demo_installed_def registry_get_register)

theorem forced_uninstall_cascades_witness:
  "\<exists>ds. uninstall id ''b'' True demo_installed = Some (Ok (ds @ [''b'']), remove_all id (ds @ [''b'']) demo_installed) \<and>
    set ds = {x. (x, ''b'') \<in> (requires (registry_nodes demo_installed))\<^sup>+} \<and>
    (\<forall>k. registry_ok any_version (remove_all id (take k (ds @ [''b''])) demo_installed))"
  by (rule forced_uninstall_cascades [OF demo_reach demo_get])

text \<open>
  Property C27. When the batch and what is installed have no cycle, every plugin of the batch is
  installed or reported by its id.
\<close>

theorem batch_accounts_for_every_plugin:
  assumes "registry_reach semver hex_digest source_hash reg"
    and "acyclic (dep_edges (batch_nodes (pending_of plugins) reg))"
  shows "\<exists>failures reg'. register_all semver hex_digest plugins reg = Some (failures, reg') \<and>
    (\<forall>p \<in> set (pending_of plugins). is_installed p reg' \<or> plugin_id p \<in> fst ` set failures)"
proof -
  from registry_reach_ok [OF assms(1)] have ok: "registry_ok semver reg" "stamps_ok hex_digest reg" by simp_all
  then have d: "distinct_ids (batch_nodes (pending_of plugins) reg)"
    by (auto intro: batch_nodes_distinct pending_of_apart simp: registry_ok_def graph_ok_def)
  from load_order_acyclic [OF d assms(2)] obtain order where
    o: "load_order (batch_nodes (pending_of plugins) reg) = Some (Ok order)" "distinct order"
      "set order = node_id ` set (batch_nodes (pending_of plugins) reg)"
      "greedy_order (batch_nodes (pending_of plugins) reg) order" .
  from install_in_order_ok [OF ok pending_of_apart, of order plugins "[]"] obtain fs reg' where
    r: "install_in_order semver hex_digest order (pending_of plugins) [] reg = Some ([] @ fs, reg')"
      "\<forall>p \<in> set (pending_of plugins). plugin_id p \<in> set order \<longrightarrow> is_installed p reg' \<or> plugin_id p \<in> fst ` set fs"
    by blast
  have "plugin_id p \<in> set order" if "p \<in> set (pending_of plugins)" for p
    using that by (force simp: o(3) batch_nodes_def)
  then have "\<forall>p \<in> set (pending_of plugins). is_installed p reg' \<or> plugin_id p \<in> fst ` set (sort_key fst fs)"
    using r(2) by simp
  moreover have "register_all semver hex_digest plugins reg = Some (sort_key fst fs, reg')"
    using o(1) r(1) by (simp add: register_all_def)
  ultimately show ?thesis by blast
qed

theorem batch_accounts_for_every_plugin_witness:
  "\<exists>failures reg'. register_all any_version id [demo_loaded ''a'' [''b''], demo_loaded ''b'' []]
      (registry_new :: unit PluginRegistry) = Some (failures, reg') \<and>
    (\<forall>p \<in> set (pending_of [demo_loaded ''a'' [''b''], demo_loaded ''b'' []]).
      is_installed p reg' \<or> plugin_id p \<in> fst ` set failures)"
proof (rule batch_accounts_for_every_plugin [OF registry_reach.reach_new])
  have "load_order (batch_nodes (pending_of [demo_loaded ''a'' [''b''], demo_loaded ''b'' []])
      (registry_new :: unit PluginRegistry)) = Some (Ok [''b'', ''a''])" by code_simp
  moreover have "distinct_ids (batch_nodes (pending_of [demo_loaded ''a'' [''b''], demo_loaded ''b'' []])
      (registry_new :: unit PluginRegistry))"
    by (rule batch_nodes_distinct [OF _ pending_of_apart]) (simp add: registry_nodes_def distinct_ids_def)
  ultimately show "acyclic (dep_edges (batch_nodes (pending_of [demo_loaded ''a'' [''b''], demo_loaded ''b'' []])
      (registry_new :: unit PluginRegistry)))" by (rule load_order_ok_acyclic [rotated])
qed

text \<open>
  Property C28. With two cycles in a batch, plugins go missing without a report: only the first cycle
  is dropped and reported, the order of the rest then fails and is replaced by an empty one, and the
  other cycle and a plugin with no dependencies at all are neither installed nor reported.
\<close>

theorem batch_with_two_cycles_drops_plugins:
  "map_option (\<lambda>(failures, reg). (map fst failures, map (plugin_id \<circ> snd) (reg_plugins reg)))
     (register_all any_version id
       [demo_loaded ''a'' [''b''], demo_loaded ''b'' [''a''], demo_loaded ''c'' [''d''], demo_loaded ''d'' [''c''],
        demo_loaded ''e'' []] (registry_new :: unit PluginRegistry)) =
   Some ([''a'', ''b''], [])"
  by code_simp

section \<open>Where the order is lost\<close>

text \<open>
  A refused reload uninstalls the plugin it was to replace, although everything that could be
  checked before was: the refusal is the one an install in place would have given, without a loss.
  What depends on the plugin stays, without its dependency.
\<close>

theorem refused_reload_uninstalls:
  assumes "registry_reach semver hex_digest source_hash reg"
    and "install semver hex_digest p reg = Some (Err e, reg)"
  shows "\<exists>reg'. reload_plugin semver hex_digest (plugin_id p) True p reg = Some (Err (ReloadRefused e), reg') \<and>
    registry_get (plugin_id p) reg' = None \<and>
    (\<forall>x. x \<noteq> plugin_id p \<longrightarrow> registry_get x reg' = registry_get x reg) \<and>
    ((\<exists>x. x \<noteq> plugin_id p \<and> (x, plugin_id p) \<in> requires (registry_nodes reg)) \<longrightarrow> \<not> registry_ok semver reg')"
proof -
  from registry_reach_ok [OF assms(1)] have ok: "registry_ok semver reg" by simp
  let ?reg = "snd (remove_plugin hex_digest (plugin_id p) reg)"
  have "reload_plugin semver hex_digest (plugin_id p) True p reg = Some (Err (ReloadRefused e), ?reg)"
    by (cases rule: reload_cases [OF ok, of hex_digest p]) (use assms(2) in auto)
  moreover have "\<not> registry_ok semver ?reg" if "x \<noteq> plugin_id p" "(x, plugin_id p) \<in> requires (registry_nodes reg)" for x
  proof
    assume "registry_ok semver ?reg"
    then have edges: "\<forall>n \<in> set (registry_nodes ?reg). \<forall>d \<in> set (node_dependencies n). edge_ok semver (registry_nodes ?reg) d"
      by (simp add: registry_ok_def graph_ok_def)
    from that obtain n where n: "n \<in> set (registry_nodes ?reg)" "plugin_id p \<in> set (dep_ids n)"
      by (auto simp: requires_def remove_nodes)
    then obtain d where "d \<in> set (node_dependencies n)" "dep_id d = plugin_id p" by (auto simp: dep_ids_def)
    with edges n(1) have "edge_ok semver (registry_nodes ?reg) d" "dep_id d = plugin_id p" by simp_all
    then have "by_id (registry_nodes ?reg) (plugin_id p) \<noteq> None" by (auto simp: edge_ok_def split: option.splits)
    then show False by (auto simp: by_id_None remove_nodes)
  qed
  ultimately show ?thesis by (auto simp: registry_get_remove)
qed

definition only_first :: semver where
  "only_first req v = Some (v = ''1.0.0'')"

lemma demo_reload_strands:
  "map_option (\<lambda>(r, reg). (r, map (plugin_id \<circ> snd) (reg_plugins reg)))
     (reload_plugin only_first id ''b'' True
       ((demo_loaded ''b'' [])\<lparr>pl_info := \<lparr>info_id = ''b'', info_version = ''2.0.0'', info_icon_url = None\<rparr>\<rparr>)
       demo_installed) =
   Some (Err (ReloadRefused (VersionMismatch ''a'' ''b'' ''*'' ''2.0.0'')), [''a''])"
  by code_simp

text \<open>
  Two installs that overlap: each is accepted against the registry both looked at, and when both have
  registered, one namespace has two plugins.
\<close>

definition demo_rival :: LoadedPlugin where
  "demo_rival = (demo_loaded ''c'' [])\<lparr>pl_manifest := map_option (\<lambda>m. m\<lparr>mf_namespace := Some ''b''\<rparr>)
     (pl_manifest (demo_loaded ''c'' []))\<rparr>"

theorem overlapping_installs_share_a_namespace:
  "fst (the (install any_version id (demo_loaded ''b'' []) (registry_new :: unit PluginRegistry))) = Ok () \<and>
   fst (the (install any_version id demo_rival (registry_new :: unit PluginRegistry))) = Ok () \<and>
   map (\<lambda>q. (plugin_id (snd q), plugin_namespace (snd q)))
     (reg_plugins (register id demo_rival (register id (demo_loaded ''b'' []) (registry_new :: unit PluginRegistry)))) =
   [(''b'', Some ''b''), (''c'', Some ''b'')]"
  by code_simp

end
