(* ===== verification/Limits.thy ===== *)
theory Limits
  imports Decimal "HOL-Library.Word"
begin

text \<open>
  What an instance may hold (crates/happyview-provider/src/limits.rs) and where its limits come from
  (src/limits.rs). Counts are \<open>u32\<close> words. Decoding the JSON of a limits file is serde: the
  argument \<open>from_str\<close> gives the limits of a text or the error. Reading the file is I/O: a read is
  the text, or the error.
\<close>

section \<open>Limits\<close>

datatype Limit = Seats | ApiClients | AnonymousXrpc | LogRetentionDays

definition ALL_LIMITS :: "Limit list" where
  "ALL_LIMITS = [Seats, ApiClients, AnonymousXrpc, LogRetentionDays]"

primrec limit_as_str :: "Limit \<Rightarrow> string" where
  "limit_as_str Seats = ''seats''"
| "limit_as_str ApiClients = ''api_clients''"
| "limit_as_str AnonymousXrpc = ''anonymous_xrpc''"
| "limit_as_str LogRetentionDays = ''log_retention_days''"

record Wording =
  w_message :: "string option"
  w_action_url :: "string option"
  w_action_label :: "string option"

definition default_wording :: Wording where
  "default_wording = \<lparr>w_message = None, w_action_url = None, w_action_label = None\<rparr>"

record Cap =
  cap_max :: "32 word"
  cap_wording :: Wording

record Gate =
  gate_allowed :: bool
  gate_wording :: Wording

record Limits =
  lim_seats :: "Cap option"
  lim_api_clients :: "Cap option"
  lim_anonymous_xrpc :: "Gate option"
  lim_log_retention_days :: "Cap option"

record LimitReached =
  lr_limit :: Limit
  lr_max :: "32 word option"
  lr_current :: "32 word option"
  lr_message :: string
  lr_action_url :: "string option"
  lr_action_label :: "string option"

definition generic_message :: "Limit \<Rightarrow> 32 word option \<Rightarrow> string" where
  "generic_message limit mx =
     (let n = unwrap_or mx 0; plural = (\<lambda>one many. if n = 1 then one else many) in
      case limit of
        Seats \<Rightarrow> ''This instance allows '' @ show_nat (unat n) @ '' '' @ plural ''admin'' ''admins'' @ ''.''
      | ApiClients \<Rightarrow> ''This instance allows '' @ show_nat (unat n) @ '' '' @ plural ''API client'' ''API clients'' @ ''.''
      | AnonymousXrpc \<Rightarrow> ''This instance only answers XRPC calls made with an API client.''
      | LogRetentionDays \<Rightarrow>
          ''This instance keeps logs for at most '' @ show_nat (unat n) @ '' '' @ plural ''day'' ''days'' @ ''.'')"

definition limit_reached_new :: "Limit \<Rightarrow> 32 word option \<Rightarrow> 32 word option \<Rightarrow> Wording \<Rightarrow> LimitReached" where
  "limit_reached_new limit mx current wording =
     (let message = (case w_message wording of
            Some m \<Rightarrow> if trim m \<noteq> [] then trim m else generic_message limit mx
          | None \<Rightarrow> generic_message limit mx);
          (url, label) = (case (w_action_url wording, w_action_label wording) of
            (Some url, Some label) \<Rightarrow>
              if trim url \<noteq> [] \<and> trim label \<noteq> [] then (Some (trim url), Some (trim label)) else (None, None)
          | _ \<Rightarrow> (None, None))
      in \<lparr>lr_limit = limit, lr_max = mx, lr_current = current, lr_message = message,
          lr_action_url = url, lr_action_label = label\<rparr>)"

definition limits_validate :: "Limits \<Rightarrow> string + unit" where
  "limits_validate l =
     (if is_some_and (lim_log_retention_days l) (\<lambda>c. cap_max c = 0)
      then Err ''log_retention_days must be at least 1 day: 0 would keep logs forever''
      else Ok ())"

definition cap_of :: "Limits \<Rightarrow> Limit \<Rightarrow> Cap option" where
  "cap_of l limit =
     (case limit of
        Seats \<Rightarrow> lim_seats l
      | ApiClients \<Rightarrow> lim_api_clients l
      | LogRetentionDays \<Rightarrow> lim_log_retention_days l
      | AnonymousXrpc \<Rightarrow> None)"

definition ceiling_of :: "Cap \<Rightarrow> 32 word" where
  "ceiling_of c = max (cap_max c) 1"

definition limits_check :: "Limits \<Rightarrow> Limit \<Rightarrow> 32 word \<Rightarrow> LimitReached + unit" where
  "limits_check l limit current =
     (case cap_of l limit of
        Some c \<Rightarrow>
          if current \<ge> cap_max c
          then Err (limit_reached_new limit (Some (cap_max c)) (Some current) (cap_wording c))
          else Ok ()
      | None \<Rightarrow> Ok ())"

definition allows_anonymous_xrpc :: "Limits \<Rightarrow> LimitReached + unit" where
  "allows_anonymous_xrpc l =
     (case lim_anonymous_xrpc l of
        Some g \<Rightarrow>
          if \<not> gate_allowed g then Err (limit_reached_new AnonymousXrpc None None (gate_wording g)) else Ok ()
      | None \<Rightarrow> Ok ())"

definition limits_cap :: "Limits \<Rightarrow> Limit \<Rightarrow> 32 word \<Rightarrow> 32 word" where
  "limits_cap l limit configured =
     (case map_option ceiling_of (cap_of l limit) of
        Some mx \<Rightarrow> if configured = 0 then mx else min configured mx
      | None \<Rightarrow> configured)"

definition check_ceiling :: "Limits \<Rightarrow> Limit \<Rightarrow> 32 word \<Rightarrow> LimitReached + unit" where
  "check_ceiling l limit requested =
     (case cap_of l limit of
        Some c \<Rightarrow>
          if requested = 0 \<or> requested > ceiling_of c
          then Err (limit_reached_new limit (Some (ceiling_of c)) None (cap_wording c))
          else Ok ()
      | None \<Rightarrow> Ok ())"

section \<open>From variables\<close>

primrec var_name :: "Limit \<Rightarrow> string" where
  "var_name Seats = ''HAPPYVIEW_LIMIT_SEATS''"
| "var_name ApiClients = ''HAPPYVIEW_LIMIT_API_CLIENTS''"
| "var_name AnonymousXrpc = ''HAPPYVIEW_LIMIT_ANONYMOUS_XRPC''"
| "var_name LogRetentionDays = ''HAPPYVIEW_LIMIT_LOG_RETENTION_DAYS''"

definition parse_u32 :: "string \<Rightarrow> 32 word option" where
  "parse_u32 s =
     (case parse_digits (case s of c # r \<Rightarrow> if c = CHR ''+'' then r else s | [] \<Rightarrow> []) of
        Some n \<Rightarrow> if n < 2 ^ 32 then Some (of_nat n) else None
      | None \<Rightarrow> None)"

definition raw_var :: "(string \<Rightarrow> string option) \<Rightarrow> Limit \<Rightarrow> string option" where
  "raw_var get limit =
     (case get (var_name limit) of
        Some v \<Rightarrow> if trim v \<noteq> [] then Some (trim v) else None
      | None \<Rightarrow> None)"

definition number_var :: "(string \<Rightarrow> string option) \<Rightarrow> Limit \<Rightarrow> string + Cap option" where
  "number_var get limit =
     (case raw_var get limit of
        None \<Rightarrow> Ok None
      | Some v \<Rightarrow>
          (case parse_u32 v of
             Some mx \<Rightarrow> Ok (Some \<lparr>cap_max = mx, cap_wording = default_wording\<rparr>)
           | None \<Rightarrow> Err (var_name limit @ '' must be a whole number, got '' @ [CHR 0x27] @ v @ [CHR 0x27])))"

definition gate_var :: "(string \<Rightarrow> string option) \<Rightarrow> string + Gate option" where
  "gate_var get =
     (case raw_var get AnonymousXrpc of
        None \<Rightarrow> Ok None
      | Some v \<Rightarrow>
          if to_ascii_lowercase v = ''true'' then Ok (Some \<lparr>gate_allowed = True, gate_wording = default_wording\<rparr>)
          else if to_ascii_lowercase v = ''false'' then Ok (Some \<lparr>gate_allowed = False, gate_wording = default_wording\<rparr>)
          else Err (var_name AnonymousXrpc @ '' must be true or false, got '' @ [CHR 0x27] @ v @ [CHR 0x27]))"

definition from_vars :: "(string \<Rightarrow> string option) \<Rightarrow> string + Limits" where
  "from_vars get =
     (case gate_var get of Err e \<Rightarrow> Err e | Ok anonymous \<Rightarrow>
      case number_var get Seats of Err e \<Rightarrow> Err e | Ok seats \<Rightarrow>
      case number_var get ApiClients of Err e \<Rightarrow> Err e | Ok clients \<Rightarrow>
      case number_var get LogRetentionDays of Err e \<Rightarrow> Err e | Ok days \<Rightarrow>
      (let l = \<lparr>lim_seats = seats, lim_api_clients = clients, lim_anonymous_xrpc = anonymous,
                lim_log_retention_days = days\<rparr> in
       case limits_validate l of
         Err e \<Rightarrow> Err (var_name LogRetentionDays @ '': '' @ e)
       | Ok _ \<Rightarrow> Ok l))"

section \<open>From a file\<close>

type_synonym decode_limits = "string \<Rightarrow> string + Limits"

definition limits_parse :: "decode_limits \<Rightarrow> string \<Rightarrow> string \<Rightarrow> string + Limits" where
  "limits_parse from_str path text =
     (case from_str text of
        Err e \<Rightarrow> Err (''the limits file '' @ path @ '' is not valid: '' @ e)
      | Ok l \<Rightarrow>
          (case limits_validate l of
             Err e \<Rightarrow> Err (''the limits file '' @ path @ '' is not valid: '' @ e)
           | Ok _ \<Rightarrow> Ok l))"

datatype Reload = Unchanged | Applied | Kept string

record FileLimits =
  fl_path :: string
  fl_current :: Limits
  fl_seen :: "string option"

definition limits_open :: "decode_limits \<Rightarrow> string \<Rightarrow> string + string \<Rightarrow> string + FileLimits" where
  "limits_open from_str path read =
     (case read of
        Err e \<Rightarrow> Err (''could not read the limits file '' @ path @ '': '' @ e)
      | Ok text \<Rightarrow>
          (case limits_parse from_str path text of
             Err e \<Rightarrow> Err e
           | Ok l \<Rightarrow> Ok \<lparr>fl_path = path, fl_current = l, fl_seen = Some text\<rparr>))"

definition limits_reload :: "decode_limits \<Rightarrow> string + string \<Rightarrow> FileLimits \<Rightarrow> Reload \<times> FileLimits" where
  "limits_reload from_str read f =
     (case read of
        Err e \<Rightarrow>
          if fl_seen f \<noteq> None
          then (Kept (''the limits file '' @ fl_path f @ '' can'' @ [CHR 0x27] @ ''t be read ('' @ e @
                  ''); keeping the last limits''), f\<lparr>fl_seen := None\<rparr>)
          else (Unchanged, f)
      | Ok text \<Rightarrow>
          if fl_seen f = Some text then (Unchanged, f)
          else (case limits_parse from_str (fl_path f) text of
                  Ok l \<Rightarrow> (Applied, f\<lparr>fl_seen := Some text, fl_current := l\<rparr>)
                | Err e \<Rightarrow> (Kept (e @ ''; keeping the last limits''), f\<lparr>fl_seen := Some text\<rparr>)))"

section \<open>Facts\<close>

lemma ceiling_pos: "1 \<le> ceiling_of c"
  by (simp add: ceiling_of_def)

lemma one_le_word_iff: "(1 :: 32 word) \<le> w \<longleftrightarrow> w \<noteq> 0"
  using word_gt_0 [of w] inc_le [of 0 w] by (auto simp: word_le_nat_alt)

lemma limits_parse_valid: "limits_parse from_str path text = Ok l \<Longrightarrow> limits_validate l = Ok ()"
  by (auto simp: limits_parse_def split: sum.splits)

definition reload_run :: "decode_limits \<Rightarrow> (string + string) list \<Rightarrow> FileLimits \<Rightarrow> FileLimits" where
  "reload_run from_str reads f = foldl (\<lambda>f r. snd (limits_reload from_str r f)) f reads"

definition good_read :: "decode_limits \<Rightarrow> string \<Rightarrow> string + string \<Rightarrow> Limits option" where
  "good_read from_str path read =
     (case read of
        Ok text \<Rightarrow> (case limits_parse from_str path text of Ok l \<Rightarrow> Some l | Err _ \<Rightarrow> None)
      | Err _ \<Rightarrow> None)"

definition last_good :: "decode_limits \<Rightarrow> string \<Rightarrow> Limits \<Rightarrow> (string + string) list \<Rightarrow> Limits" where
  "last_good from_str path l reads =
     foldl (\<lambda>l r. case good_read from_str path r of Some l' \<Rightarrow> l' | None \<Rightarrow> l) l reads"

definition seen_applied :: "decode_limits \<Rightarrow> FileLimits \<Rightarrow> bool" where
  "seen_applied from_str f \<longleftrightarrow>
     (\<forall>text l. fl_seen f = Some text \<longrightarrow> limits_parse from_str (fl_path f) text = Ok l \<longrightarrow> fl_current f = l)"

lemma reload_step:
  assumes "seen_applied from_str f"
  shows "seen_applied from_str (snd (limits_reload from_str r f)) \<and>
    fl_path (snd (limits_reload from_str r f)) = fl_path f \<and>
    fl_current (snd (limits_reload from_str r f)) =
      (case good_read from_str (fl_path f) r of Some l \<Rightarrow> l | None \<Rightarrow> fl_current f)"
  using assms by (auto simp: limits_reload_def seen_applied_def good_read_def split: sum.splits)

lemma reload_run_last_good:
  "seen_applied from_str f \<Longrightarrow> fl_current (reload_run from_str reads f) = last_good from_str (fl_path f) (fl_current f) reads"
proof (induction reads arbitrary: f)
  case (Cons r reads)
  from reload_step [OF Cons.prems, of r] Cons.IH [of "snd (limits_reload from_str r f)"]
  show ?case by (simp add: reload_run_def last_good_def)
qed (simp add: reload_run_def last_good_def)

lemma limits_open_ok:
  assumes "limits_open from_str path read = Ok f"
  shows "seen_applied from_str f" "fl_path f = path" "limits_validate (fl_current f) = Ok ()"
  using assms limits_parse_valid
  by (auto simp: limits_open_def seen_applied_def split: sum.splits)

lemma last_good_valid: "limits_validate l = Ok () \<Longrightarrow> limits_validate (last_good from_str path l reads) = Ok ()"
proof (induction reads arbitrary: l)
  case (Cons r reads)
  have "limits_validate l' = Ok ()" if "good_read from_str path r = Some l'" for l'
    using that limits_parse_valid by (auto simp: good_read_def split: sum.splits)
  with Cons show ?case by (auto simp: last_good_def split: option.split)
qed (simp add: last_good_def)

section \<open>Properties\<close>

text \<open>
  A ceiling on a setting holds for every \<open>u32\<close>: what \<open>cap\<close> gives under a limit is
  between 1 and the limit, so never the 0 that means forever, even under a limit of 0, which reads
  as 1. Setting a value outright is accepted exactly when capping would not change it, and a
  counted limit admits one more exactly while the count is below it.
\<close>

theorem ceilings_hold:
  "(case cap_of l limit of
      Some c \<Rightarrow> 1 \<le> limits_cap l limit v \<and> limits_cap l limit v \<le> max (cap_max c) 1
    | None \<Rightarrow> limits_cap l limit v = v) \<and>
   (check_ceiling l limit v = Ok () \<longleftrightarrow> limits_cap l limit v = v) \<and>
   (limits_check l limit v = Ok () \<longleftrightarrow> (case cap_of l limit of Some c \<Rightarrow> v < cap_max c | None \<Rightarrow> True))"
proof (cases "cap_of l limit")
  case None
  then show ?thesis by (simp add: limits_cap_def check_ceiling_def limits_check_def)
next
  case (Some c)
  have "ceiling_of c \<noteq> 0" using ceiling_pos [of c] by auto
  with Some show ?thesis
    by (auto simp: limits_cap_def check_ceiling_def limits_check_def one_le_word_iff ceiling_of_def [symmetric] min_def word_gt_0)
qed

text \<open>
  Property C39. The limits in force are those of the last read of the file that was there and
  valid, whatever was read since: a file that goes missing or stops parsing, for a time or for
  good, changes nothing, and limits that fail validation are never in force.
\<close>

theorem reload_keeps_last_good:
  assumes "limits_open from_str path read = Ok f"
  shows "fl_current (reload_run from_str reads f) = last_good from_str path (fl_current f) reads \<and>
    limits_validate (fl_current (reload_run from_str reads f)) = Ok ()"
  using limits_open_ok [OF assms] reload_run_last_good [of from_str f reads] last_good_valid by simp

definition no_limits :: Limits where
  "no_limits = \<lparr>lim_seats = None, lim_api_clients = None, lim_anonymous_xrpc = None, lim_log_retention_days = None\<rparr>"

definition demo_decode :: decode_limits where
  "demo_decode text = (if text = ''{}'' then Ok no_limits else Err ''bad'')"

theorem reload_keeps_last_good_witness:
  "fl_current (reload_run demo_decode [Err ''gone'', Ok ''{'']
      \<lparr>fl_path = ''l.json'', fl_current = no_limits, fl_seen = Some ''{}''\<rparr>) = no_limits"
proof -
  have "limits_open demo_decode ''l.json'' (Ok ''{}'') =
    Ok \<lparr>fl_path = ''l.json'', fl_current = no_limits, fl_seen = Some ''{}''\<rparr>"
    by (simp add: limits_open_def limits_parse_def demo_decode_def limits_validate_def no_limits_def is_some_and_def)
  from reload_keeps_last_good [OF this, of "[Err ''gone'', Ok ''{'']"] show ?thesis
    by (simp add: last_good_def good_read_def limits_parse_def demo_decode_def)
qed

end
