(* ===== verification/Admin_Permissions.thy ===== *)
theory Admin_Permissions
  imports Prelude
begin

text \<open>
  The permissions of the admin API and their templates (src/admin/permissions.rs). \<open>from_value\<close> is the
  decoding serde derives from the \<open>rename\<close> attributes of the enum; a hash set of permissions is
  the list it is built from.
\<close>

datatype Permission =
    LexiconsCreate | LexiconsRead | LexiconsDelete | LexiconsPublish | RecordsRead | RecordsDelete |
    RecordsDeleteCollection | ScriptVariablesCreate | ScriptVariablesRead | ScriptVariablesDelete |
    UsersCreate | UsersRead | UsersUpdate | UsersDelete | ApiKeysCreate | ApiKeysRead | ApiKeysDelete |
    BackfillCreate | BackfillRead | StatsRead | EventsRead | EventsPurge | MetricsRead |
    LabelersCreate | LabelersRead | LabelersDelete | SettingsManage | PluginsRead | PluginsCreate |
    PluginsDelete | ApiClientsView | ApiClientsCreate | ApiClientsEdit | ApiClientsDelete |
    DeadLettersRead | DeadLettersManage | SpacesCreate | SpacesRead | SpacesUpdate | SpacesDelete |
    SpacesManageMembers | SpacesManageInvites | SpacesManageRecords | SpacesManageCredentials |
    SpacesInspect | ScriptsRead | ScriptsManage | JobsRead | JobsCreate | JobsManage | LinkedReposRead |
    LinkedReposCreate | LinkedReposDelete | ProjectDeploy

definition serde_names :: "(string \<times> Permission) list" where
  "serde_names = [
    (''lexicons:create'', LexiconsCreate), (''lexicons:read'', LexiconsRead),
    (''lexicons:delete'', LexiconsDelete), (''lexicons:publish'', LexiconsPublish),
    (''records:read'', RecordsRead), (''records:delete'', RecordsDelete),
    (''records:delete-collection'', RecordsDeleteCollection),
    (''script-variables:create'', ScriptVariablesCreate),
    (''script-variables:read'', ScriptVariablesRead),
    (''script-variables:delete'', ScriptVariablesDelete), (''users:create'', UsersCreate),
    (''users:read'', UsersRead), (''users:update'', UsersUpdate), (''users:delete'', UsersDelete),
    (''api-keys:create'', ApiKeysCreate), (''api-keys:read'', ApiKeysRead),
    (''api-keys:delete'', ApiKeysDelete), (''backfill:create'', BackfillCreate),
    (''backfill:read'', BackfillRead), (''stats:read'', StatsRead), (''events:read'', EventsRead),
    (''events:purge'', EventsPurge), (''metrics:read'', MetricsRead),
    (''labelers:create'', LabelersCreate), (''labelers:read'', LabelersRead),
    (''labelers:delete'', LabelersDelete), (''settings:manage'', SettingsManage),
    (''plugins:read'', PluginsRead), (''plugins:create'', PluginsCreate),
    (''plugins:delete'', PluginsDelete), (''api-clients:view'', ApiClientsView),
    (''api-clients:create'', ApiClientsCreate), (''api-clients:edit'', ApiClientsEdit),
    (''api-clients:delete'', ApiClientsDelete), (''dead-letters:read'', DeadLettersRead),
    (''dead-letters:manage'', DeadLettersManage), (''spaces:create'', SpacesCreate),
    (''spaces:read'', SpacesRead), (''spaces:update'', SpacesUpdate), (''spaces:delete'', SpacesDelete),
    (''spaces:manage-members'', SpacesManageMembers), (''spaces:manage-invites'', SpacesManageInvites),
    (''spaces:manage-records'', SpacesManageRecords),
    (''spaces:manage-credentials'', SpacesManageCredentials), (''spaces:inspect'', SpacesInspect),
    (''scripts:read'', ScriptsRead), (''scripts:manage'', ScriptsManage), (''jobs:read'', JobsRead),
    (''jobs:create'', JobsCreate), (''jobs:manage'', JobsManage),
    (''linked-repos:read'', LinkedReposRead), (''linked-repos:create'', LinkedReposCreate),
    (''linked-repos:delete'', LinkedReposDelete), (''project:deploy'', ProjectDeploy)]"

definition from_value :: "string \<Rightarrow> Permission option" where
  "from_value key = map_of serde_names key"

primrec as_str :: "Permission \<Rightarrow> string" where
  "as_str LexiconsCreate = ''lexicons:create''"
| "as_str LexiconsRead = ''lexicons:read''"
| "as_str LexiconsDelete = ''lexicons:delete''"
| "as_str LexiconsPublish = ''lexicons:publish''"
| "as_str RecordsRead = ''records:read''"
| "as_str RecordsDelete = ''records:delete''"
| "as_str RecordsDeleteCollection = ''records:delete-collection''"
| "as_str ScriptVariablesCreate = ''script-variables:create''"
| "as_str ScriptVariablesRead = ''script-variables:read''"
| "as_str ScriptVariablesDelete = ''script-variables:delete''"
| "as_str UsersCreate = ''users:create''"
| "as_str UsersRead = ''users:read''"
| "as_str UsersUpdate = ''users:update''"
| "as_str UsersDelete = ''users:delete''"
| "as_str ApiKeysCreate = ''api-keys:create''"
| "as_str ApiKeysRead = ''api-keys:read''"
| "as_str ApiKeysDelete = ''api-keys:delete''"
| "as_str BackfillCreate = ''backfill:create''"
| "as_str BackfillRead = ''backfill:read''"
| "as_str StatsRead = ''stats:read''"
| "as_str EventsRead = ''events:read''"
| "as_str EventsPurge = ''events:purge''"
| "as_str MetricsRead = ''metrics:read''"
| "as_str LabelersCreate = ''labelers:create''"
| "as_str LabelersRead = ''labelers:read''"
| "as_str LabelersDelete = ''labelers:delete''"
| "as_str SettingsManage = ''settings:manage''"
| "as_str PluginsRead = ''plugins:read''"
| "as_str PluginsCreate = ''plugins:create''"
| "as_str PluginsDelete = ''plugins:delete''"
| "as_str ApiClientsView = ''api-clients:view''"
| "as_str ApiClientsCreate = ''api-clients:create''"
| "as_str ApiClientsEdit = ''api-clients:edit''"
| "as_str ApiClientsDelete = ''api-clients:delete''"
| "as_str DeadLettersRead = ''dead-letters:read''"
| "as_str DeadLettersManage = ''dead-letters:manage''"
| "as_str SpacesCreate = ''spaces:create''"
| "as_str SpacesRead = ''spaces:read''"
| "as_str SpacesUpdate = ''spaces:update''"
| "as_str SpacesDelete = ''spaces:delete''"
| "as_str SpacesManageMembers = ''spaces:manage-members''"
| "as_str SpacesManageInvites = ''spaces:manage-invites''"
| "as_str SpacesManageRecords = ''spaces:manage-records''"
| "as_str SpacesManageCredentials = ''spaces:manage-credentials''"
| "as_str SpacesInspect = ''spaces:inspect''"
| "as_str ScriptsRead = ''scripts:read''"
| "as_str ScriptsManage = ''scripts:manage''"
| "as_str JobsRead = ''jobs:read''"
| "as_str JobsCreate = ''jobs:create''"
| "as_str JobsManage = ''jobs:manage''"
| "as_str LinkedReposRead = ''linked-repos:read''"
| "as_str LinkedReposCreate = ''linked-repos:create''"
| "as_str LinkedReposDelete = ''linked-repos:delete''"
| "as_str ProjectDeploy = ''project:deploy''"

record PermissionInfo =
  info_key :: string
  info_name :: string
  info_description :: string
  info_category :: string

primrec permission_info :: "Permission \<Rightarrow> PermissionInfo" where
  "permission_info LexiconsCreate = \<lparr>info_key = ''lexicons:create'', info_name = ''Create Lexicons'',
     info_description = ''Upload and register new lexicon schemas'',
     info_category = ''Lexicons''\<rparr>"
| "permission_info LexiconsRead = \<lparr>info_key = ''lexicons:read'', info_name = ''View Lexicons'',
     info_description = ''View registered lexicon schemas'',
     info_category = ''Lexicons''\<rparr>"
| "permission_info LexiconsDelete = \<lparr>info_key = ''lexicons:delete'', info_name = ''Delete Lexicons'',
     info_description = ''Remove lexicon schemas'',
     info_category = ''Lexicons''\<rparr>"
| "permission_info LexiconsPublish = \<lparr>info_key = ''lexicons:publish'', info_name = ''Publish Lexicons'',
     info_description = ''Publish lexicons to the network and manage publishing rules'',
     info_category = ''Lexicons''\<rparr>"
| "permission_info RecordsRead = \<lparr>info_key = ''records:read'', info_name = ''View Records'',
     info_description = ''Browse indexed AT Protocol records'',
     info_category = ''Records''\<rparr>"
| "permission_info RecordsDelete = \<lparr>info_key = ''records:delete'', info_name = ''Delete Records'',
     info_description = ''Delete individual records from the index'',
     info_category = ''Records''\<rparr>"
| "permission_info RecordsDeleteCollection = \<lparr>info_key = ''records:delete-collection'', info_name = ''Delete Collections'',
     info_description = ''Bulk-delete all records in a collection'',
     info_category = ''Records''\<rparr>"
| "permission_info ScriptVariablesCreate = \<lparr>info_key = ''script-variables:create'', info_name = ''Create Script Variables'',
     info_description = ''Add or update script variables'',
     info_category = ''Script Variables''\<rparr>"
| "permission_info ScriptVariablesRead = \<lparr>info_key = ''script-variables:read'', info_name = ''View Script Variables'',
     info_description = ''View script variable keys, with values masked'',
     info_category = ''Script Variables''\<rparr>"
| "permission_info ScriptVariablesDelete = \<lparr>info_key = ''script-variables:delete'', info_name = ''Delete Script Variables'',
     info_description = ''Remove script variables'',
     info_category = ''Script Variables''\<rparr>"
| "permission_info UsersCreate = \<lparr>info_key = ''users:create'', info_name = ''Create Users'',
     info_description = ''Add operators to the instance'',
     info_category = ''Users''\<rparr>"
| "permission_info UsersRead = \<lparr>info_key = ''users:read'', info_name = ''View Users'',
     info_description = ''View operators and their permissions'',
     info_category = ''Users''\<rparr>"
| "permission_info UsersUpdate = \<lparr>info_key = ''users:update'', info_name = ''Update Users'',
     info_description = ''Change an operator's permissions'',
     info_category = ''Users''\<rparr>"
| "permission_info UsersDelete = \<lparr>info_key = ''users:delete'', info_name = ''Delete Users'',
     info_description = ''Remove operators from the instance'',
     info_category = ''Users''\<rparr>"
| "permission_info ApiKeysCreate = \<lparr>info_key = ''api-keys:create'', info_name = ''Create API Keys'',
     info_description = ''Generate new API keys for admin access'',
     info_category = ''API Keys''\<rparr>"
| "permission_info ApiKeysRead = \<lparr>info_key = ''api-keys:read'', info_name = ''View API Keys'',
     info_description = ''View existing API keys'',
     info_category = ''API Keys''\<rparr>"
| "permission_info ApiKeysDelete = \<lparr>info_key = ''api-keys:delete'', info_name = ''Revoke API Keys'',
     info_description = ''Revoke existing API keys'',
     info_category = ''API Keys''\<rparr>"
| "permission_info BackfillCreate = \<lparr>info_key = ''backfill:create'', info_name = ''Start Backfill'',
     info_description = ''Trigger historical record backfill jobs'',
     info_category = ''Backfill''\<rparr>"
| "permission_info BackfillRead = \<lparr>info_key = ''backfill:read'', info_name = ''View Backfill'',
     info_description = ''View backfill job status and progress'',
     info_category = ''Backfill''\<rparr>"
| "permission_info StatsRead = \<lparr>info_key = ''stats:read'', info_name = ''View Stats'',
     info_description = ''View collection statistics and record counts'',
     info_category = ''System''\<rparr>"
| "permission_info EventsRead = \<lparr>info_key = ''events:read'', info_name = ''View Events'',
     info_description = ''View the event log'',
     info_category = ''System''\<rparr>"
| "permission_info EventsPurge = \<lparr>info_key = ''events:purge'', info_name = ''Purge Events'',
     info_description = ''Bulk-delete event log entries matching a filter'',
     info_category = ''System''\<rparr>"
| "permission_info MetricsRead = \<lparr>info_key = ''metrics:read'', info_name = ''View Metrics'',
     info_description = ''View script run counts, latency, errors and resource use'',
     info_category = ''System''\<rparr>"
| "permission_info LabelersCreate = \<lparr>info_key = ''labelers:create'', info_name = ''Add Labelers'',
     info_description = ''Subscribe to external labeler services'',
     info_category = ''Labelers''\<rparr>"
| "permission_info LabelersRead = \<lparr>info_key = ''labelers:read'', info_name = ''View Labelers'',
     info_description = ''View subscribed labeler services'',
     info_category = ''Labelers''\<rparr>"
| "permission_info LabelersDelete = \<lparr>info_key = ''labelers:delete'', info_name = ''Remove Labelers'',
     info_description = ''Unsubscribe from labeler services'',
     info_category = ''Labelers''\<rparr>"
| "permission_info SettingsManage = \<lparr>info_key = ''settings:manage'', info_name = ''Manage Settings'',
     info_description = ''Modify instance settings, logo, and configuration'',
     info_category = ''Settings''\<rparr>"
| "permission_info PluginsRead = \<lparr>info_key = ''plugins:read'', info_name = ''View Plugins'',
     info_description = ''View installed plugins and their configuration'',
     info_category = ''Plugins''\<rparr>"
| "permission_info PluginsCreate = \<lparr>info_key = ''plugins:create'', info_name = ''Install Plugins'',
     info_description = ''Install and configure new plugins'',
     info_category = ''Plugins''\<rparr>"
| "permission_info PluginsDelete = \<lparr>info_key = ''plugins:delete'', info_name = ''Remove Plugins'',
     info_description = ''Uninstall plugins'',
     info_category = ''Plugins''\<rparr>"
| "permission_info ApiClientsView = \<lparr>info_key = ''api-clients:view'', info_name = ''View API Clients'',
     info_description = ''View registered OAuth API clients'',
     info_category = ''API Clients''\<rparr>"
| "permission_info ApiClientsCreate = \<lparr>info_key = ''api-clients:create'', info_name = ''Create API Clients'',
     info_description = ''Register new OAuth API clients'',
     info_category = ''API Clients''\<rparr>"
| "permission_info ApiClientsEdit = \<lparr>info_key = ''api-clients:edit'', info_name = ''Edit API Clients'',
     info_description = ''Modify API client settings and credentials'',
     info_category = ''API Clients''\<rparr>"
| "permission_info ApiClientsDelete = \<lparr>info_key = ''api-clients:delete'', info_name = ''Delete API Clients'',
     info_description = ''Remove registered API clients'',
     info_category = ''API Clients''\<rparr>"
| "permission_info DeadLettersRead = \<lparr>info_key = ''dead-letters:read'', info_name = ''View Dead Letters'',
     info_description = ''View failed hook executions'',
     info_category = ''Dead Letters''\<rparr>"
| "permission_info DeadLettersManage = \<lparr>info_key = ''dead-letters:manage'', info_name = ''Manage Dead Letters'',
     info_description = ''Retry, re-index, or dismiss dead letters'',
     info_category = ''Dead Letters''\<rparr>"
| "permission_info SpacesCreate = \<lparr>info_key = ''spaces:create'', info_name = ''Create Spaces'',
     info_description = ''Create new permissioned data spaces'',
     info_category = ''Spaces''\<rparr>"
| "permission_info SpacesRead = \<lparr>info_key = ''spaces:read'', info_name = ''View Spaces'',
     info_description = ''View space details, metadata, and members'',
     info_category = ''Spaces''\<rparr>"
| "permission_info SpacesUpdate = \<lparr>info_key = ''spaces:update'', info_name = ''Update Spaces'',
     info_description = ''Modify space settings'',
     info_category = ''Spaces''\<rparr>"
| "permission_info SpacesDelete = \<lparr>info_key = ''spaces:delete'', info_name = ''Delete Spaces'',
     info_description = ''Remove spaces and their data'',
     info_category = ''Spaces''\<rparr>"
| "permission_info SpacesManageMembers = \<lparr>info_key = ''spaces:manage-members'', info_name = ''Manage Members'',
     info_description = ''Add or remove space members and roles'',
     info_category = ''Spaces''\<rparr>"
| "permission_info SpacesManageInvites = \<lparr>info_key = ''spaces:manage-invites'', info_name = ''Manage Invites'',
     info_description = ''Create and revoke space invitations'',
     info_category = ''Spaces''\<rparr>"
| "permission_info SpacesManageRecords = \<lparr>info_key = ''spaces:manage-records'', info_name = ''Manage Records'',
     info_description = ''Reserved; grants no access. Use `spaces:inspect` to read space contents.'',
     info_category = ''Spaces''\<rparr>"
| "permission_info SpacesManageCredentials = \<lparr>info_key = ''spaces:manage-credentials'', info_name = ''Manage Credentials'',
     info_description = ''Issue and revoke space access credentials'',
     info_category = ''Spaces''\<rparr>"
| "permission_info SpacesInspect = \<lparr>info_key = ''spaces:inspect'', info_name = ''Inspect Space Contents'',
     info_description = ''Request time-limited access to read records and blobs in private spaces'',
     info_category = ''Spaces''\<rparr>"
| "permission_info ScriptsRead = \<lparr>info_key = ''scripts:read'', info_name = ''View Scripts'',
     info_description = ''View trigger-keyed scripts'',
     info_category = ''Scripts''\<rparr>"
| "permission_info ScriptsManage = \<lparr>info_key = ''scripts:manage'', info_name = ''Manage Scripts'',
     info_description = ''Create, update, and delete trigger-keyed scripts'',
     info_category = ''Scripts''\<rparr>"
| "permission_info JobsRead = \<lparr>info_key = ''jobs:read'', info_name = ''View Jobs'',
     info_description = ''View background job status and progress'',
     info_category = ''Jobs''\<rparr>"
| "permission_info JobsCreate = \<lparr>info_key = ''jobs:create'', info_name = ''Create Jobs'',
     info_description = ''Queue new background jobs'',
     info_category = ''Jobs''\<rparr>"
| "permission_info JobsManage = \<lparr>info_key = ''jobs:manage'', info_name = ''Manage Jobs'',
     info_description = ''Cancel, pause, and resume background jobs'',
     info_category = ''Jobs''\<rparr>"
| "permission_info LinkedReposRead = \<lparr>info_key = ''linked-repos:read'', info_name = ''View Linked Repos'',
     info_description = ''View linked repos, their status, and their scopes'',
     info_category = ''Linked Repos''\<rparr>"
| "permission_info LinkedReposCreate = \<lparr>info_key = ''linked-repos:create'', info_name = ''Link Repos'',
     info_description = ''Add linked repos and start authorization flows'',
     info_category = ''Linked Repos''\<rparr>"
| "permission_info LinkedReposDelete = \<lparr>info_key = ''linked-repos:delete'', info_name = ''Unlink Repos'',
     info_description = ''Revoke linked repos and delete their stored sessions'',
     info_category = ''Linked Repos''\<rparr>"
| "permission_info ProjectDeploy = \<lparr>info_key = ''project:deploy'', info_name = ''Deploy Project'',
     info_description = ''Replace the instance's project with a deployed bundle and start the backfills it declares'',
     info_category = ''Project''\<rparr>"

definition all_permissions :: "Permission list" where
  "all_permissions = [
    LexiconsCreate, LexiconsRead, LexiconsDelete, LexiconsPublish, RecordsRead, RecordsDelete,
    RecordsDeleteCollection, ScriptVariablesCreate, ScriptVariablesRead, ScriptVariablesDelete,
    UsersCreate, UsersRead, UsersUpdate, UsersDelete, ApiKeysCreate, ApiKeysRead, ApiKeysDelete,
    BackfillCreate, BackfillRead, StatsRead, EventsRead, EventsPurge, MetricsRead, LabelersCreate,
    LabelersRead, LabelersDelete, SettingsManage, PluginsRead, PluginsCreate, PluginsDelete,
    ApiClientsView, ApiClientsCreate, ApiClientsEdit, ApiClientsDelete, DeadLettersRead,
    DeadLettersManage, SpacesCreate, SpacesRead, SpacesUpdate, SpacesDelete, SpacesManageMembers,
    SpacesManageInvites, SpacesManageRecords, SpacesManageCredentials, SpacesInspect, ScriptsRead,
    ScriptsManage, JobsRead, JobsCreate, JobsManage, LinkedReposRead, LinkedReposCreate,
    LinkedReposDelete, ProjectDeploy]"

definition catalog_order :: "Permission list" where
  "catalog_order = [
    LexiconsCreate, LexiconsRead, LexiconsDelete, LexiconsPublish, RecordsRead, RecordsDelete,
    RecordsDeleteCollection, ScriptsRead, ScriptsManage, ScriptVariablesCreate, ScriptVariablesRead,
    ScriptVariablesDelete, UsersCreate, UsersRead, UsersUpdate, UsersDelete, ApiKeysCreate, ApiKeysRead,
    ApiKeysDelete, BackfillCreate, BackfillRead, StatsRead, EventsRead, EventsPurge, MetricsRead,
    LabelersCreate, LabelersRead, LabelersDelete, SettingsManage, PluginsRead, PluginsCreate,
    PluginsDelete, ApiClientsView, ApiClientsCreate, ApiClientsEdit, ApiClientsDelete, DeadLettersRead,
    DeadLettersManage, SpacesCreate, SpacesRead, SpacesUpdate, SpacesDelete, SpacesManageMembers,
    SpacesManageInvites, SpacesManageRecords, SpacesManageCredentials, SpacesInspect, JobsRead,
    JobsCreate, JobsManage, LinkedReposRead, LinkedReposCreate, LinkedReposDelete, ProjectDeploy]"

definition catalog :: "PermissionInfo list" where
  "catalog = map permission_info catalog_order"

definition is_valid :: "string \<Rightarrow> bool" where
  "is_valid key \<longleftrightarrow> from_value key \<noteq> None"

datatype Template = Viewer | Maintainer | Manager | FullAccess

definition ALL_TEMPLATES :: "Template list" where
  "ALL_TEMPLATES = [Viewer, Maintainer, Manager, FullAccess]"

primrec template_key :: "Template \<Rightarrow> string" where
  "template_key Viewer = ''viewer''"
| "template_key Maintainer = ''maintainer''"
| "template_key Manager = ''manager''"
| "template_key FullAccess = ''full_access''"

primrec template_label :: "Template \<Rightarrow> string" where
  "template_label Viewer = ''Viewer''"
| "template_label Maintainer = ''Maintainer''"
| "template_label Manager = ''Manager''"
| "template_label FullAccess = ''Full Access''"

definition viewer_permissions :: "Permission list" where
  "viewer_permissions = [
    LexiconsRead, RecordsRead, ScriptVariablesRead, ScriptsRead, UsersRead, ApiKeysRead, BackfillRead,
    StatsRead, EventsRead, MetricsRead, DeadLettersRead]"

definition maintainer_permissions :: "Permission list" where
  "maintainer_permissions = viewer_permissions @ [
    BackfillCreate, ApiKeysCreate, ApiKeysDelete, DeadLettersManage]"

definition manager_permissions :: "Permission list" where
  "manager_permissions = maintainer_permissions @ [
    LexiconsCreate, LexiconsDelete, LexiconsPublish, ScriptVariablesCreate, ScriptVariablesDelete,
    ScriptsManage, ProjectDeploy, RecordsDelete, LabelersCreate, LabelersRead, LabelersDelete,
    SettingsManage, PluginsRead, PluginsCreate, PluginsDelete, ApiClientsView, ApiClientsCreate,
    ApiClientsEdit, ApiClientsDelete, SpacesCreate, SpacesRead, SpacesUpdate, SpacesDelete,
    SpacesManageMembers, SpacesManageInvites, SpacesManageRecords, SpacesManageCredentials]"

primrec template_permissions :: "Template \<Rightarrow> Permission list" where
  "template_permissions Viewer = viewer_permissions"
| "template_permissions Maintainer = maintainer_permissions"
| "template_permissions Manager = manager_permissions"
| "template_permissions FullAccess = all_permissions"

record TemplateInfo =
  tinfo_key :: string
  tinfo_label :: string
  tinfo_permissions :: "string list"

definition template_info :: "Template \<Rightarrow> TemplateInfo" where
  "template_info t = \<lparr>tinfo_key = template_key t, tinfo_label = template_label t,
     tinfo_permissions = map as_str (template_permissions t)\<rparr>"

section \<open>Facts\<close>

lemma in_all_permissions: "p \<in> set all_permissions"
  by (cases p) (simp_all add: all_permissions_def)

lemma set_all_permissions [simp]: "set all_permissions = UNIV"
  using in_all_permissions by auto

lemma distinct_all_permissions: "distinct all_permissions"
  by (simp add: all_permissions_def)

lemma as_str_serde: "serde_names = map (\<lambda>p. (as_str p, p)) all_permissions"
  by (simp add: serde_names_def all_permissions_def)

lemma distinct_as_str: "distinct (map as_str all_permissions)"
  by code_simp

lemma as_str_inj: "as_str p = as_str q \<Longrightarrow> p = q"
  using distinct_as_str by (simp add: distinct_map inj_on_def)

lemma from_value_as_str [simp]: "from_value (as_str p) = Some p"
  unfolding from_value_def as_str_serde
  by (rule map_of_is_SomeI) (use distinct_as_str in \<open>auto simp: comp_def in_all_permissions\<close>)

lemma from_value_Some_iff: "from_value s = Some p \<longleftrightarrow> s = as_str p"
proof
  assume "from_value s = Some p"
  then show "s = as_str p" unfolding from_value_def as_str_serde by (auto dest!: map_of_SomeD)
qed simp

lemma info_key_as_str [simp]: "info_key (permission_info p) = as_str p"
  by (cases p) simp_all

lemma catalog_info_keys: "map info_key catalog = map as_str catalog_order"
  by (simp add: catalog_def)

lemma distinct_catalog: "distinct (map info_key catalog)"
proof -
  have "distinct catalog_order" by (simp add: catalog_order_def)
  then show ?thesis unfolding catalog_info_keys by (auto simp: distinct_map inj_on_def dest: as_str_inj)
qed

lemma in_catalog_order: "p \<in> set catalog_order"
  by (cases p) (simp_all add: catalog_order_def)

lemma catalog_keys: "set (map info_key catalog) = range as_str"
  unfolding catalog_info_keys using in_catalog_order by auto

lemma templates_nested:
  "set viewer_permissions \<subseteq> set maintainer_permissions" "set maintainer_permissions \<subseteq> set manager_permissions"
  unfolding maintainer_permissions_def manager_permissions_def set_append by (rule Un_upper1)+

lemma templates_grow:
  "BackfillCreate \<notin> set viewer_permissions" "BackfillCreate \<in> set maintainer_permissions"
  "LexiconsCreate \<notin> set maintainer_permissions" "LexiconsCreate \<in> set manager_permissions"
  "UsersCreate \<notin> set manager_permissions" "EventsPurge \<notin> set manager_permissions"
  "SpacesInspect \<notin> set manager_permissions"
  by (simp_all add: viewer_permissions_def maintainer_permissions_def manager_permissions_def)

section \<open>Properties\<close>

text \<open>
  Property C40. The tables of permission names agree and cover the type: the name a permission is
  stored under decodes to it and only it, and the catalog describes every permission exactly once
  under that name. The templates are nested, each with strictly more than the one below, and only
  full access, which is everything, may create users, purge events or inspect spaces.
\<close>

theorem permission_tables_agree:
  "(from_value s = Some p \<longleftrightarrow> s = as_str p) \<and>
   distinct (map info_key catalog) \<and> set (map info_key catalog) = range as_str \<and>
   set (template_permissions Viewer) \<subset> set (template_permissions Maintainer) \<and>
   set (template_permissions Maintainer) \<subset> set (template_permissions Manager) \<and>
   set (template_permissions FullAccess) = UNIV \<and>
   set (template_permissions Manager) \<inter> {UsersCreate, EventsPurge, SpacesInspect} = {}"
  using from_value_Some_iff [of s p] distinct_catalog catalog_keys templates_nested templates_grow
  unfolding template_permissions.simps set_all_permissions psubset_eq by blast

end
