(* ===== verification/App_Error.thy ===== *)
theory App_Error
  imports Limits
begin

text \<open>The errors a handler returns (src/error.rs).\<close>

datatype AppError =
    EAuth string
  | EBadRequest string
  | EConflict string
  | EForbidden string
  | EInsufficientPermissions string
  | EInternal string
  | ENotFound string
  | ELimitReached LimitReached
  | EXrpc nat string string

definition internal :: "string \<Rightarrow> string \<Rightarrow> AppError" where
  "internal label e = EInternal (label @ '': '' @ e)"

end
