(* ===== verification/Actions.thy ===== *)
theory Actions
  imports Prelude
begin

text \<open>
  Handlers over a database as actions on a state of tables: an action returns an error or a value with
  the tables after it. Statements are numbered and \<open>faults\<close> says which fail and with what text; a
  transaction that fails puts the tables back. With them the retries of
  crates/happyview-provider/src/db.rs and a small program logic: \<open>triple P m Q R\<close> says that \<open>m\<close>, started
  where \<open>P\<close> holds, ends with \<open>Q\<close> of its value and tables, or with \<open>R\<close> of the tables it leaves when it
  fails. The rules in \<open>act_rules\<close> take an action apart statement by statement.
\<close>

section \<open>Actions\<close>

text \<open>An action may change the tables before it fails: only a transaction takes its changes back.\<close>

type_synonym ('s, 'e, 'a) act = "'s \<Rightarrow> ('e + 'a) \<times> 's"

type_synonym faults = "nat \<Rightarrow> string option"

definition ret :: "'a \<Rightarrow> ('s, 'e, 'a) act" where
  "ret x db = (Ok x, db)"

definition fail :: "'e \<Rightarrow> ('s, 'e, 'a) act" where
  "fail e db = (Err e, db)"

definition seq_act :: "('s, 'e, 'a) act \<Rightarrow> ('a \<Rightarrow> ('s, 'e, 'b) act) \<Rightarrow> ('s, 'e, 'b) act" where
  "seq_act m k db = (case m db of (Inl e, db') \<Rightarrow> (Err e, db') | (Inr x, db') \<Rightarrow> k x db')"

definition lift_result :: "'e + 'a \<Rightarrow> ('s, 'e, 'a) act" where
  "lift_result r db = (r, db)"

definition map_err_act :: "('e \<Rightarrow> 'f) \<Rightarrow> ('s, 'e, 'a) act \<Rightarrow> ('s, 'f, 'a) act" where
  "map_err_act g m db = (case m db of (Inl e, db') \<Rightarrow> (Err (g e), db') | (Inr x, db') \<Rightarrow> (Ok x, db'))"

text \<open>A failing statement's text goes through \<open>err\<close>, the caller's \<open>map_err\<close>.\<close>

definition query :: "faults \<Rightarrow> nat \<Rightarrow> (string \<Rightarrow> 'e) \<Rightarrow> ('s \<Rightarrow> 'a) \<Rightarrow> ('s, 'e, 'a) act" where
  "query faults n err q db =
     (case faults n of Some e \<Rightarrow> (Err (err e), db) | None \<Rightarrow> (Ok (q db), db))"

text \<open>A statement that changes the tables; \<open>None\<close> where a constraint refuses it.\<close>

definition execute :: "faults \<Rightarrow> nat \<Rightarrow> (string \<Rightarrow> 'e) \<Rightarrow> ('s \<Rightarrow> 's option) \<Rightarrow> ('s, 'e, unit) act" where
  "execute faults n err u db =
     (case faults n of
        Some e \<Rightarrow> (Err (err e), db)
      | None \<Rightarrow> (case u db of
                   Some db' \<Rightarrow> (Ok (), db')
                 | None \<Rightarrow> (Err (err ''constraint failed''), db)))"

fun each_act :: "(nat \<Rightarrow> 'b \<Rightarrow> ('s, 'e, unit) act) \<Rightarrow> nat \<Rightarrow> 'b list \<Rightarrow> ('s, 'e, unit) act" where
  "each_act f n [] = ret ()"
| "each_act f n (x # xs) = seq_act (f n x) (\<lambda>_. each_act f (Suc n) xs)"

fun collect_act :: "(nat \<Rightarrow> 'b \<Rightarrow> ('s, 'e, 'a) act) \<Rightarrow> nat \<Rightarrow> 'b list \<Rightarrow> ('s, 'e, 'a list) act" where
  "collect_act f n [] = ret []"
| "collect_act f n (x # xs) = seq_act (f n x) (\<lambda>y. seq_act (collect_act f (Suc n) xs) (\<lambda>ys. ret (y # ys)))"

definition ignore_err :: "('s, 'e, unit) act \<Rightarrow> ('s, 'f, unit) act" where
  "ignore_err m db = (Ok (), snd (m db))"

definition transaction :: "('s, 'e, 'a) act \<Rightarrow> ('s, 'e, 'a) act" where
  "transaction m db = (case m db of (Inl e, _) \<Rightarrow> (Err e, db) | (Inr x, db') \<Rightarrow> (Ok x, db'))"

section \<open>Retries\<close>

definition BUSY_RETRY_ATTEMPTS :: nat where
  "BUSY_RETRY_ATTEMPTS = 3"

function retry_on_busy :: "(string \<Rightarrow> bool) \<Rightarrow> (nat \<Rightarrow> ('s, string, 'a) act) \<Rightarrow> nat \<Rightarrow> ('s, string, 'a) act" where
  "retry_on_busy retryable attempt_with attempt db =
     (case attempt_with attempt db of
        (Inl e, db') \<Rightarrow>
          if attempt < BUSY_RETRY_ATTEMPTS \<and> retryable e
          then retry_on_busy retryable attempt_with (attempt + 1) db' else (Err e, db')
      | (Inr x, db') \<Rightarrow> (Ok x, db'))"
  by pat_completeness auto
termination
  by (relation "measure (\<lambda>(_, _, attempt, _). BUSY_RETRY_ATTEMPTS - attempt)") auto

declare retry_on_busy.simps [simp del]

section \<open>Program logic\<close>

named_theorems act_rules

definition triple ::
  "('s \<Rightarrow> bool) \<Rightarrow> ('s, 'e, 'a) act \<Rightarrow> ('a \<Rightarrow> 's \<Rightarrow> bool) \<Rightarrow> ('s \<Rightarrow> bool) \<Rightarrow> bool" where
  "triple P m Q R \<longleftrightarrow> (\<forall>db. P db \<longrightarrow> (case m db of (Inl _, db') \<Rightarrow> R db' | (Inr x, db') \<Rightarrow> Q x db'))"

definition keeps :: "('s \<Rightarrow> bool) \<Rightarrow> ('s, 'e, 'a) act \<Rightarrow> bool" where
  "keeps P m \<longleftrightarrow> triple P m (\<lambda>_. P) P"

lemma tripleI:
  "(\<And>db e db'. P db \<Longrightarrow> m db = (Inl e, db') \<Longrightarrow> R db') \<Longrightarrow>
   (\<And>db x db'. P db \<Longrightarrow> m db = (Inr x, db') \<Longrightarrow> Q x db') \<Longrightarrow> triple P m Q R"
  by (auto simp: triple_def split: prod.splits sum.splits)

lemma triple_Ok: "triple P m Q R \<Longrightarrow> P db \<Longrightarrow> m db = (Inr x, db') \<Longrightarrow> Q x db'"
  by (auto simp: triple_def)

lemma triple_Err: "triple P m Q R \<Longrightarrow> P db \<Longrightarrow> m db = (Inl e, db') \<Longrightarrow> R db'"
  by (auto simp: triple_def)

lemma keeps_iff: "keeps P m \<longleftrightarrow> (\<forall>db. P db \<longrightarrow> P (snd (m db)))"
proof -
  have "(case m db of (Inl _, db') \<Rightarrow> P db' | (Inr _, db') \<Rightarrow> P db') = P (snd (m db))" for db
    by (simp split: prod.splits sum.splits)
  thus ?thesis by (simp add: keeps_def triple_def)
qed

lemma keeps_after: "keeps P m \<Longrightarrow> P db \<Longrightarrow> P (snd (m db))"
  by (simp add: keeps_iff)

lemma triple_weaken:
  assumes "triple P m Q R" "\<And>db. P' db \<Longrightarrow> P db" "\<And>x db. Q x db \<Longrightarrow> Q' x db" "\<And>db. R db \<Longrightarrow> R' db"
  shows "triple P' m Q' R'"
  using assms by (fastforce simp: triple_def split: prod.splits sum.splits)

lemma triple_ret [act_rules]: "(\<And>db. P db \<Longrightarrow> Q x db) \<Longrightarrow> triple P (ret x) Q R"
  by (simp add: triple_def ret_def)

lemma triple_fail [act_rules]: "(\<And>db. P db \<Longrightarrow> R db) \<Longrightarrow> triple P (fail e) Q R"
  by (simp add: triple_def fail_def)

lemma triple_seq:
  assumes "triple P m S R" "\<And>x. triple (S x) (k x) Q R"
  shows "triple P (seq_act m k) Q R"
  using assms by (fastforce simp: triple_def seq_act_def split: prod.splits sum.splits)

lemma triple_query:
  "(\<And>db. P db \<Longrightarrow> R db) \<Longrightarrow> (\<And>db. P db \<Longrightarrow> Q (q db) db) \<Longrightarrow> triple P (query faults n err q) Q R"
  by (simp add: triple_def query_def split: option.splits)

lemma triple_execute:
  "(\<And>db. P db \<Longrightarrow> R db) \<Longrightarrow> (\<And>db db'. P db \<Longrightarrow> u db = Some db' \<Longrightarrow> Q () db') \<Longrightarrow>
   triple P (execute faults n err u) Q R"
  by (simp add: triple_def execute_def split: option.splits)

lemma triple_lift [act_rules]:
  "(\<And>db. P db \<Longrightarrow> R db) \<Longrightarrow> (\<And>x db. r = Inr x \<Longrightarrow> P db \<Longrightarrow> Q x db) \<Longrightarrow> triple P (lift_result r) Q R"
  by (simp add: triple_def lift_result_def split: sum.splits)

lemma triple_transaction:
  assumes "triple P m Q S" "\<And>db. P db \<Longrightarrow> R db"
  shows "triple P (transaction m) Q R"
  using assms by (fastforce simp: triple_def transaction_def split: prod.splits sum.splits)

lemma triple_map_err: "triple P m Q R \<Longrightarrow> triple P (map_err_act g m) Q R"
  by (fastforce simp: triple_def map_err_act_def split: prod.splits sum.splits)

lemma keeps_ret [act_rules]: "keeps P (ret x)"
  by (simp add: keeps_def act_rules)

lemma keeps_fail [act_rules]: "keeps P (fail e)"
  by (simp add: keeps_def act_rules)

lemma keeps_lift [act_rules]: "keeps P (lift_result r)"
  by (simp add: keeps_def triple_lift)

lemma keeps_seq [act_rules]: "keeps P m \<Longrightarrow> (\<And>x. keeps P (k x)) \<Longrightarrow> keeps P (seq_act m k)"
  unfolding keeps_def by (rule triple_seq)

lemma keeps_query [act_rules]: "keeps P (query faults n err q)"
  by (simp add: keeps_def triple_query)

lemma keeps_execute:
  "(\<And>db db'. P db \<Longrightarrow> u db = Some db' \<Longrightarrow> P db') \<Longrightarrow> keeps P (execute faults n err u)"
  unfolding keeps_def by (rule triple_execute)

lemma keeps_if [act_rules]: "(b \<Longrightarrow> keeps P m) \<Longrightarrow> (\<not> b \<Longrightarrow> keeps P m') \<Longrightarrow> keeps P (if b then m else m')"
  by simp

lemma keeps_option [act_rules]:
  "(x = None \<Longrightarrow> keeps P m) \<Longrightarrow> (\<And>y. x = Some y \<Longrightarrow> keeps P (k y)) \<Longrightarrow> keeps P (case x of None \<Rightarrow> m | Some y \<Rightarrow> k y)"
  by (cases x) auto

lemma keeps_each: "(\<And>n x. x \<in> set xs \<Longrightarrow> keeps P (f n x)) \<Longrightarrow> keeps P (each_act f n xs)"
  by (induction xs arbitrary: n) (simp_all add: keeps_ret keeps_seq)

lemma keeps_collect: "(\<And>n x. x \<in> set xs \<Longrightarrow> keeps P (f n x)) \<Longrightarrow> keeps P (collect_act f n xs)"
  by (induction xs arbitrary: n) (simp_all add: keeps_ret keeps_seq)

lemma keeps_ignore [act_rules]: "keeps P m \<Longrightarrow> keeps P (ignore_err m)"
  using keeps_after [of P m] by (auto simp: keeps_def triple_def ignore_err_def)

lemma keeps_transaction [act_rules]: "keeps P m \<Longrightarrow> keeps P (transaction m)"
  unfolding keeps_def by (rule triple_transaction)

lemma keeps_map_err [act_rules]: "keeps P m \<Longrightarrow> keeps P (map_err_act g m)"
  unfolding keeps_def by (rule triple_map_err)

lemma keeps_retry:
  assumes "\<And>a. keeps P (m a)"
  shows "keeps P (retry_on_busy retryable m a)"
proof -
  have "P db \<longrightarrow> P (snd (retry_on_busy retryable m a db))" for db
    using assms
  proof (induction retryable m a db rule: retry_on_busy.induct)
    case (1 retryable m a db)
    have step: "P db \<longrightarrow> P (snd (m a db))" using 1(2) by (simp add: keeps_iff)
    show ?case
    proof (cases "m a db")
      case (Pair r db')
      thus ?thesis using step 1 by (cases r) (auto simp: retry_on_busy.simps [of retryable m a db])
    qed
  qed
  thus ?thesis by (simp add: keeps_iff)
qed

lemma keeps_triple: "keeps P m \<Longrightarrow> (\<And>db. P db \<Longrightarrow> R db) \<Longrightarrow> triple P m (\<lambda>_. P) R"
  unfolding keeps_def by (erule triple_weaken) auto

lemma keeps_tx: "triple P m (\<lambda>_. P) (\<lambda>_. True) \<Longrightarrow> keeps P (transaction m)"
  unfolding keeps_def by (rule triple_transaction)

lemma keeps_pair [act_rules]: "(\<And>a b. x = (a, b) \<Longrightarrow> keeps P (k a b)) \<Longrightarrow> keeps P (case x of (a, b) \<Rightarrow> k a b)"
  by (cases x) simp

text \<open>When an action succeeds.\<close>

lemma seq_Inr: "seq_act m k db = (Inr y, db') \<longleftrightarrow> (\<exists>x db1. m db = (Inr x, db1) \<and> k x db1 = (Inr y, db'))"
  by (auto simp: seq_act_def split: prod.splits sum.splits)

lemma ret_Inr: "ret x db = (Inr y, db') \<longleftrightarrow> y = x \<and> db' = db"
  by (auto simp: ret_def)

lemma fail_Inr: "fail e db \<noteq> (Inr y, db')"
  by (simp add: fail_def)

lemma lift_Inr: "lift_result r db = (Inr y, db') \<longleftrightarrow> r = Inr y \<and> db' = db"
  by (auto simp: lift_result_def)

lemma query_Inr: "query faults n err q db = (Inr y, db') \<longleftrightarrow> faults n = None \<and> y = q db \<and> db' = db"
  by (auto simp: query_def split: option.splits)

lemma execute_Inr: "execute faults n err u db = (Inr y, db') \<longleftrightarrow> faults n = None \<and> u db = Some db'"
  by (auto simp: execute_def split: option.splits)

lemma if_Inr: "(if b then m else m') db = (Inr y, db') \<longleftrightarrow> (if b then m db = (Inr y, db') else m' db = (Inr y, db'))"
  by simp

lemma ignore_Inr: "ignore_err m db = (Inr y, db') \<longleftrightarrow> db' = snd (m db)"
  by (auto simp: ignore_err_def)

lemma transaction_Inr: "transaction m db = (Inr y, db') \<longleftrightarrow> m db = (Inr y, db')"
  by (auto simp: transaction_def split: prod.splits sum.splits)

lemmas act_Inr = seq_Inr ret_Inr fail_Inr lift_Inr query_Inr execute_Inr if_Inr ignore_Inr transaction_Inr

lemma execute_snd: "snd (execute faults n err (\<lambda>db. Some (g db)) db) = (if faults n = None then g db else db)"
  by (simp add: execute_def split: option.splits)

lemma seq_Inr_E:
  "seq_act m k db = (Inr y, db') \<Longrightarrow> (\<And>x db1. m db = (Inr x, db1) \<Longrightarrow> k x db1 = (Inr y, db') \<Longrightarrow> thesis) \<Longrightarrow> thesis"
  unfolding seq_Inr by blast

lemma retry_result:
  assumes "\<And>a. case m a db of (Inl e, db1) \<Rightarrow> db1 = db | (Inr x, db1) \<Rightarrow> Q x db1"
  shows "case retry_on_busy retryable m a db of (Inl e, db1) \<Rightarrow> db1 = db | (Inr x, db1) \<Rightarrow> Q x db1"
  using assms
proof (induction retryable m a db rule: retry_on_busy.induct)
  case (1 retryable m a db)
  show ?case
  proof (cases "m a db")
    case (Pair r db1)
    have "case (r, db1) of (Inl e, db1) \<Rightarrow> db1 = db | (Inr x, db1) \<Rightarrow> Q x db1" using 1(2) [of a] Pair by simp
    thus ?thesis using Pair 1 by (cases r) (auto simp: retry_on_busy.simps [of retryable m a db])
  qed
qed

end
