(* ===== verification/Admin_Access.thy ===== *)
theory Admin_Access
  imports Admin_Permissions App_Error Actions Linked_Scope Jobs
begin

text \<open>
  Who may do what over the admin API: authentication (src/admin/auth.rs, src/auth/admin_scope.rs),
  users (src/admin/users.rs), API keys (src/admin/api_keys.rs) and the platform principal
  (src/admin/platform.rs). The database is the three tables with their keys and foreign keys and the
  event log. A handler is an action that returns an error or a value with the tables after it; its
  statements are numbered and \<open>faults\<close> says which fail and with what text. Clocks, fresh ids, SHA-256
  in hexadecimal, the JSON text of a list of strings, identity resolution, the claims of a session
  and the scope its server granted are arguments.
\<close>

section \<open>State\<close>

record user_row =
  u_id :: string
  u_did :: string
  u_is_super :: int
  u_created_at :: string
  u_last_used_at :: "string option"

record permission_row =
  p_user_id :: string
  p_permission :: string
  p_granted_by :: "string option"
  p_granted_at :: string

record key_row =
  k_id :: string
  k_user_id :: string
  k_name :: string
  k_hash :: string
  k_prefix :: string
  k_permissions :: string
  k_created_at :: string
  k_last_used_at :: "string option"
  k_revoked_at :: "string option"

record admin_db =
  db_users :: "user_row list"
  db_permissions :: "permission_row list"
  db_keys :: "key_row list"
  db_events :: "EventLog list"

record UserAuth =
  auth_did :: string
  auth_user_id :: string
  auth_is_super :: bool
  auth_is_platform :: bool
  auth_permissions :: "Permission set"

type_synonym ('e, 'a) db_act = "(admin_db, 'e, 'a) act"

section \<open>Statements\<close>

definition insert_user :: "string \<Rightarrow> string \<Rightarrow> int \<Rightarrow> string \<Rightarrow> admin_db \<Rightarrow> admin_db option" where
  "insert_user uid did is_super now db =
     (if list_ex (\<lambda>u. u_id u = uid \<or> u_did u = did) (db_users db) then None
      else Some (db\<lparr>db_users := db_users db @ [\<lparr>u_id = uid, u_did = did, u_is_super = is_super,
                      u_created_at = now, u_last_used_at = None\<rparr>]\<rparr>))"

definition user_exists :: "string \<Rightarrow> admin_db \<Rightarrow> bool" where
  "user_exists uid db \<longleftrightarrow> list_ex (\<lambda>u. u_id u = uid) (db_users db)"

definition user_by_did :: "string \<Rightarrow> admin_db \<Rightarrow> user_row option" where
  "user_by_did did db = List.find (\<lambda>u. u_did u = did) (db_users db)"

definition user_by_id :: "string \<Rightarrow> admin_db \<Rightarrow> user_row option" where
  "user_by_id uid db = List.find (\<lambda>u. u_id u = uid) (db_users db)"

definition set_super :: "int \<Rightarrow> (string \<Rightarrow> bool) \<Rightarrow> admin_db \<Rightarrow> admin_db" where
  "set_super v ids db = db\<lparr>db_users := map (\<lambda>u. if ids (u_id u) then u\<lparr>u_is_super := v\<rparr> else u) (db_users db)\<rparr>"

definition insert_permission :: "string \<Rightarrow> string \<Rightarrow> string option \<Rightarrow> string \<Rightarrow> admin_db \<Rightarrow> admin_db option" where
  "insert_permission uid perm granted_by now db =
     (if list_ex (\<lambda>p. p_user_id p = uid \<and> p_permission p = perm) (db_permissions db) then Some db
      else if \<not> user_exists uid db \<or> \<not> (case granted_by of Some g \<Rightarrow> user_exists g db | None \<Rightarrow> True) then None
      else Some (db\<lparr>db_permissions := db_permissions db @ [\<lparr>p_user_id = uid, p_permission = perm,
                      p_granted_by = granted_by, p_granted_at = now\<rparr>]\<rparr>))"

definition delete_permission :: "string \<Rightarrow> string \<Rightarrow> admin_db \<Rightarrow> admin_db" where
  "delete_permission uid perm db =
     db\<lparr>db_permissions := filter (\<lambda>p. \<not> (p_user_id p = uid \<and> p_permission p = perm)) (db_permissions db)\<rparr>"

definition permissions_of :: "string \<Rightarrow> admin_db \<Rightarrow> string list" where
  "permissions_of uid db = map p_permission (filter (\<lambda>p. p_user_id p = uid) (db_permissions db))"

definition revoke_keys :: "string \<Rightarrow> (key_row \<Rightarrow> bool) \<Rightarrow> admin_db \<Rightarrow> admin_db" where
  "revoke_keys now which db =
     db\<lparr>db_keys := map (\<lambda>k. if which k \<and> k_revoked_at k = None then k\<lparr>k_revoked_at := Some now\<rparr> else k) (db_keys db)\<rparr>"

text \<open>Deleting a user takes the rows that refer to it along, and clears it as a granter.\<close>

definition delete_user_row :: "string \<Rightarrow> admin_db \<Rightarrow> admin_db" where
  "delete_user_row uid db =
     db\<lparr>db_users := filter (\<lambda>u. u_id u \<noteq> uid) (db_users db),
        db_permissions := map (\<lambda>p. if p_granted_by p = Some uid then p\<lparr>p_granted_by := None\<rparr> else p)
          (filter (\<lambda>p. p_user_id p \<noteq> uid) (db_permissions db)),
        db_keys := filter (\<lambda>k. k_user_id k \<noteq> uid) (db_keys db)\<rparr>"

definition insert_key :: "key_row \<Rightarrow> admin_db \<Rightarrow> admin_db option" where
  "insert_key k db =
     (if list_ex (\<lambda>k'. k_id k' = k_id k) (db_keys db) \<or> \<not> user_exists (k_user_id k) db then None
      else Some (db\<lparr>db_keys := db_keys db @ [k]\<rparr>))"

definition log_event :: "faults \<Rightarrow> nat \<Rightarrow> EventLog \<Rightarrow> ('e, unit) db_act" where
  "log_event faults n event = ignore_err (execute faults n EInternal (\<lambda>db. Some (db\<lparr>db_events := db_events db @ [event]\<rparr>)))"

definition admin_event :: "string \<Rightarrow> Severity \<Rightarrow> string option \<Rightarrow> string option \<Rightarrow> json \<Rightarrow> EventLog" where
  "admin_event kind sev actor subject detail =
     \<lparr>event_type = kind, event_severity = sev, event_actor_did = actor, event_subject = subject,
      event_detail = detail\<rparr>"

section \<open>Configuration and requests\<close>

record Claims =
  cl_did :: string
  cl_client_key :: "string option"
  cl_dpop_key_id :: "string option"
  cl_service_auth_lxm :: "string option option"

record admin_env =
  env_superadmin_did :: "string option"
  env_platform_api_key_hash :: "string option"
  env_has_keyring :: bool
  env_limits :: Limits
  env_sha256_hex :: "string \<Rightarrow> string"
  env_to_json :: "string list \<Rightarrow> string"
  env_from_json :: "string \<Rightarrow> string list option"
  env_decode :: decoder
  env_granted_scope :: "string \<Rightarrow> string \<Rightarrow> string \<Rightarrow> AppError + string"
  env_resolve_identifier :: "string \<Rightarrow> AppError + string"
  env_retryable :: "string \<Rightarrow> bool"

text \<open>
  What a request brings: its authorization header, the claims its session gives, and the outcomes of
  its statements (those of authentication apart from the handler's), its clock readings, the ids it
  draws and the random part of a key it makes.
\<close>

record admin_request =
  rq_authorization :: "string option"
  rq_claims :: "AppError + Claims"
  rq_auth_faults :: faults
  rq_faults :: faults
  rq_clock :: "nat \<Rightarrow> string"
  rq_fresh :: "nat \<Rightarrow> string"
  rq_random_hex :: string

section \<open>Authentication (src/admin/auth.rs)\<close>

definition PLATFORM_ACTOR :: string where
  "PLATFORM_ACTOR = ''platform''"

definition PLATFORM_PERMISSIONS :: "Permission list" where
  "PLATFORM_PERMISSIONS = [StatsRead, MetricsRead]"

definition has_permission :: "UserAuth \<Rightarrow> Permission \<Rightarrow> bool" where
  "has_permission auth p \<longleftrightarrow> auth_is_super auth \<or> p \<in> auth_permissions auth"

definition log_permission_denied :: "faults \<Rightarrow> nat \<Rightarrow> UserAuth \<Rightarrow> string \<Rightarrow> ('e, unit) db_act" where
  "log_permission_denied faults n auth permission =
     log_event faults n (admin_event ''auth.permission_denied'' SevWarn (Some (auth_did auth)) (Some permission)
       (JObject [(''user_id'', JString (auth_user_id auth)), (''required_permission'', JString permission)]))"

definition require_permission :: "faults \<Rightarrow> nat \<Rightarrow> UserAuth \<Rightarrow> Permission \<Rightarrow> (AppError, unit) db_act" where
  "require_permission faults n auth p =
     (if has_permission auth p then ret ()
      else seq_act (log_permission_denied faults n auth (as_str p))
             (\<lambda>_. fail (EInsufficientPermissions (as_str p))))"

definition require_domain_read :: "faults \<Rightarrow> nat \<Rightarrow> UserAuth \<Rightarrow> (AppError, unit) db_act" where
  "require_domain_read faults n auth =
     (if auth_is_platform auth then ret () else require_permission faults n auth SettingsManage)"

definition require_rotation_read :: "faults \<Rightarrow> nat \<Rightarrow> UserAuth \<Rightarrow> (AppError, unit) db_act" where
  "require_rotation_read faults n auth =
     (if auth_is_platform auth then ret () else require_permission faults n auth SettingsManage)"

definition require_domain_write :: "faults \<Rightarrow> nat \<Rightarrow> UserAuth \<Rightarrow> bool \<Rightarrow> (AppError, unit) db_act" where
  "require_domain_write faults n auth platform_managed =
     (if auth_is_platform auth then ret ()
      else if platform_managed then
        seq_act (log_permission_denied faults n auth ''platform'')
          (\<lambda>_. fail (EForbidden ''this instance's domains are managed by its hosting platform''))
      else require_permission faults n auth SettingsManage)"

definition parse_permissions :: "string list \<Rightarrow> Permission set" where
  "parse_permissions ks = set (List.map_filter from_value ks)"

definition load_permissions :: "faults \<Rightarrow> nat \<Rightarrow> string \<Rightarrow> (AppError, Permission set) db_act" where
  "load_permissions faults n uid =
     query faults n (internal ''permission query failed'') (\<lambda>db. parse_permissions (permissions_of uid db))"

definition load_api_key_permissions ::
  "faults \<Rightarrow> nat \<Rightarrow> string \<Rightarrow> string list \<Rightarrow> (AppError, Permission set) db_act" where
  "load_api_key_permissions faults n uid key_permissions =
     seq_act (load_permissions faults n uid)
       (\<lambda>user_perms. ret (parse_permissions key_permissions \<inter> user_perms))"

definition ADMIN_LXM :: string where
  "ADMIN_LXM = ''dev.happyview.admin.manage''"

definition PERMISSION_SET :: string where
  "PERMISSION_SET = ''dev.happyview.adminFull''"

definition grants_admin :: "decoder \<Rightarrow> string \<Rightarrow> bool" where
  "grants_admin decode granted_scope \<longleftrightarrow>
     list_ex (\<lambda>p. rpc_aud p = ''*'' \<and> list_ex (\<lambda>l. l = ADMIN_LXM) (rpc_lxm p))
       (List.map_filter (rpc_parse decode) (parse_scope_list granted_scope))"

definition require_admin_grant :: "admin_env \<Rightarrow> Claims \<Rightarrow> AppError + unit" where
  "require_admin_grant env claims =
     (if cl_service_auth_lxm claims \<noteq> None then
        Err (EForbidden (''the admin API does not accept service-auth tokens; sign in with an app granted '' @
               ''dev.happyview.adminFull, or use an API key''))
      else case (cl_client_key claims, cl_dpop_key_id claims) of
        (Some client_key, Some dpop_key_id) \<Rightarrow>
          if \<not> env_has_keyring env then Err (EInternal ''TOKEN_ENCRYPTION_KEY not configured'')
          else (case env_granted_scope env client_key (cl_did claims) dpop_key_id of
                  Inl e \<Rightarrow> Err e
                | Inr granted \<Rightarrow>
                    if \<not> grants_admin (env_decode env) granted then
                      Err (EForbidden (''this sign-in did not grant '' @ PERMISSION_SET @
                             ''; sign in again and approve managing your HappyView instances''))
                    else Ok ())
      | _ \<Rightarrow> Ok ())"

definition key_matches :: "string \<Rightarrow> admin_db \<Rightarrow> (key_row \<times> user_row) list" where
  "key_matches hash db =
     [(k, u). k \<leftarrow> db_keys db, u \<leftarrow> db_users db, k_hash k = hash \<and> k_revoked_at k = None \<and> u_id u = k_user_id k]"

definition first_row :: "'a list \<Rightarrow> 'a option" where
  "first_row rows = (case rows of [] \<Rightarrow> None | r # _ \<Rightarrow> Some r)"

definition api_token :: "string option \<Rightarrow> string option" where
  "api_token header =
     (case header of
        None \<Rightarrow> None
      | Some h \<Rightarrow>
          (case (case strip_prefix h ''Bearer '' of Some t \<Rightarrow> Some t | None \<Rightarrow> strip_prefix h ''DPoP '') of
             Some t \<Rightarrow> if starts_with t ''hv_'' then Some t else None
           | None \<Rightarrow> None))"

definition touch_key :: "string \<Rightarrow> string \<Rightarrow> admin_db \<Rightarrow> admin_db" where
  "touch_key now kid db =
     db\<lparr>db_keys := map (\<lambda>k. if k_id k = kid then k\<lparr>k_last_used_at := Some now\<rparr> else k) (db_keys db)\<rparr>"

definition touch_user :: "string \<Rightarrow> string \<Rightarrow> admin_db \<Rightarrow> admin_db" where
  "touch_user now uid db =
     db\<lparr>db_users := map (\<lambda>u. if u_id u = uid then u\<lparr>u_last_used_at := Some now\<rparr> else u) (db_users db)\<rparr>"

definition platform_auth :: UserAuth where
  "platform_auth = \<lparr>auth_did = PLATFORM_ACTOR, auth_user_id = '''', auth_is_super = False,
     auth_is_platform = True, auth_permissions = set PLATFORM_PERMISSIONS\<rparr>"

definition try_api_key_auth :: "admin_env \<Rightarrow> admin_request \<Rightarrow> (AppError, UserAuth option) db_act" where
  "try_api_key_auth env rq =
     (case api_token (rq_authorization rq) of
        None \<Rightarrow> ret None
      | Some token \<Rightarrow>
          let hash = env_sha256_hex env token; faults = rq_auth_faults rq in
          if env_platform_api_key_hash env = Some hash then ret (Some platform_auth)
          else seq_act (query faults 0 (internal ''api key lookup failed'') (\<lambda>db. first_row (key_matches hash db)))
            (\<lambda>row. case row of
               None \<Rightarrow> fail (EAuth ''invalid or revoked API key'')
             | Some (k, u) \<Rightarrow>
                 let key_permissions = unwrap_or (env_from_json env (k_permissions k)) [] in
                 seq_act (if u_is_super u \<noteq> 0 then ret (parse_permissions key_permissions)
                          else load_api_key_permissions faults 1 (u_id u) key_permissions)
                   (\<lambda>permissions.
                      seq_act (ignore_err (execute faults 2 EInternal (\<lambda>db. Some (touch_key (rq_clock rq 0) (k_id k) db))))
                        (\<lambda>_. ret (Some \<lparr>auth_did = u_did u, auth_user_id = u_id u, auth_is_super = False,
                                        auth_is_platform = False, auth_permissions = permissions\<rparr>)))))"

definition bootstrap_user :: "admin_request \<Rightarrow> string \<Rightarrow> (AppError, unit) db_act" where
  "bootstrap_user rq did =
     (let faults = rq_auth_faults rq; uid = rq_fresh rq 0; now = rq_clock rq 0 in
      ignore_err (seq_act (execute faults 4 EInternal (insert_user uid did 1 now))
        (\<lambda>_. seq_act (each_act (\<lambda>n p. ignore_err (execute faults n EInternal (insert_permission uid (as_str p) None now)))
                        9 all_permissions)
        (\<lambda>_. log_event faults 8 (admin_event ''user.bootstrapped'' SevInfo None (Some did) (JObject []))))))"

definition authenticate :: "admin_env \<Rightarrow> admin_request \<Rightarrow> (AppError, UserAuth) db_act" where
  "authenticate env rq =
     seq_act (try_api_key_auth env rq) (\<lambda>found_key. case found_key of
       Some auth \<Rightarrow> ret auth
     | None \<Rightarrow>
         seq_act (lift_result (rq_claims rq)) (\<lambda>claims.
         seq_act (lift_result (require_admin_grant env claims)) (\<lambda>_.
         let did = cl_did claims; faults = rq_auth_faults rq in
         seq_act (query faults 3 (internal ''user count query failed'') (\<lambda>db. length (db_users db))) (\<lambda>count.
         seq_act (if count = 0 \<and> env_superadmin_did env = None then bootstrap_user rq did else ret ()) (\<lambda>_.
         seq_act (query faults 5 (internal ''user auth query failed'') (user_by_did did)) (\<lambda>found. case found of
           None \<Rightarrow> fail (EForbidden ''not a user'')
         | Some u \<Rightarrow>
             seq_act (if u_is_super u \<noteq> 0 then ret {} else load_permissions faults 6 (u_id u)) (\<lambda>permissions.
             seq_act (ignore_err (execute faults 7 EInternal (\<lambda>db. Some (touch_user (rq_clock rq 1) (u_id u) db)))) (\<lambda>_.
             ret \<lparr>auth_did = did, auth_user_id = u_id u, auth_is_super = u_is_super u \<noteq> 0,
                  auth_is_platform = False, auth_permissions = permissions\<rparr>))))))))"

definition user_auth :: "admin_env \<Rightarrow> admin_request \<Rightarrow> (AppError, UserAuth) db_act" where
  "user_auth env rq =
     seq_act (authenticate env rq) (\<lambda>auth.
       if auth_is_platform auth then fail (EForbidden ''the platform key cannot use this endpoint'') else ret auth)"

definition allow_platform :: "admin_env \<Rightarrow> admin_request \<Rightarrow> (AppError, UserAuth) db_act" where
  "allow_platform env rq = authenticate env rq"

record AdminCaller =
  caller_did :: string
  caller_permissions :: "string list"
  caller_platform :: bool

definition admin_caller :: "UserAuth \<Rightarrow> AdminCaller" where
  "admin_caller auth =
     (let permissions = if auth_is_super auth then set all_permissions else auth_permissions auth in
      \<lparr>caller_did = auth_did auth,
       caller_permissions = sort (map as_str (filter (\<lambda>p. p \<in> permissions) all_permissions)),
       caller_platform = auth_is_platform auth\<rparr>)"

datatype SuperadminSeed = SeedCreated | SeedPromoted | SeedUnchanged

definition ensure_configured_superadmin ::
  "faults \<Rightarrow> (nat \<Rightarrow> string) \<Rightarrow> string \<Rightarrow> string \<Rightarrow> (string, SuperadminSeed) db_act" where
  "ensure_configured_superadmin faults fresh now did =
     seq_act (transaction
       (seq_act (query faults 0 (\<lambda>e. e) (\<lambda>_. ())) (\<lambda>_.
        seq_act (query faults 1 (\<lambda>e. e) (user_by_did did)) (\<lambda>existing.
        let grants = (\<lambda>uid seed.
              seq_act (each_act (\<lambda>n p. execute faults n (\<lambda>e. e) (insert_permission uid (as_str p) None now)) 5 all_permissions)
                (\<lambda>_. seq_act (query faults 3 (\<lambda>e. e) (\<lambda>_. ())) (\<lambda>_. ret seed))) in
        case existing of
          Some u \<Rightarrow>
            if u_is_super u \<noteq> 0 then ret SeedUnchanged
            else seq_act (execute faults 2 (\<lambda>e. e) (\<lambda>db. Some (set_super 1 (\<lambda>i. i = u_id u) db)))
                   (\<lambda>_. grants (u_id u) SeedPromoted)
        | None \<Rightarrow>
            seq_act (execute faults 2 (\<lambda>e. e) (insert_user (fresh 0) did 1 now))
              (\<lambda>_. grants (fresh 0) SeedCreated)))))
     (\<lambda>seed. if seed = SeedUnchanged then ret seed
        else seq_act (log_event faults 4 (admin_event ''user.bootstrapped'' SevInfo None (Some did)
                       (JObject [(''source'', JString ''config'')])))
               (\<lambda>_. ret seed))"

section \<open>Users (src/admin/users.rs)\<close>

record CreateUserBody =
  cub_did :: string
  cub_template :: "Template option"
  cub_permissions :: "string list option"

record UpdatePermissionsBody =
  upb_grant :: "string list"
  upb_revoke :: "string list"

record UserSummary =
  us_id :: string
  us_did :: string
  us_is_super :: bool
  us_permissions :: "string list"
  us_created_at :: string
  us_last_used_at :: "string option"

primrec template_debug_lower :: "Template \<Rightarrow> string" where
  "template_debug_lower Viewer = ''viewer''"
| "template_debug_lower Maintainer = ''maintainer''"
| "template_debug_lower Manager = ''manager''"
| "template_debug_lower FullAccess = ''fullaccess''"

text \<open>The first requested permission the actor does not hold; unrecognised strings pass.\<close>

definition beyond_actor :: "UserAuth \<Rightarrow> string list \<Rightarrow> string option" where
  "beyond_actor auth perms =
     (if auth_is_super auth then None
      else List.find (\<lambda>s. case from_value s of Some p \<Rightarrow> p \<notin> auth_permissions auth | None \<Rightarrow> False) perms)"

definition escalation_guard :: "string \<Rightarrow> UserAuth \<Rightarrow> string list \<Rightarrow> (AppError, unit) db_act" where
  "escalation_guard label auth perms =
     (case beyond_actor auth perms of Some s \<Rightarrow> fail (EForbidden (label @ s)) | None \<Rightarrow> ret ())"

definition perms_to_grant :: "CreateUserBody \<Rightarrow> string list" where
  "perms_to_grant body =
     (case cub_permissions body of
        Some explicit \<Rightarrow> explicit
      | None \<Rightarrow> (case cub_template body of
                   Some t \<Rightarrow> map as_str (template_permissions t)
                 | None \<Rightarrow> map as_str (template_permissions Viewer)))"

definition seats_in_use :: "faults \<Rightarrow> nat \<Rightarrow> (AppError, 32 word) db_act" where
  "seats_in_use faults n =
     query faults n (internal ''user count failed'')
       (\<lambda>db. let c = length (db_users db) in if c < 2 ^ 32 then of_nat c else of_nat (2 ^ 32 - 1))"

definition grant_each :: "faults \<Rightarrow> nat \<Rightarrow> string \<Rightarrow> string option \<Rightarrow> string \<Rightarrow> string list \<Rightarrow> (AppError, unit) db_act" where
  "grant_each faults n uid granted_by now perms =
     each_act (\<lambda>k s. execute faults k (internal ''failed to grant permission'') (insert_permission uid s granted_by now)) n perms"

definition create_user ::
  "admin_env \<Rightarrow> admin_request \<Rightarrow> UserAuth \<Rightarrow> CreateUserBody \<Rightarrow> (AppError, string \<times> string) db_act" where
  "create_user env rq auth body =
     (let faults = rq_faults rq; perms = perms_to_grant body; uid = rq_fresh rq 1; now = rq_clock rq 2 in
      seq_act (require_permission faults 0 auth UsersCreate) (\<lambda>_.
      seq_act (escalation_guard ''Cannot grant permission you don't have: '' auth perms) (\<lambda>_.
      seq_act (lift_result (env_resolve_identifier env (cub_did body))) (\<lambda>did.
      seq_act (query faults 1 (internal ''user lookup failed'') (user_by_did did)) (\<lambda>existing.
      if existing \<noteq> None then fail (EConflict (''user '' @ [CHR 39] @ did @ [CHR 39] @ '' already exists''))
      else seq_act (seats_in_use faults 2) (\<lambda>in_use.
      seq_act (lift_result (case limits_check (env_limits env) Seats in_use of
                              Inl e \<Rightarrow> Err (ELimitReached e) | Inr x \<Rightarrow> Ok x)) (\<lambda>_.
      seq_act (execute faults 3 (internal ''failed to create user'') (insert_user uid did 0 now)) (\<lambda>_.
      seq_act (grant_each faults 5 uid (Some (auth_user_id auth)) now perms) (\<lambda>_.
      seq_act (log_event faults 4 (admin_event ''user.created'' SevInfo (Some (auth_did auth)) (Some did)
                 (JObject [(''template'', case cub_template body of
                                            Some t \<Rightarrow> JString (template_debug_lower t) | None \<Rightarrow> JNull),
                           (''permissions'', JArray (map JString perms))]))) (\<lambda>_.
      ret (uid, did)))))))))))"

definition user_summary :: "faults \<Rightarrow> nat \<Rightarrow> user_row \<Rightarrow> (AppError, UserSummary) db_act" where
  "user_summary faults n u =
     seq_act (query faults n (internal ''failed to load permissions'') (\<lambda>db. sort (permissions_of (u_id u) db)))
       (\<lambda>perms. ret \<lparr>us_id = u_id u, us_did = u_did u, us_is_super = u_is_super u \<noteq> 0, us_permissions = perms,
                   us_created_at = u_created_at u, us_last_used_at = u_last_used_at u\<rparr>)"

definition list_users :: "admin_request \<Rightarrow> UserAuth \<Rightarrow> (AppError, UserSummary list) db_act" where
  "list_users rq auth =
     (let faults = rq_faults rq in
      seq_act (require_permission faults 0 auth UsersRead) (\<lambda>_.
      seq_act (query faults 1 (internal ''failed to list users'') (\<lambda>db. sort_key u_created_at (db_users db))) (\<lambda>rows.
      collect_act (user_summary faults) 2 rows)))"

definition not_found :: "string \<Rightarrow> string \<Rightarrow> AppError" where
  "not_found what i = ENotFound (what @ [CHR 32, CHR 39] @ i @ [CHR 39] @ '' not found'')"

definition get_user :: "admin_request \<Rightarrow> UserAuth \<Rightarrow> string \<Rightarrow> (AppError, UserSummary) db_act" where
  "get_user rq auth uid =
     (let faults = rq_faults rq in
      seq_act (require_permission faults 0 auth UsersRead) (\<lambda>_.
      seq_act (query faults 1 (internal ''failed to get user'') (user_by_id uid)) (\<lambda>found.
      case found of None \<Rightarrow> fail (not_found ''user'' uid) | Some u \<Rightarrow> user_summary faults 2 u)))"

definition update_permissions ::
  "admin_request \<Rightarrow> UserAuth \<Rightarrow> string \<Rightarrow> UpdatePermissionsBody \<Rightarrow> (AppError, unit) db_act" where
  "update_permissions rq auth uid body =
     (let faults = rq_faults rq; now = rq_clock rq 2; g = length (upb_grant body) in
      seq_act (require_permission faults 0 auth UsersUpdate) (\<lambda>_.
      if auth_user_id auth = uid then fail (EForbidden ''Cannot modify your own permissions'')
      else seq_act (query faults 1 (internal ''user lookup failed'') (user_by_id uid)) (\<lambda>target.
      case target of
        None \<Rightarrow> fail (not_found ''user'' uid)
      | Some u \<Rightarrow>
          if u_is_super u \<noteq> 0 then fail (EForbidden ''Cannot modify super user's permissions'')
          else (case List.find (\<lambda>s. from_value s = None) (upb_grant body @ upb_revoke body) of
            Some s \<Rightarrow> fail (EBadRequest (''Unrecognized permission: '' @ s))
          | None \<Rightarrow>
              seq_act (escalation_guard ''Cannot grant permission you don't have: '' auth (upb_grant body)) (\<lambda>_.
              seq_act (grant_each faults 3 uid (Some (auth_user_id auth)) now (upb_grant body)) (\<lambda>_.
              seq_act (each_act (\<lambda>k s. execute faults k (internal ''failed to revoke permission'')
                                   (\<lambda>db. Some (delete_permission uid s db))) (3 + g) (upb_revoke body)) (\<lambda>_.
              log_event faults 2 (admin_event ''user.permissions_updated'' SevInfo (Some (auth_did auth)) (Some uid)
                (JObject [(''granted'', JArray (map JString (upb_grant body))),
                          (''revoked'', JArray (map JString (upb_revoke body)))])))))))))"

text \<open>\<open>delete_user\<close> reads before it writes, with no transaction: its two halves.\<close>

definition delete_guards :: "admin_request \<Rightarrow> UserAuth \<Rightarrow> string \<Rightarrow> (AppError, unit) db_act" where
  "delete_guards rq auth uid =
     (let faults = rq_faults rq in
      seq_act (require_permission faults 0 auth UsersDelete) (\<lambda>_.
      if auth_user_id auth = uid then fail (EForbidden ''Cannot delete yourself'')
      else seq_act (query faults 1 (internal ''user lookup failed'') (user_by_id uid)) (\<lambda>target.
      case target of
        None \<Rightarrow> fail (not_found ''user'' uid)
      | Some u \<Rightarrow> if u_is_super u \<noteq> 0 then fail (EForbidden ''Cannot delete the super user'') else ret ())))"

definition delete_writes :: "admin_request \<Rightarrow> UserAuth \<Rightarrow> string \<Rightarrow> (AppError, unit) db_act" where
  "delete_writes rq auth uid =
     (let faults = rq_faults rq; now = rq_clock rq 2 in
      seq_act (execute faults 2 (internal ''failed to revoke api keys'')
                 (\<lambda>db. Some (revoke_keys now (\<lambda>k. k_user_id k = uid) db))) (\<lambda>_.
      seq_act (query faults 3 (internal ''failed to delete user'') (user_exists uid)) (\<lambda>affected.
      seq_act (execute faults 3 (internal ''failed to delete user'') (\<lambda>db. Some (delete_user_row uid db))) (\<lambda>_.
      if \<not> affected then fail (not_found ''user'' uid)
      else log_event faults 4 (admin_event ''user.deleted'' SevInfo (Some (auth_did auth)) (Some uid) (JObject []))))))"

definition delete_user :: "admin_request \<Rightarrow> UserAuth \<Rightarrow> string \<Rightarrow> (AppError, unit) db_act" where
  "delete_user rq auth uid = seq_act (delete_guards rq auth uid) (\<lambda>_. delete_writes rq auth uid)"

definition transfer_super :: "admin_request \<Rightarrow> UserAuth \<Rightarrow> string \<Rightarrow> (AppError, unit) db_act" where
  "transfer_super rq auth target =
     (let faults = rq_faults rq; now = rq_clock rq 2 in
      if \<not> auth_is_super auth then fail (EForbidden ''Only the super user can transfer super status'')
      else seq_act (transaction
        (seq_act (query faults 0 (internal ''failed to begin transaction'') (\<lambda>_. ())) (\<lambda>_.
         seq_act (query faults 1 (internal ''failed to set super'') (user_exists target)) (\<lambda>affected.
         seq_act (execute faults 1 (internal ''failed to set super'') (\<lambda>db. Some (set_super 1 (\<lambda>i. i = target) db))) (\<lambda>_.
         if \<not> affected then fail (not_found ''user'' target)
         else seq_act (if target \<noteq> auth_user_id auth
                       then execute faults 2 (internal ''failed to remove super'')
                              (\<lambda>db. Some (set_super 0 (\<lambda>i. i = auth_user_id auth) db))
                       else ret ()) (\<lambda>_.
         seq_act (grant_each faults 5 target (Some (auth_user_id auth)) now (map as_str all_permissions)) (\<lambda>_.
         query faults 3 (internal ''failed to commit super transfer'') (\<lambda>_. ()))))))))
      (\<lambda>_. log_event faults 4 (admin_event ''user.super_transferred'' SevWarn (Some (auth_did auth)) (Some target)
             (JObject [(''from_user_id'', JString (auth_user_id auth)), (''to_user_id'', JString target)]))))"

definition list_permissions ::
  "admin_request \<Rightarrow> bool \<Rightarrow> UserAuth \<Rightarrow> (AppError, PermissionInfo list \<times> TemplateInfo list) db_act" where
  "list_permissions rq spaces_enabled auth =
     seq_act (require_permission (rq_faults rq) 0 auth UsersRead) (\<lambda>_.
     ret (filter (\<lambda>p. spaces_enabled \<or> info_category p \<noteq> ''Spaces'') catalog,
          map (\<lambda>t. let info = template_info t in
                 info\<lparr>tinfo_permissions :=
                   filter (\<lambda>s. spaces_enabled \<or> \<not> starts_with s ''spaces:'') (tinfo_permissions info)\<rparr>) ALL_TEMPLATES))"

section \<open>API keys (src/admin/api_keys.rs)\<close>

record CreateApiKeyBody =
  ckb_name :: string
  ckb_permissions :: "string list"

record CreateApiKeyResponse =
  ckr_id :: string
  ckr_name :: string
  ckr_key :: string
  ckr_prefix :: string
  ckr_permissions :: "string list"

record ApiKeySummary =
  ks_id :: string
  ks_name :: string
  ks_prefix :: string
  ks_permissions :: "string list"
  ks_created_at :: string
  ks_last_used_at :: "string option"
  ks_revoked_at :: "string option"

definition create_api_key ::
  "admin_env \<Rightarrow> admin_request \<Rightarrow> UserAuth \<Rightarrow> CreateApiKeyBody \<Rightarrow> (AppError, CreateApiKeyResponse) db_act" where
  "create_api_key env rq auth body =
     (let faults = rq_faults rq; raw_key = ''hv_'' @ rq_random_hex rq; key_prefix = take 11 raw_key;
          kid = rq_fresh rq 1 in
      seq_act (require_permission faults 0 auth ApiKeysCreate) (\<lambda>_.
      seq_act (escalation_guard ''Cannot grant API key permission you don't have: '' auth (ckb_permissions body)) (\<lambda>_.
      seq_act (execute faults 1 (internal ''failed to create api key'')
        (insert_key \<lparr>k_id = kid, k_user_id = auth_user_id auth, k_name = ckb_name body,
           k_hash = env_sha256_hex env raw_key, k_prefix = key_prefix,
           k_permissions = env_to_json env (ckb_permissions body), k_created_at = rq_clock rq 2,
           k_last_used_at = None, k_revoked_at = None\<rparr>)) (\<lambda>_.
      seq_act (log_event faults 2 (admin_event ''api_key.created'' SevInfo (Some (auth_did auth)) (Some (ckb_name body))
                 (JObject [(''key_prefix'', JString key_prefix),
                           (''permissions'', JArray (map JString (ckb_permissions body)))]))) (\<lambda>_.
      ret \<lparr>ckr_id = kid, ckr_name = ckb_name body, ckr_key = raw_key, ckr_prefix = key_prefix,
           ckr_permissions = ckb_permissions body\<rparr>)))))"

definition list_api_keys :: "admin_env \<Rightarrow> admin_request \<Rightarrow> UserAuth \<Rightarrow> (AppError, ApiKeySummary list) db_act" where
  "list_api_keys env rq auth =
     seq_act (require_permission (rq_faults rq) 0 auth ApiKeysRead) (\<lambda>_.
     seq_act (query (rq_faults rq) 1 (internal ''failed to list api keys'')
        (\<lambda>db. rev (sort_key k_created_at
           (filter (\<lambda>k. list_ex (\<lambda>u. u_id u = k_user_id k \<and> u_did u = auth_did auth) (db_users db)) (db_keys db))))) (\<lambda>rows.
     ret (map (\<lambda>k. \<lparr>ks_id = k_id k, ks_name = k_name k, ks_prefix = k_prefix k,
                     ks_permissions = unwrap_or (env_from_json env (k_permissions k)) [],
                     ks_created_at = k_created_at k, ks_last_used_at = k_last_used_at k,
                     ks_revoked_at = k_revoked_at k\<rparr>) rows)))"

definition own_live_key :: "string \<Rightarrow> string \<Rightarrow> admin_db \<Rightarrow> key_row \<Rightarrow> bool" where
  "own_live_key kid did db k \<longleftrightarrow>
     k_id k = kid \<and> (case user_by_did did db of Some u \<Rightarrow> k_user_id k = u_id u | None \<Rightarrow> False) \<and> k_revoked_at k = None"

definition revoke_api_key :: "admin_request \<Rightarrow> UserAuth \<Rightarrow> string \<Rightarrow> (AppError, unit) db_act" where
  "revoke_api_key rq auth kid =
     (let faults = rq_faults rq in
      seq_act (require_permission faults 0 auth ApiKeysDelete) (\<lambda>_.
      seq_act (query faults 1 (internal ''failed to revoke api key'')
                 (\<lambda>db. list_ex (own_live_key kid (auth_did auth) db) (db_keys db))) (\<lambda>affected.
      seq_act (execute faults 1 (internal ''failed to revoke api key'')
                 (\<lambda>db. Some (revoke_keys (rq_clock rq 2) (own_live_key kid (auth_did auth) db) db))) (\<lambda>_.
      if \<not> affected then fail (not_found ''api key'' kid)
      else log_event faults 2 (admin_event ''api_key.revoked'' SevInfo (Some (auth_did auth)) (Some kid) (JObject []))))))"

section \<open>The platform principal (src/admin/platform.rs)\<close>

text \<open>
  Attempt \<open>a\<close> of the transaction: its statements are numbered from \<open>a * 1000\<close>, above the 59 it
  has, so that each attempt has outcomes of its own.
\<close>

definition transfer_super_user ::
  "faults \<Rightarrow> (nat \<Rightarrow> string) \<Rightarrow> string \<Rightarrow> string \<Rightarrow> nat \<Rightarrow> (string, string) db_act" where
  "transfer_super_user faults fresh did now a =
     (let f = (\<lambda>n. faults (a * 1000 + n)) in
      transaction
       (seq_act (query f 0 (\<lambda>e. e) (\<lambda>_. ())) (\<lambda>_.
        seq_act (query f 1 (\<lambda>e. e) (user_by_did did)) (\<lambda>existing.
        seq_act (case existing of
            Some u \<Rightarrow> seq_act (execute f 2 (\<lambda>e. e) (\<lambda>db. Some (set_super 1 (\<lambda>i. i = u_id u) db))) (\<lambda>_. ret (u_id u))
          | None \<Rightarrow> seq_act (execute f 2 (\<lambda>e. e) (insert_user (fresh a) did 1 now)) (\<lambda>_. ret (fresh a))) (\<lambda>uid.
        seq_act (execute f 3 (\<lambda>e. e) (\<lambda>db. Some (set_super 0 (\<lambda>i. i \<noteq> uid) db))) (\<lambda>_.
        seq_act (each_act (\<lambda>n p. execute f n (\<lambda>e. e) (insert_permission uid (as_str p) None now)) 5 all_permissions) (\<lambda>_.
        seq_act (query f 4 (\<lambda>e. e) (\<lambda>_. ())) (\<lambda>_. ret uid))))))))"

definition set_super_user :: "admin_env \<Rightarrow> admin_request \<Rightarrow> UserAuth \<Rightarrow> string \<Rightarrow> (AppError, string \<times> string) db_act" where
  "set_super_user env rq auth body_did =
     (let faults = rq_faults rq; did = trim body_did in
      if \<not> auth_is_platform auth then fail (EForbidden ''only the platform principal can set the super user'')
      else if \<not> starts_with did ''did:'' then fail (EBadRequest ''did must be a DID'')
      else seq_act (map_err_act (internal ''failed to set the super user'')
             (retry_on_busy (env_retryable env) (transfer_super_user faults (rq_fresh rq) did (rq_clock rq 2)) 1)) (\<lambda>uid.
      seq_act (log_event faults 0 (admin_event ''user.super_set_by_platform'' SevInfo (Some (auth_did auth)) (Some did)
                 (JObject [(''user_id'', JString uid)]))) (\<lambda>_.
      ret (uid, did))))"

section \<open>Requests (src/admin/mod.rs)\<close>

datatype admin_call =
    CallCreateUser CreateUserBody
  | CallListUsers
  | CallGetUser string
  | CallUpdatePermissions string UpdatePermissionsBody
  | CallDeleteUser string
  | CallTransferSuper string
  | CallCreateApiKey CreateApiKeyBody
  | CallListApiKeys
  | CallRevokeApiKey string
  | CallSetSuperUser string
  | CallListPermissions bool

definition done_act :: "('e, 'a) db_act \<Rightarrow> ('e, unit) db_act" where
  "done_act m = seq_act m (\<lambda>_. ret ())"

primrec handler :: "admin_env \<Rightarrow> admin_request \<Rightarrow> UserAuth \<Rightarrow> admin_call \<Rightarrow> (AppError, unit) db_act" where
  "handler env rq auth (CallCreateUser body) = done_act (create_user env rq auth body)"
| "handler env rq auth CallListUsers = done_act (list_users rq auth)"
| "handler env rq auth (CallGetUser uid) = done_act (get_user rq auth uid)"
| "handler env rq auth (CallUpdatePermissions uid body) = update_permissions rq auth uid body"
| "handler env rq auth (CallDeleteUser uid) = delete_user rq auth uid"
| "handler env rq auth (CallTransferSuper target) = transfer_super rq auth target"
| "handler env rq auth (CallCreateApiKey body) = done_act (create_api_key env rq auth body)"
| "handler env rq auth CallListApiKeys = done_act (list_api_keys env rq auth)"
| "handler env rq auth (CallRevokeApiKey kid) = revoke_api_key rq auth kid"
| "handler env rq auth (CallSetSuperUser did) = done_act (set_super_user env rq auth did)"
| "handler env rq auth (CallListPermissions spaces) = done_act (list_permissions rq spaces auth)"

definition extractor :: "admin_env \<Rightarrow> admin_request \<Rightarrow> admin_call \<Rightarrow> (AppError, UserAuth) db_act" where
  "extractor env rq call =
     (case call of CallSetSuperUser _ \<Rightarrow> allow_platform env rq | _ \<Rightarrow> user_auth env rq)"

definition serve :: "admin_env \<Rightarrow> admin_request \<Rightarrow> admin_call \<Rightarrow> (AppError, unit) db_act" where
  "serve env rq call = seq_act (extractor env rq call) (\<lambda>auth. handler env rq auth call)"

end
