(* ===== verification/Admin_Logic.thy ===== *)
theory Admin_Logic
  imports Admin_Access
begin

text \<open>
  A small program logic for the actions of the admin API. \<open>triple P m Q R\<close> says that \<open>m\<close>, started where
  \<open>P\<close> holds, ends with \<open>Q\<close> of its value and tables, or with \<open>R\<close> of the tables it leaves when it fails.
  The rules in \<open>act_rules\<close> take an action apart statement by statement, so a proof about a handler only
  looks at what each statement does to the tables.
\<close>

lemma keeps_done [act_rules]: "keeps P m \<Longrightarrow> keeps P (done_act m)"
  by (simp add: done_act_def keeps_seq keeps_ret)

text \<open>
  A predicate that does not look at the event log survives every event.
\<close>

definition log_free :: "(admin_db \<Rightarrow> bool) \<Rightarrow> bool" where
  "log_free P \<longleftrightarrow> (\<forall>db es. P db \<longrightarrow> P (db\<lparr>db_events := es\<rparr>))"

lemma keeps_log_event [act_rules]: "log_free P \<Longrightarrow> keeps P (log_event faults n event)"
  unfolding log_event_def by (rule keeps_ignore) (rule keeps_execute, auto simp: log_free_def)

lemma keeps_require [act_rules]: "log_free P \<Longrightarrow> keeps P (require_permission faults n auth p)"
  by (simp add: require_permission_def log_permission_denied_def act_rules)

lemma keeps_escalation_guard [act_rules]: "keeps P (escalation_guard label auth perms)"
  by (simp add: escalation_guard_def act_rules split: option.splits)

definition new_key :: "admin_env \<Rightarrow> admin_request \<Rightarrow> UserAuth \<Rightarrow> CreateApiKeyBody \<Rightarrow> key_row" where
  "new_key env rq auth body =
     \<lparr>k_id = rq_fresh rq 1, k_user_id = auth_user_id auth, k_name = ckb_name body,
      k_hash = env_sha256_hex env (''hv_'' @ rq_random_hex rq), k_prefix = take 11 (''hv_'' @ rq_random_hex rq),
      k_permissions = env_to_json env (ckb_permissions body), k_created_at = rq_clock rq 2,
      k_last_used_at = None, k_revoked_at = None\<rparr>"

lemma keeps_guard_seq:
  "(beyond_actor auth perms = None \<Longrightarrow> keeps P (k ())) \<Longrightarrow> keeps P (seq_act (escalation_guard label auth perms) k)"
  by (cases "beyond_actor auth perms") (simp_all add: escalation_guard_def keeps_iff seq_act_def fail_def ret_def)

lemma keeps_seats [act_rules]: "keeps P (seats_in_use faults n)"
  by (simp add: seats_in_use_def act_rules)

lemma keeps_user_summary [act_rules]: "keeps P (user_summary faults n u)"
  by (simp add: user_summary_def act_rules)

section \<open>Contracts\<close>

text \<open>
  What a handler asks of a predicate on the tables to keep it. Reading, and taking permissions and keys
  away, asks only that the predicate survives events and removals; handing something out asks that it
  survives the permissions and keys the actor may hand out.
\<close>

locale table_law =
  fixes P :: "admin_db \<Rightarrow> bool"
  assumes logged: "log_free P"
    and ungranted: "P db \<Longrightarrow> P (delete_permission uid perm db)"
    and revoked: "P db \<Longrightarrow> P (revoke_keys now which db)"
begin

lemma readers_keep:
  "keeps P (list_users rq auth)" "keeps P (get_user rq auth uid)" "keeps P (list_permissions rq spaces auth)"
  "keeps P (list_api_keys env rq auth)"
  unfolding list_users_def get_user_def list_permissions_def list_api_keys_def Let_def
  by (intro act_rules logged keeps_collect)+

lemma revoke_api_key_keeps: "keeps P (revoke_api_key rq auth kid)"
  unfolding revoke_api_key_def Let_def
  by (intro act_rules logged keeps_execute) (auto intro: revoked)

end

locale grant_law = table_law +
  fixes may_grant :: "string \<Rightarrow> bool"
    and may_add :: "key_row \<Rightarrow> bool"
  assumes granted: "P db \<Longrightarrow> may_grant s \<Longrightarrow> insert_permission uid s granter now db = Some db' \<Longrightarrow> P db'"
    and joined: "P db \<Longrightarrow> insert_user uid did 0 now db = Some db' \<Longrightarrow> P db'"
    and keyed: "P db \<Longrightarrow> may_add k \<Longrightarrow> insert_key k db = Some db' \<Longrightarrow> P db'"
begin

lemma grant_each_keeps: "\<forall>s\<in>set perms. may_grant s \<Longrightarrow> keeps P (grant_each faults n uid granter now perms)"
  unfolding grant_each_def by (rule keeps_each, rule keeps_execute, erule granted) auto

lemma create_user_keeps:
  assumes "beyond_actor auth (perms_to_grant body) = None \<Longrightarrow> \<forall>s\<in>set (perms_to_grant body). may_grant s"
  shows "keeps P (create_user env rq auth body)"
  unfolding create_user_def Let_def
  by (intro keeps_guard_seq act_rules logged grant_each_keeps keeps_execute) (auto dest: assms joined)

lemma update_permissions_keeps:
  assumes "beyond_actor auth (upb_grant body) = None \<Longrightarrow> \<forall>s\<in>set (upb_grant body). may_grant s"
  shows "keeps P (update_permissions rq auth uid body)"
  unfolding update_permissions_def Let_def
  by (intro keeps_guard_seq act_rules logged grant_each_keeps keeps_each keeps_execute) (auto dest: assms ungranted)

lemma create_api_key_keeps:
  assumes "beyond_actor auth (ckb_permissions body) = None \<Longrightarrow> may_add (new_key env rq auth body)"
  shows "keeps P (create_api_key env rq auth body)"
  unfolding create_api_key_def Let_def new_key_def [symmetric]
  by (intro keeps_guard_seq act_rules logged keeps_execute) (auto dest: assms keyed)

end

end
