(* ===== verification/Admin_Invariant.thy ===== *)
theory Admin_Invariant
  imports Admin_Logic
begin

text \<open>
  The invariant of the admin tables (keys, foreign keys, and a super user as soon as there is a user),
  that every handler, the authentication in front of it and the seeding at start keep it whichever
  statement fails, and what authentication answers, case by case.
\<close>

section \<open>Tables in order\<close>

definition admin_db_ok :: "admin_db \<Rightarrow> bool" where
  "admin_db_ok db \<longleftrightarrow>
     distinct (map u_id (db_users db)) \<and> distinct (map u_did (db_users db)) \<and>
     distinct (map (\<lambda>p. (p_user_id p, p_permission p)) (db_permissions db)) \<and> distinct (map k_id (db_keys db)) \<and>
     (\<forall>p\<in>set (db_permissions db). user_exists (p_user_id p) db \<and>
        (\<forall>g. p_granted_by p = Some g \<longrightarrow> user_exists g db)) \<and>
     (\<forall>k\<in>set (db_keys db). user_exists (k_user_id k) db)"

definition super_ids :: "admin_db \<Rightarrow> string set" where
  "super_ids db = u_id ` {u \<in> set (db_users db). u_is_super u \<noteq> 0}"

definition owned :: "admin_db \<Rightarrow> bool" where
  "owned db \<longleftrightarrow> db_users db = [] \<or> super_ids db \<noteq> {}"

named_theorems admin_stmt

lemma user_exists_iff [simp]: "user_exists uid db \<longleftrightarrow> uid \<in> u_id ` set (db_users db)"
  by (auto simp: user_exists_def list_ex_iff)

lemma user_exists_cong: "u_id ` set (db_users db') = u_id ` set (db_users db) \<Longrightarrow> user_exists uid db' = user_exists uid db"
  by simp

lemma find_by_distinct:
  "distinct (map f xs) \<Longrightarrow> x \<in> set xs \<Longrightarrow> List.find (\<lambda>y. f y = f x) xs = Some x"
  by (induction xs) auto

lemma user_by_id_Some: "user_by_id uid db = Some u \<Longrightarrow> u \<in> set (db_users db) \<and> u_id u = uid"
  by (auto simp: user_by_id_def find_Some_iff)

lemma user_by_did_Some: "user_by_did did db = Some u \<Longrightarrow> u \<in> set (db_users db) \<and> u_did u = did"
  by (auto simp: user_by_did_def find_Some_iff)

lemma user_eqI:
  "admin_db_ok db \<Longrightarrow> u \<in> set (db_users db) \<Longrightarrow> v \<in> set (db_users db) \<Longrightarrow> u_id u = u_id v \<Longrightarrow> u = v"
  by (auto simp: admin_db_ok_def distinct_map dest: inj_onD)

lemma set_super_map: "map u_id (db_users (set_super v ids db)) = map u_id (db_users db)"
    "map u_did (db_users (set_super v ids db)) = map u_did (db_users db)"
  by (simp_all add: set_super_def)

lemma set_super_ids [simp]: "map u_id (db_users (set_super v ids db)) = map u_id (db_users db)"
    "map u_did (db_users (set_super v ids db)) = map u_did (db_users db)"
    "u_id ` set (db_users (set_super v ids db)) = u_id ` set (db_users db)"
    "db_permissions (set_super v ids db) = db_permissions db" "db_keys (set_super v ids db) = db_keys db"
proof -
  show "u_id ` set (db_users (set_super v ids db)) = u_id ` set (db_users db)" by (metis set_map set_super_map(1))
qed (rule set_super_map, rule set_super_map, simp_all add: set_super_def)

lemma touch_user_map: "map u_id (db_users (touch_user now uid db)) = map u_id (db_users db)"
    "map u_did (db_users (touch_user now uid db)) = map u_did (db_users db)"
  by (simp_all add: touch_user_def)

lemma touch_user_ids [simp]: "map u_id (db_users (touch_user now uid db)) = map u_id (db_users db)"
    "map u_did (db_users (touch_user now uid db)) = map u_did (db_users db)"
    "u_id ` set (db_users (touch_user now uid db)) = u_id ` set (db_users db)"
    "db_permissions (touch_user now uid db) = db_permissions db" "db_keys (touch_user now uid db) = db_keys db"
proof -
  show "u_id ` set (db_users (touch_user now uid db)) = u_id ` set (db_users db)" by (metis set_map touch_user_map(1))
qed (rule touch_user_map, rule touch_user_map, simp_all add: touch_user_def)

lemma ok_log [admin_stmt]: "log_free admin_db_ok"
  by (simp add: log_free_def admin_db_ok_def)

lemma ok_set_super [admin_stmt]: "admin_db_ok db \<Longrightarrow> admin_db_ok (set_super v ids db)"
  unfolding admin_db_ok_def by (simp del: map_map)

lemma ok_touch_user [admin_stmt]: "admin_db_ok db \<Longrightarrow> admin_db_ok (touch_user now uid db)"
  unfolding admin_db_ok_def by (simp del: map_map)

lemma ok_touch_key [admin_stmt]: "admin_db_ok db \<Longrightarrow> admin_db_ok (touch_key now kid db)"
  unfolding admin_db_ok_def touch_key_def by (auto simp: o_def if_distrib cong: if_cong)

lemma ok_revoke_keys [admin_stmt]: "admin_db_ok db \<Longrightarrow> admin_db_ok (revoke_keys now which db)"
  unfolding admin_db_ok_def revoke_keys_def by (auto simp: o_def if_distrib cong: if_cong)

lemma ok_insert_user [admin_stmt]:
  "admin_db_ok db \<Longrightarrow> insert_user uid did s now db = Some db' \<Longrightarrow> admin_db_ok db'"
  unfolding admin_db_ok_def insert_user_def
  by (auto simp: list_ex_iff split: if_splits option.splits)

lemma ok_insert_permission [admin_stmt]:
  "admin_db_ok db \<Longrightarrow> insert_permission uid perm by_id now db = Some db' \<Longrightarrow> admin_db_ok db'"
  unfolding admin_db_ok_def insert_permission_def
  by (auto simp: list_ex_iff split: if_splits option.splits) blast+

lemma ok_delete_permission [admin_stmt]: "admin_db_ok db \<Longrightarrow> admin_db_ok (delete_permission uid perm db)"
  unfolding admin_db_ok_def delete_permission_def by (auto simp: distinct_map_filter)

lemma ok_insert_key [admin_stmt]: "admin_db_ok db \<Longrightarrow> insert_key k db = Some db' \<Longrightarrow> admin_db_ok db'"
  unfolding admin_db_ok_def insert_key_def
  by (auto simp: list_ex_iff split: if_splits option.splits) blast+

lemma ok_delete_user_row [admin_stmt]:
  assumes "admin_db_ok db"
  shows "admin_db_ok (delete_user_row uid db)"
proof -
  have eq: "map (\<lambda>p. (p_user_id p, p_permission p))
        (map (\<lambda>p. if p_granted_by p = Some uid then p\<lparr>p_granted_by := None\<rparr> else p) ps) =
      map (\<lambda>p. (p_user_id p, p_permission p)) ps" for ps
    by auto
  show ?thesis
    using assms unfolding admin_db_ok_def delete_user_row_def
    by (auto simp: eq distinct_map_filter simp del: map_map split: option.splits)
qed

section \<open>Somebody owns the instance\<close>

text \<open>
  The invariant of the tables, and with a principal \<open>uid\<close> signed in: its row exists. A statement is
  described by what it does to the set of super users.
\<close>

definition admin_inv :: "admin_db \<Rightarrow> bool" where
  "admin_inv db \<longleftrightarrow> admin_db_ok db \<and> owned db"

definition peopled :: "admin_db \<Rightarrow> bool" where
  "peopled db \<longleftrightarrow> admin_db_ok db \<and> super_ids db \<noteq> {}"

lemma peopled_inv: "peopled db \<Longrightarrow> admin_inv db"
  by (simp add: peopled_def admin_inv_def owned_def)

lemma inv_peopled: "admin_inv db \<Longrightarrow> db_users db \<noteq> [] \<Longrightarrow> peopled db"
  by (simp add: peopled_def admin_inv_def owned_def)

lemma log_free_peopled [act_rules]: "log_free peopled"
  using ok_log by (simp add: log_free_def peopled_def super_ids_def)

lemma log_free_inv [act_rules]: "log_free admin_inv"
  using ok_log by (simp add: log_free_def admin_inv_def owned_def super_ids_def)

lemma mem_super_ids: "i \<in> super_ids db \<longleftrightarrow> (\<exists>u\<in>set (db_users db). u_id u = i \<and> u_is_super u \<noteq> 0)"
  by (auto simp: super_ids_def)

lemma super_of: "admin_db_ok db \<Longrightarrow> u \<in> set (db_users db) \<Longrightarrow> u_id u \<in> super_ids db \<longleftrightarrow> u_is_super u \<noteq> 0"
  by (metis mem_super_ids user_eqI)

lemma super_ids_insert_user:
  "insert_user uid did s now db = Some db' \<Longrightarrow> super_ids db' = super_ids db \<union> (if s \<noteq> 0 then {uid} else {})"
  by (rule set_eqI) (auto simp: insert_user_def mem_super_ids split: if_splits)

lemma super_ids_set_super:
  "super_ids (set_super v ids db) =
     (if v = 0 then super_ids db - {i. ids i} else super_ids db \<union> {i \<in> u_id ` set (db_users db). ids i})"
  by (rule set_eqI) (auto simp: set_super_def mem_super_ids image_iff bex_Un split: if_splits)

lemma super_ids_touch_user [simp]: "super_ids (touch_user now uid db) = super_ids db"
  by (rule set_eqI) (auto simp: touch_user_def mem_super_ids image_iff bex_Un split: if_splits)

lemma super_ids_same [simp]:
  "super_ids (touch_key now kid db) = super_ids db"
  "super_ids (delete_permission uid perm db) = super_ids db"
  "super_ids (revoke_keys now which db) = super_ids db"
  by (simp_all add: super_ids_def touch_key_def delete_permission_def revoke_keys_def)

lemma super_ids_insert:
  "insert_permission uid perm granter now db = Some db' \<Longrightarrow> super_ids db' = super_ids db"
  "insert_key k db = Some db' \<Longrightarrow> super_ids db' = super_ids db"
  by (auto simp: super_ids_def insert_permission_def insert_key_def split: if_splits)

lemma super_ids_delete [simp]: "super_ids (delete_user_row uid db) = super_ids db - {uid}"
  by (auto simp: super_ids_def delete_user_row_def)

lemma users_insert:
  "insert_permission uid perm granter now db = Some db' \<Longrightarrow> db_users db' = db_users db"
  "insert_key k db = Some db' \<Longrightarrow> db_users db' = db_users db"
  by (auto simp: insert_permission_def insert_key_def split: if_splits)

interpretation people: grant_law peopled "\<lambda>_. True" "\<lambda>_. True"
  by unfold_locales
    (auto simp: log_free_peopled peopled_def super_ids_insert super_ids_insert_user intro: admin_stmt)

lemmas keeps_users_handlers = people.create_user_keeps people.update_permissions_keeps people.readers_keep
lemmas keeps_key_handlers = people.create_api_key_keeps people.revoke_api_key_keeps

lemma delete_guards_triple:
  assumes "log_free P" "\<And>db. P db \<Longrightarrow> admin_db_ok db"
  shows "triple P (delete_guards rq auth uid)
     (\<lambda>_ db. P db \<and> uid \<in> u_id ` set (db_users db) \<and> uid \<notin> super_ids db) P"
proof -
  have target: "u_is_super u = 0 \<Longrightarrow> user_by_id uid db = Some u \<Longrightarrow> P db \<Longrightarrow> uid \<notin> super_ids db" for u db
    by (metis assms(2) super_of user_by_id_Some)
  have member: "user_by_id uid db = Some u \<Longrightarrow> uid \<in> u_id ` set (db_users db)" for u db
    by (auto dest!: user_by_id_Some)
  show ?thesis
    unfolding delete_guards_def Let_def
  proof (rule triple_seq)
    show "triple P (require_permission (rq_faults rq) 0 auth UsersDelete) (\<lambda>_. P) P"
      using keeps_require [OF assms(1)] by (rule keeps_triple)
  next
    fix x :: unit
    show "triple P
      (if auth_user_id auth = uid then fail (EForbidden ''Cannot delete yourself'')
       else seq_act (query (rq_faults rq) 1 (internal ''user lookup failed'') (user_by_id uid))
         (\<lambda>target. case target of None \<Rightarrow> fail (not_found ''user'' uid)
           | Some u \<Rightarrow> if u_is_super u \<noteq> 0 then fail (EForbidden ''Cannot delete the super user'') else ret ()))
      (\<lambda>_ db. P db \<and> uid \<in> u_id ` set (db_users db) \<and> uid \<notin> super_ids db) P"
      by (auto simp: triple_def seq_act_def query_def fail_def ret_def target member split: option.splits)
  qed
qed

lemma keeps_delete_writes:
  "triple (\<lambda>db. peopled db \<and> uid \<notin> super_ids db) (delete_writes rq auth uid) (\<lambda>_. peopled) peopled"
proof -
  have "keeps (\<lambda>db. peopled db \<and> uid \<notin> super_ids db) (delete_writes rq auth uid)"
    unfolding delete_writes_def Let_def
  proof (intro act_rules)
    show "keeps (\<lambda>db. peopled db \<and> uid \<notin> super_ids db)
      (execute (rq_faults rq) 2 (internal ''failed to revoke api keys'')
        (\<lambda>db. Some (revoke_keys (rq_clock rq 2) (\<lambda>k. k_user_id k = uid) db)))"
      by (rule keeps_execute) (auto simp: peopled_def intro: admin_stmt)
    show "keeps (\<lambda>db. peopled db \<and> uid \<notin> super_ids db)
      (execute (rq_faults rq) 3 (internal ''failed to delete user'') (\<lambda>db. Some (delete_user_row uid db)))"
      by (rule keeps_execute) (auto simp: peopled_def intro: admin_stmt)
    show "log_free (\<lambda>db. peopled db \<and> uid \<notin> super_ids db)"
      using log_free_peopled by (simp add: log_free_def super_ids_def)
  qed
  thus ?thesis unfolding keeps_def by (rule triple_weaken) auto
qed

lemma keeps_delete_user: "keeps peopled (delete_user rq auth uid)"
  unfolding keeps_def delete_user_def
proof (rule triple_seq [OF delete_guards_triple [OF log_free_peopled]])
  show "peopled db \<Longrightarrow> admin_db_ok db" for db by (simp add: peopled_def)
next
  show "triple (\<lambda>db. peopled db \<and> uid \<in> u_id ` set (db_users db) \<and> uid \<notin> super_ids db)
      (delete_writes rq auth uid) (\<lambda>_. peopled) peopled"
    by (rule triple_weaken [OF keeps_delete_writes]) auto
qed

text \<open>With \<open>uid\<close> a super user, statements that neither demote nor delete it keep it one.\<close>

definition led_by :: "string \<Rightarrow> admin_db \<Rightarrow> bool" where
  "led_by uid db \<longleftrightarrow> admin_db_ok db \<and> uid \<in> super_ids db"

lemma led_peopled: "led_by uid db \<Longrightarrow> peopled db"
  by (auto simp: led_by_def peopled_def)

lemma keeps_led [act_rules]:
  "keeps (led_by i) (execute faults n err (insert_permission uid perm granter now))"
  "i \<noteq> j \<Longrightarrow> keeps (led_by i) (execute faults n err (\<lambda>db. Some (set_super 0 (\<lambda>k. k = j) db)))"
  "keeps (led_by i) (execute faults n err (\<lambda>db. Some (set_super 0 (\<lambda>k. k \<noteq> i) db)))"
  by (rule keeps_execute; auto simp: led_by_def super_ids_insert super_ids_set_super intro: admin_stmt)+

lemma log_free_led [act_rules]: "log_free (led_by i)"
  using ok_log by (simp add: log_free_def led_by_def super_ids_def)

lemma triple_set_super:
  "triple (\<lambda>db. admin_db_ok db \<and> i \<in> u_id ` set (db_users db))
     (execute faults n err (\<lambda>db. Some (set_super 1 (\<lambda>k. k = i) db))) (\<lambda>_. led_by i) (\<lambda>_. True)"
  by (rule triple_execute) (auto simp: led_by_def super_ids_set_super intro: admin_stmt)

lemma triple_insert_super:
  "triple admin_db_ok (execute faults n err (insert_user i did 1 now)) (\<lambda>_. led_by i) (\<lambda>_. True)"
  by (rule triple_execute) (auto simp: led_by_def super_ids_insert_user intro: admin_stmt)

lemma led_tail: "keeps (led_by i) m \<Longrightarrow> triple (led_by i) m (\<lambda>_. led_by i) (\<lambda>_. True)"
  by (rule keeps_triple) auto

lemma keeps_transfer_super: "keeps peopled (transfer_super rq auth target)"
proof -
  let ?f = "rq_faults rq"
  let ?has = "\<lambda>affected db. admin_db_ok db \<and> (affected \<longrightarrow> target \<in> u_id ` set (db_users db))"
  let ?led = "\<lambda>affected db. affected \<longrightarrow> led_by target db"
  have exists: "triple peopled (query ?f 1 err (user_exists target)) ?has (\<lambda>_. True)" for err :: "string \<Rightarrow> AppError"
    by (rule triple_query) (auto simp: peopled_def)
  have promote: "triple (?has affected) (execute ?f 1 err (\<lambda>db. Some (set_super 1 (\<lambda>i. i = target) db)))
      (\<lambda>_. ?led affected) (\<lambda>_. True)" for affected and err :: "string \<Rightarrow> AppError"
    by (rule triple_execute) (auto simp: led_by_def super_ids_set_super intro: admin_stmt)
  have tail: "keeps (led_by target)
      (seq_act (if target \<noteq> auth_user_id auth
                then execute ?f 2 e1 (\<lambda>db. Some (set_super 0 (\<lambda>i. i = auth_user_id auth) db)) else ret ())
        (\<lambda>_. seq_act (grant_each ?f 5 target (Some (auth_user_id auth)) now (map as_str all_permissions))
        (\<lambda>_. query ?f 3 e2 (\<lambda>_. ()))))" for now and e1 e2 :: "string \<Rightarrow> AppError"
    unfolding grant_each_def by (intro act_rules keeps_each)
  have branch: "triple (?led affected) (if \<not> affected then fail e else m) (\<lambda>_. peopled) (\<lambda>_. True)"
    if "keeps (led_by target) m" for affected e and m :: "(AppError, unit) db_act"
    using led_tail [OF that]
    by (cases affected) (auto simp: act_rules intro: triple_weaken led_peopled)
  show ?thesis
    unfolding transfer_super_def Let_def
    by (intro keeps_if keeps_seq keeps_fail keeps_log_event log_free_peopled keeps_tx
          triple_seq [OF keeps_triple [OF keeps_query]] triple_seq [OF exists] triple_seq [OF promote] branch tail TrueI)
qed

definition account :: "string \<Rightarrow> string \<Rightarrow> admin_db \<Rightarrow> bool" where
  "account uid did db \<longleftrightarrow> (\<exists>u\<in>set (db_users db). u_id u = uid \<and> u_did u = did)"

definition sole_super :: "string \<Rightarrow> string \<Rightarrow> admin_db \<Rightarrow> bool" where
  "sole_super did uid db \<longleftrightarrow> admin_db_ok db \<and> super_ids db = {uid} \<and> account uid did db"

lemma account_exists: "account uid did db \<Longrightarrow> uid \<in> u_id ` set (db_users db)"
  by (auto simp: account_def)

lemma account_set_super [simp]: "account uid did (set_super v ids db) = account uid did db"
  by (auto simp: account_def set_super_def image_iff bex_Un)

lemma account_touch_user [simp]: "account uid did (touch_user now i db) = account uid did db"
  by (auto simp: account_def touch_user_def image_iff bex_Un)

lemma account_insert_permission:
  "insert_permission uid perm granter now db = Some db' \<Longrightarrow> account i did db' = account i did db"
  by (auto simp: account_def users_insert)

lemma account_insert_user: "insert_user uid did s now db = Some db' \<Longrightarrow> account uid did db'"
  by (auto simp: account_def insert_user_def split: if_splits)

lemma keeps_sole [act_rules]:
  "keeps (sole_super did i) (execute faults n err (insert_permission uid perm granter now))"
  by (rule keeps_execute) (auto simp: sole_super_def super_ids_insert account_insert_permission intro: admin_stmt)

lemma log_free_sole: "log_free (sole_super did i)"
  using ok_log by (simp add: log_free_def sole_super_def super_ids_def account_def)

lemma triple_attempt_body:
  "triple admin_db_ok
     (seq_act (query f 0 (\<lambda>e. e) (\<lambda>_. ())) (\<lambda>_.
      seq_act (query f 1 (\<lambda>e. e) (user_by_did did)) (\<lambda>existing.
      seq_act (case existing of
          Some u \<Rightarrow> seq_act (execute f 2 (\<lambda>e. e) (\<lambda>db. Some (set_super 1 (\<lambda>i. i = u_id u) db))) (\<lambda>_. ret (u_id u))
        | None \<Rightarrow> seq_act (execute f 2 (\<lambda>e. e) (insert_user i did 1 now)) (\<lambda>_. ret i)) (\<lambda>uid.
      seq_act (execute f 3 (\<lambda>e. e) (\<lambda>db. Some (set_super 0 (\<lambda>i. i \<noteq> uid) db))) (\<lambda>_.
      seq_act (each_act (\<lambda>n p. execute f n (\<lambda>e. e) (insert_permission uid (as_str p) None now)) 5 all_permissions) (\<lambda>_.
      seq_act (query f 4 (\<lambda>e. e) (\<lambda>_. ())) (\<lambda>_. ret uid)))))))
     (sole_super did) (\<lambda>_. True)"
proof -
  let ?found = "\<lambda>existing db. admin_db_ok db \<and> (\<forall>u. existing = Some u \<longrightarrow> account (u_id u) did db)"
  let ?chosen = "\<lambda>uid db. led_by uid db \<and> account uid did db"
  have look: "triple admin_db_ok (query f 1 (\<lambda>e. e) (user_by_did did)) ?found (\<lambda>_. True)"
    by (rule triple_query) (auto simp: account_def dest!: user_by_did_Some)
  have choose: "triple (?found existing) (case existing of
          Some u \<Rightarrow> seq_act (execute f 2 (\<lambda>e. e) (\<lambda>db. Some (set_super 1 (\<lambda>i. i = u_id u) db))) (\<lambda>_. ret (u_id u))
        | None \<Rightarrow> seq_act (execute f 2 (\<lambda>e. e) (insert_user i did 1 now)) (\<lambda>_. ret i)) ?chosen (\<lambda>_. True)" for existing
  proof (cases existing)
    case None
    have "triple (?found None) (execute f 2 (\<lambda>e. e) (insert_user i did 1 now)) (\<lambda>_. ?chosen i) (\<lambda>_. True)"
      by (rule triple_execute) (auto simp: led_by_def super_ids_insert_user account_insert_user intro: admin_stmt)
    thus ?thesis using None by (auto intro: triple_seq triple_ret)
  next
    case (Some u)
    have "triple (?found (Some u)) (execute f 2 (\<lambda>e. e) (\<lambda>db. Some (set_super 1 (\<lambda>i. i = u_id u) db)))
        (\<lambda>_. ?chosen (u_id u)) (\<lambda>_. True)"
      by (rule triple_execute) (auto simp: led_by_def super_ids_set_super account_exists intro: admin_stmt)
    thus ?thesis using Some by (auto intro: triple_seq triple_ret)
  qed
  have demote: "triple (?chosen uid) (execute f 3 (\<lambda>e. e) (\<lambda>db. Some (set_super 0 (\<lambda>i. i \<noteq> uid) db)))
      (\<lambda>_. sole_super did uid) (\<lambda>_. True)" for uid
    by (rule triple_execute) (auto simp: led_by_def sole_super_def super_ids_set_super intro: admin_stmt)
  have tail: "triple (sole_super did uid)
      (seq_act (each_act (\<lambda>n p. execute f n (\<lambda>e. e) (insert_permission uid (as_str p) None now)) 5 all_permissions) (\<lambda>_.
       seq_act (query f 4 (\<lambda>e. e) (\<lambda>_. ())) (\<lambda>_. ret uid))) (sole_super did) (\<lambda>_. True)" for uid
    by (intro triple_seq [OF keeps_triple [OF keeps_each]] triple_seq [OF keeps_triple [OF keeps_query]]
          triple_ret act_rules TrueI)
  show ?thesis
    by (intro triple_seq [OF keeps_triple [OF keeps_query]] triple_seq [OF look] triple_seq [OF choose]
          triple_seq [OF demote] tail TrueI)
qed

lemma sole_inv: "sole_super did uid db \<Longrightarrow> admin_inv db"
  by (auto simp: sole_super_def admin_inv_def owned_def)

lemma inv_ok: "admin_inv db \<Longrightarrow> admin_db_ok db"
  by (simp add: admin_inv_def)

lemma keeps_set_super_user: "keeps admin_inv (set_super_user env rq auth did)"
proof -
  have "keeps admin_inv (transfer_super_user faults fresh d now a)" for faults fresh d now a
    unfolding transfer_super_user_def Let_def
    by (rule keeps_tx) (rule triple_weaken [OF triple_attempt_body], auto intro: sole_inv inv_ok)
  thus ?thesis
    unfolding set_super_user_def Let_def by (intro act_rules keeps_retry)
qed

section \<open>What authentication answers\<close>

lemma load_permissions_Inr:
  "load_permissions faults n uid db = (Inr ps, db') \<longleftrightarrow>
     faults n = None \<and> ps = parse_permissions (permissions_of uid db) \<and> db' = db"
  by (simp add: load_permissions_def query_Inr)

lemma load_api_key_permissions_Inr:
  "load_api_key_permissions faults n uid ks db = (Inr ps, db') \<longleftrightarrow>
     faults n = None \<and> ps = parse_permissions ks \<inter> parse_permissions (permissions_of uid db) \<and> db' = db"
  by (auto simp: load_api_key_permissions_def act_Inr load_permissions_Inr)

text \<open>What a live key with its owner gives, and what a user gives who signs in.\<close>

definition key_grants :: "admin_env \<Rightarrow> admin_db \<Rightarrow> key_row \<Rightarrow> user_row \<Rightarrow> Permission set" where
  "key_grants env db k u =
     parse_permissions (unwrap_or (env_from_json env (k_permissions k)) []) \<inter>
     (if u_is_super u \<noteq> 0 then UNIV else parse_permissions (permissions_of (u_id u) db))"

definition key_auth :: "admin_env \<Rightarrow> admin_db \<Rightarrow> key_row \<Rightarrow> user_row \<Rightarrow> UserAuth" where
  "key_auth env db k u = \<lparr>auth_did = u_did u, auth_user_id = u_id u, auth_is_super = False,
     auth_is_platform = False, auth_permissions = key_grants env db k u\<rparr>"

definition session_auth :: "admin_db \<Rightarrow> user_row \<Rightarrow> UserAuth" where
  "session_auth db u = \<lparr>auth_did = u_did u, auth_user_id = u_id u, auth_is_super = u_is_super u \<noteq> 0,
     auth_is_platform = False,
     auth_permissions = (if u_is_super u \<noteq> 0 then {} else parse_permissions (permissions_of (u_id u) db))\<rparr>"

definition touched :: "admin_db \<Rightarrow> admin_db \<Rightarrow> bool" where
  "touched db db' \<longleftrightarrow> db' = db \<or> (\<exists>now kid. db' = touch_key now kid db) \<or> (\<exists>now uid. db' = touch_user now uid db)"

lemma try_key_None: "try_api_key_auth env rq db = (Inr None, db') \<longleftrightarrow> api_token (rq_authorization rq) = None \<and> db' = db"
  by (auto simp: try_api_key_auth_def act_Inr Let_def split: option.splits prod.splits if_splits)

lemma try_key_Some:
  assumes "try_api_key_auth env rq db = (Inr (Some auth), db')"
  obtains (platform) token where "api_token (rq_authorization rq) = Some token"
      "env_platform_api_key_hash env = Some (env_sha256_hex env token)" "auth = platform_auth" "db' = db"
  | (key) token k u where "api_token (rq_authorization rq) = Some token"
      "first_row (key_matches (env_sha256_hex env token) db) = Some (k, u)"
      "auth = key_auth env db k u" "touched db db'"
proof (cases "api_token (rq_authorization rq)")
  case None
  thus ?thesis using assms by (simp add: try_api_key_auth_def act_Inr)
next
  case (Some token)
  show ?thesis
  proof (cases "env_platform_api_key_hash env = Some (env_sha256_hex env token)")
    case True
    thus ?thesis using assms Some platform by (simp add: try_api_key_auth_def act_Inr)
  next
    case False
    obtain k u where row: "first_row (key_matches (env_sha256_hex env token) db) = Some (k, u)"
      using assms Some False by (auto simp: try_api_key_auth_def act_Inr Let_def split: option.splits)
    show ?thesis
      using assms Some False row
      by (intro key [OF Some row])
        (auto simp: try_api_key_auth_def act_Inr Let_def key_auth_def key_grants_def touched_def execute_snd
          load_api_key_permissions_Inr split: if_splits)
  qed
qed

text \<open>The tables as a session finds them: with the first user made where there was none.\<close>

definition bootstrapped :: "admin_env \<Rightarrow> admin_request \<Rightarrow> string \<Rightarrow> admin_db \<Rightarrow> admin_db" where
  "bootstrapped env rq did db =
     (if db_users db = [] \<and> env_superadmin_did env = None then snd (bootstrap_user rq did db) else db)"

lemma bootstrap_Inr: "bootstrap_user rq did db = (Inr y, db') \<longleftrightarrow> db' = snd (bootstrap_user rq did db)"
  by (auto simp: bootstrap_user_def Let_def ignore_err_def)

lemma authenticate_cases:
  assumes "authenticate env rq db = (Inr auth, db')"
  obtains (platform) token where "api_token (rq_authorization rq) = Some token"
      "env_platform_api_key_hash env = Some (env_sha256_hex env token)" "auth = platform_auth" "db' = db"
  | (key) token k u where "api_token (rq_authorization rq) = Some token"
      "first_row (key_matches (env_sha256_hex env token) db) = Some (k, u)"
      "auth = key_auth env db k u" "touched db db'"
  | (session) claims u where "api_token (rq_authorization rq) = None" "rq_claims rq = Inr claims"
      "require_admin_grant env claims = Inr ()"
      "user_by_did (cl_did claims) (bootstrapped env rq (cl_did claims) db) = Some u"
      "auth = session_auth (bootstrapped env rq (cl_did claims) db) u"
      "touched (bootstrapped env rq (cl_did claims) db) db'"
proof -
  obtain found db1 where found: "try_api_key_auth env rq db = (Inr found, db1)"
    using assms unfolding authenticate_def seq_Inr by blast
  show ?thesis
  proof (cases found)
    case (Some a)
    hence "a = auth \<and> db1 = db'" using assms found by (auto simp: authenticate_def seq_Inr ret_Inr)
    thus ?thesis using try_key_Some [of env rq db a db1] found Some platform key by metis
  next
    case None
    hence start: "api_token (rq_authorization rq) = None" "db1 = db" using found by (simp_all add: try_key_None)
    obtain claims where claims: "rq_claims rq = Inr claims" "require_admin_grant env claims = Inr ()"
      using assms found None by (auto simp: authenticate_def act_Inr Let_def)
    let ?did = "cl_did claims"
    have mid: "(if db_users db = [] \<and> env_superadmin_did env = None then bootstrap_user rq ?did else ret ()) db
        = (Inr y, db2) \<longleftrightarrow> db2 = bootstrapped env rq ?did db" for y db2
      by (auto simp: bootstrapped_def bootstrap_Inr ret_Inr)
    obtain u where u: "user_by_did ?did (bootstrapped env rq ?did db) = Some u"
      using assms found None start claims
      by (auto simp: authenticate_def seq_Inr lift_Inr query_Inr mid Let_def fail_Inr split: option.splits)
    have "u_did u = ?did" using u user_by_did_Some by blast
    hence "auth = session_auth (bootstrapped env rq ?did db) u \<and> touched (bootstrapped env rq ?did db) db'"
      using assms found None start claims u
      by (auto simp: authenticate_def seq_Inr lift_Inr query_Inr mid Let_def ret_Inr ignore_Inr execute_snd
            load_permissions_Inr session_auth_def touched_def split: if_splits)
    thus ?thesis using session [OF start(1) claims u] by simp
  qed
qed

lemma users_touch [simp]: "db_users (touch_key t kid db) = db_users db"
    "db_users (touch_user t uid db) = [] \<longleftrightarrow> db_users db = []"
  by (simp_all add: touch_key_def touch_user_def)

lemma keeps_inv_stmt:
  "keeps admin_inv (execute faults n err (insert_permission uid perm granter now))"
  "keeps admin_inv (execute faults n err (insert_user uid did 1 now))"
  "keeps admin_inv (execute faults n err (\<lambda>db. Some (touch_key t kid db)))"
  "keeps admin_inv (execute faults n err (\<lambda>db. Some (touch_user t uid db)))"
  by (rule keeps_execute; auto simp: admin_inv_def owned_def super_ids_insert super_ids_insert_user users_insert
      intro: admin_stmt)+

lemma keeps_bootstrap: "keeps admin_inv (bootstrap_user rq did)"
  unfolding bootstrap_user_def Let_def by (intro act_rules keeps_each keeps_inv_stmt)

lemma keeps_load [act_rules]: "keeps P (load_permissions faults n uid)" "keeps P (load_api_key_permissions faults n uid ks)"
  by (simp_all add: load_api_key_permissions_def load_permissions_def act_rules)

lemma keeps_authenticate: "keeps admin_inv (authenticate env rq)"
  unfolding authenticate_def try_api_key_auth_def Let_def
  by (intro act_rules keeps_bootstrap keeps_inv_stmt)

lemma keeps_inv_set_super:
  "keeps admin_inv (execute faults n err (\<lambda>db. Some (set_super 1 ids db)))"
proof (rule keeps_execute)
  fix db db'
  assume a: "admin_inv db" "Some (set_super 1 ids db) = Some db'"
  have "db_users (set_super 1 ids db) = [] \<longleftrightarrow> db_users db = []" by (simp add: set_super_def)
  thus "admin_inv db'"
    using a by (auto simp: admin_inv_def owned_def super_ids_set_super ok_set_super)
qed

lemma keeps_ensure: "keeps admin_inv (ensure_configured_superadmin faults fresh now did)"
  unfolding ensure_configured_superadmin_def Let_def
  by (intro act_rules keeps_each keeps_inv_stmt keeps_inv_set_super)

lemma touched_users: "touched db db' \<Longrightarrow> db_users db' = [] \<longleftrightarrow> db_users db = []"
  by (auto simp: touched_def)

lemma key_matches_iff:
  "(k, u) \<in> set (key_matches hash db) \<longleftrightarrow> k \<in> set (db_keys db) \<and> u \<in> set (db_users db) \<and> k_hash k = hash \<and>
     k_revoked_at k = None \<and> u_id u = k_user_id k"
  by (auto simp: key_matches_def)

lemma first_row_Some: "first_row rows = Some r \<Longrightarrow> r \<in> set rows"
  by (cases rows) (auto simp: first_row_def)

lemma authenticate_peopled:
  assumes "admin_inv db" "authenticate env rq db = (Inr auth, db')" "\<not> auth_is_platform auth"
  shows "peopled db'"
proof (rule inv_peopled)
  show "admin_inv db'" using keeps_after [OF keeps_authenticate assms(1)] assms(2) by (metis snd_conv)
  show "db_users db' \<noteq> []"
    using assms(2)
  proof (cases rule: authenticate_cases)
    case platform
    thus ?thesis using assms(3) by (simp add: platform_auth_def)
  next
    case (key token k u)
    hence "u \<in> set (db_users db)" using first_row_Some [OF key(2)] by (simp add: key_matches_iff)
    hence "db_users db \<noteq> []" by auto
    thus ?thesis using key(4) by (simp add: touched_users)
  next
    case (session claims u)
    hence "u \<in> set (db_users (bootstrapped env rq (cl_did claims) db))" using user_by_did_Some by blast
    hence "db_users (bootstrapped env rq (cl_did claims) db) \<noteq> []" by auto
    thus ?thesis using session(6) by (simp add: touched_users)
  qed
qed

lemma keeps_handler: "\<nexists>did. call = CallSetSuperUser did \<Longrightarrow> keeps peopled (handler env rq auth call)"
  by (cases call) (simp_all add: keeps_done keeps_users_handlers keeps_key_handlers keeps_delete_user keeps_transfer_super)

lemma user_auth_Inr:
  "user_auth env rq db = (Inr auth, db') \<longleftrightarrow> authenticate env rq db = (Inr auth, db') \<and> \<not> auth_is_platform auth"
  by (auto simp: user_auth_def act_Inr split: if_splits)

lemma keeps_extractor: "keeps admin_inv (extractor env rq call)"
  by (simp add: extractor_def allow_platform_def user_auth_def act_rules keeps_authenticate split: admin_call.splits)

lemma keeps_serve: "keeps admin_inv (serve env rq call)"
  unfolding keeps_def serve_def
proof (rule triple_seq)
  let ?Q = "\<lambda>auth db. admin_inv db \<and> ((\<exists>did. call = CallSetSuperUser did) \<or> peopled db)"
  show "triple admin_inv (extractor env rq call) ?Q admin_inv"
  proof (rule tripleI)
    fix db e db'
    assume "admin_inv db" "extractor env rq call db = (Inl e, db')"
    thus "admin_inv db'" using keeps_after [OF keeps_extractor] by (metis snd_conv)
  next
    fix db auth db'
    assume a: "admin_inv db" "extractor env rq call db = (Inr auth, db')"
    hence "admin_inv db'" using keeps_after [OF keeps_extractor] by (metis snd_conv)
    moreover have "peopled db'" if "\<nexists>did. call = CallSetSuperUser did"
      using a that authenticate_peopled
      by (auto simp: extractor_def user_auth_Inr split: admin_call.splits)
    ultimately show "?Q auth db'" by blast
  qed
next
  fix auth
  show "triple (\<lambda>db. admin_inv db \<and> ((\<exists>did. call = CallSetSuperUser did) \<or> peopled db)) (handler env rq auth call)
      (\<lambda>_. admin_inv) admin_inv"
  proof (cases "\<exists>did. call = CallSetSuperUser did")
    case True
    thus ?thesis
      using keeps_done [OF keeps_set_super_user] unfolding keeps_def by (auto intro: triple_weaken)
  next
    case False
    hence "keeps peopled (handler env rq auth call)" by (rule keeps_handler)
    thus ?thesis using False unfolding keeps_def by (auto intro: triple_weaken peopled_inv)
  qed
qed

end
