(* ===== verification/Admin_Properties.thy ===== *)
theory Admin_Properties
  imports Admin_Invariant
begin

text \<open>
  What the admin API promises: an instance with users keeps an owner; nobody below the super user
  raises what anybody below it can do; a key gives what its list and its owner hold until it is
  revoked; sessions of apps need the grant; the platform principal names the owner and nothing else;
  and the interleaving of two requests that leaves an instance with no owner.
\<close>

section \<open>An owner\<close>

definition empty_db :: admin_db where
  "empty_db = \<lparr>db_users = [], db_permissions = [], db_keys = [], db_events = []\<rparr>"

inductive admin_reach :: "admin_env \<Rightarrow> admin_db \<Rightarrow> bool" for env where
  start: "admin_reach env empty_db"
| request: "admin_reach env db \<Longrightarrow> admin_reach env (snd (serve env rq call db))"
| seed: "admin_reach env db \<Longrightarrow> admin_reach env (snd (ensure_configured_superadmin faults fresh now did db))"

lemma reach_inv: "admin_reach env db \<Longrightarrow> admin_inv db"
proof (induction rule: admin_reach.induct)
  case start
  show ?case by (simp add: admin_inv_def admin_db_ok_def owned_def empty_db_def)
next
  case (request db rq call)
  from request(2) show ?case by (rule keeps_after [OF keeps_serve])
next
  case (seed db faults fresh now did)
  from seed(2) show ?case by (rule keeps_after [OF keeps_ensure])
qed

section \<open>No escalation\<close>

text \<open>
  What anybody below the super user can do: the recognised permissions of the users that are not
  super, and of the live keys whose owner is.
\<close>

definition held :: "admin_env \<Rightarrow> admin_db \<Rightarrow> Permission set" where
  "held env db =
     {p. \<exists>u\<in>set (db_users db). u_is_super u = 0 \<and> p \<in> parse_permissions (permissions_of (u_id u) db)} \<union>
     {p. \<exists>k\<in>set (db_keys db). \<exists>u\<in>set (db_users db). u_is_super u \<noteq> 0 \<and> u_id u = k_user_id k \<and>
        k_revoked_at k = None \<and> p \<in> parse_permissions (unwrap_or (env_from_json env (k_permissions k)) [])}"

definition bounded_by :: "admin_env \<Rightarrow> Permission set \<Rightarrow> string set \<Rightarrow> admin_db \<Rightarrow> bool" where
  "bounded_by env H S db \<longleftrightarrow> admin_db_ok db \<and> held env db \<subseteq> H \<and> super_ids db = S"

lemma mem_parse: "p \<in> parse_permissions ks \<longleftrightarrow> as_str p \<in> set ks"
  by (auto simp: parse_permissions_def List.map_filter_def from_value_Some_iff image_iff intro!: bexI [of _ "as_str p"])

lemma mem_permissions_of:
  "s \<in> set (permissions_of uid db) \<longleftrightarrow> (\<exists>r\<in>set (db_permissions db). p_user_id r = uid \<and> p_permission r = s)"
  by (auto simp: permissions_of_def)

definition user_holds :: "user_row set \<Rightarrow> permission_row set \<Rightarrow> Permission \<Rightarrow> bool" where
  "user_holds us rs p \<longleftrightarrow> (\<exists>u\<in>us. \<exists>r\<in>rs. u_is_super u = 0 \<and> p_user_id r = u_id u \<and> p_permission r = as_str p)"

definition key_holds :: "admin_env \<Rightarrow> user_row set \<Rightarrow> key_row set \<Rightarrow> Permission \<Rightarrow> bool" where
  "key_holds env us ks p \<longleftrightarrow> (\<exists>u\<in>us. \<exists>k\<in>ks. u_is_super u \<noteq> 0 \<and> u_id u = k_user_id k \<and> k_revoked_at k = None \<and>
     as_str p \<in> set (unwrap_or (env_from_json env (k_permissions k)) []))"

lemma mem_held:
  "p \<in> held env db \<longleftrightarrow> user_holds (set (db_users db)) (set (db_permissions db)) p \<or>
     key_holds env (set (db_users db)) (set (db_keys db)) p"
  unfolding held_def user_holds_def key_holds_def mem_parse mem_permissions_of by blast

lemma user_holds_mono: "us \<subseteq> us' \<Longrightarrow> rs \<subseteq> rs' \<Longrightarrow> user_holds us rs p \<Longrightarrow> user_holds us' rs' p"
  unfolding user_holds_def by blast

lemma key_holds_mono: "us \<subseteq> us' \<Longrightarrow> ks \<subseteq> ks' \<Longrightarrow> key_holds env us ks p \<Longrightarrow> key_holds env us' ks' p"
  unfolding key_holds_def by blast

lemma log_free_bounded: "log_free (bounded_by env H S)"
  using ok_log by (simp add: log_free_def bounded_by_def held_def super_ids_def permissions_of_def)

lemma bounded_insert_permission:
  assumes "bounded_by env H S db" "insert_permission uid s granter now db = Some db'"
    "\<And>p. from_value s = Some p \<Longrightarrow> p \<in> H"
  shows "bounded_by env H S db'"
proof -
  have "db' = db \<or> db_keys db' = db_keys db \<and> (\<exists>r. set (db_permissions db') = insert r (set (db_permissions db)) \<and> p_permission r = s)"
    using assms(2) by (auto simp: insert_permission_def split: if_splits)
  hence "held env db' \<subseteq> held env db \<union> {p. s = as_str p}"
    using users_insert(1) [OF assms(2)] by (auto simp: mem_held user_holds_def)
  thus ?thesis
    using assms ok_insert_permission [of db uid s granter now db'] super_ids_insert(1) [OF assms(2)]
    by (auto simp: bounded_by_def from_value_Some_iff)
qed

lemma bounded_insert_user:
  assumes "bounded_by env H S db" "insert_user uid did 0 now db = Some db'"
  shows "bounded_by env H S db'"
proof -
  define u where "u = \<lparr>u_id = uid, u_did = did, u_is_super = 0, u_created_at = now, u_last_used_at = None\<rparr>"
  have u: "u_id u = uid" "u_is_super u = 0" "set (db_users db') = insert u (set (db_users db))"
      "db_permissions db' = db_permissions db" "db_keys db' = db_keys db" "uid \<notin> u_id ` set (db_users db)"
    using assms(2) by (auto simp: insert_user_def list_ex_iff u_def split: if_splits)
  hence "\<forall>r\<in>set (db_permissions db). p_user_id r \<noteq> uid"
    using assms(1) unfolding bounded_by_def admin_db_ok_def user_exists_iff by metis
  hence "held env db' \<subseteq> held env db"
    using u(1-5) by (auto simp: mem_held user_holds_def key_holds_def)
  thus ?thesis
    using assms ok_insert_user [of db uid did 0 now db'] super_ids_insert_user [OF assms(2)] by (auto simp: bounded_by_def)
qed

lemma bounded_insert_key:
  assumes "bounded_by env H S db" "insert_key k db = Some db'"
    "parse_permissions (unwrap_or (env_from_json env (k_permissions k)) []) \<subseteq> H"
  shows "bounded_by env H S db'"
proof -
  have "set (db_keys db') = insert k (set (db_keys db))" "db_permissions db' = db_permissions db"
    using assms(2) by (auto simp: insert_key_def split: if_splits)
  hence "held env db' \<subseteq> held env db \<union> parse_permissions (unwrap_or (env_from_json env (k_permissions k)) [])"
    using users_insert(2) [OF assms(2)] by (auto simp: mem_held key_holds_def mem_parse)
  thus ?thesis
    using assms ok_insert_key [of db k db'] super_ids_insert(2) [OF assms(2)] by (auto simp: bounded_by_def)
qed

lemma held_revoke_keys: "held env (revoke_keys now which db) \<subseteq> held env db"
proof
  fix p
  have "\<exists>k'\<in>set (db_keys db). k = k' \<or> k_revoked_at k \<noteq> None" if "k \<in> set (db_keys (revoke_keys now which db))" for k
    using that by (fastforce simp: revoke_keys_def simp del: if_image_distrib split: if_splits)
  hence "key_holds env (set (db_users db)) (set (db_keys (revoke_keys now which db))) p \<Longrightarrow>
      key_holds env (set (db_users db)) (set (db_keys db)) p"
    unfolding key_holds_def by metis
  moreover assume "p \<in> held env (revoke_keys now which db)"
  ultimately show "p \<in> held env db" by (auto simp: mem_held revoke_keys_def)
qed

lemma held_delete_user_row: "held env (delete_user_row uid db) \<subseteq> held env db"
proof
  fix p
  have "\<exists>r'\<in>set (db_permissions db). p_user_id r = p_user_id r' \<and> p_permission r = p_permission r'"
    if "r \<in> set (db_permissions (delete_user_row uid db))" for r
    using that by (fastforce simp: delete_user_row_def simp del: if_image_distrib split: if_splits)
  moreover have us: "set (db_users (delete_user_row uid db)) \<subseteq> set (db_users db)"
      "set (db_keys (delete_user_row uid db)) \<subseteq> set (db_keys db)"
    by (auto simp: delete_user_row_def)
  ultimately have "user_holds (set (db_users (delete_user_row uid db))) (set (db_permissions (delete_user_row uid db))) p \<Longrightarrow>
      user_holds (set (db_users db)) (set (db_permissions db)) p"
    unfolding user_holds_def by (metis subsetD)
  moreover assume "p \<in> held env (delete_user_row uid db)"
  ultimately show "p \<in> held env db" using key_holds_mono [OF us, of env p] by (auto simp: mem_held)
qed

lemma held_delete_permission: "held env (delete_permission uid s db) \<subseteq> held env db"
proof
  fix p
  assume "p \<in> held env (delete_permission uid s db)"
  thus "p \<in> held env db"
    using user_holds_mono [of "set (db_users db)" "set (db_users db)" "set (db_permissions (delete_permission uid s db))"]
    by (auto simp: mem_held delete_permission_def)
qed

lemma bounded_shrink:
  "bounded_by env H S db \<Longrightarrow> bounded_by env H S (delete_permission uid s db)"
  "bounded_by env H S db \<Longrightarrow> bounded_by env H S (revoke_keys now which db)"
  "bounded_by env H S db \<Longrightarrow> uid \<notin> S \<Longrightarrow> bounded_by env H S (delete_user_row uid db)"
  using held_delete_permission [of env uid s db] held_revoke_keys [of env now which db] held_delete_user_row [of env uid db]
  by (auto simp: bounded_by_def intro: admin_stmt)

lemma beyond_None:
  assumes "beyond_actor auth perms = None" "\<not> auth_is_super auth" "s \<in> set perms" "from_value s = Some p"
  shows "p \<in> auth_permissions auth"
proof -
  have "List.find (\<lambda>s. case from_value s of Some p \<Rightarrow> p \<notin> auth_permissions auth | None \<Rightarrow> False) perms = None"
    using assms(1,2) by (simp add: beyond_actor_def)
  thus ?thesis using assms(3,4) unfolding find_None_iff by (auto split: option.splits)
qed

interpretation bounded: grant_law "bounded_by env H S" "\<lambda>s. \<forall>p. from_value s = Some p \<longrightarrow> p \<in> H"
    "\<lambda>k. parse_permissions (unwrap_or (env_from_json env (k_permissions k)) []) \<subseteq> H" for env H S
proof unfold_locales
  show "log_free (bounded_by env H S)" by (rule log_free_bounded)
qed (blast intro: bounded_shrink bounded_insert_permission bounded_insert_user bounded_insert_key)+

lemma guard_bounds:
  assumes "auth_permissions auth \<subseteq> H" "\<not> auth_is_super auth" "beyond_actor auth perms = None"
  shows "\<forall>s\<in>set perms. \<forall>p. from_value s = Some p \<longrightarrow> p \<in> H" "parse_permissions perms \<subseteq> H"
  using beyond_None [OF assms(3,2)] assms(1) by (auto simp: mem_parse)

lemma keeps_bounded_delete: "keeps (bounded_by env H S) (delete_user rq auth uid)"
  unfolding delete_user_def keeps_def
proof (rule triple_seq [OF delete_guards_triple [OF log_free_bounded]])
  show "bounded_by env H S db \<Longrightarrow> admin_db_ok db" for db by (simp add: bounded_by_def)
next
  have "keeps (\<lambda>db. bounded_by env H S db) (delete_writes rq auth uid)" if "uid \<notin> S"
    unfolding delete_writes_def Let_def using that
    by (intro act_rules keeps_execute log_free_bounded) (auto intro: bounded_shrink)
  thus "triple (\<lambda>db. bounded_by env H S db \<and> uid \<in> u_id ` set (db_users db) \<and> uid \<notin> super_ids db)
      (delete_writes rq auth uid) (\<lambda>_. bounded_by env H S) (bounded_by env H S)"
    by (cases "uid \<in> S") (auto simp: keeps_def triple_def bounded_by_def)
qed

lemma keeps_bounded_handler:
  assumes "auth_permissions auth \<subseteq> H" "\<not> auth_is_super auth" "\<not> auth_is_platform auth"
    "\<forall>xs. env_from_json env (env_to_json env xs) = Some xs"
  shows "keeps (bounded_by env H S) (handler env rq auth call)"
proof -
  note guard = guard_bounds [OF assms(1,2)]
  have "keeps (bounded_by env H S) (create_api_key env rq auth body)" for body
    by (rule bounded.create_api_key_keeps) (simp add: new_key_def assms(4) unwrap_or_def guard(2))
  thus ?thesis
    using assms(2,3)
    by (cases call) (simp_all add: keeps_done bounded.create_user_keeps bounded.update_permissions_keeps guard(1)
        keeps_bounded_delete bounded.readers_keep bounded.revoke_api_key_keeps transfer_super_def set_super_user_def keeps_fail)
qed

definition all_super :: "admin_db \<Rightarrow> bool" where
  "all_super db \<longleftrightarrow> (\<forall>u\<in>set (db_users db). u_is_super u = 1)"

lemma keeps_all_super_bootstrap: "keeps all_super (bootstrap_user rq did)"
  unfolding bootstrap_user_def Let_def
  by (intro act_rules keeps_each keeps_execute)
    (auto simp: log_free_def all_super_def insert_user_def users_insert split: if_splits)

lemma touched_same:
  assumes "touched db db'"
  shows "held env db' = held env db" "super_ids db' = super_ids db" "admin_db_ok db \<Longrightarrow> admin_db_ok db'"
proof -
  have "held env (touch_key now kid db) = held env db" for now kid
  proof -
    have "key_holds env us ((\<lambda>k. if k_id k = kid then k\<lparr>k_last_used_at := Some now\<rparr> else k) ` ks) p = key_holds env us ks p"
      for us ks p
      unfolding key_holds_def bex_simps by (intro bex_cong refl) auto
    thus ?thesis by (auto simp: mem_held touch_key_def simp del: if_image_distrib)
  qed
  moreover have "held env (touch_user now uid db) = held env db" for now uid
  proof -
    have "user_holds ((\<lambda>u. if u_id u = uid then u\<lparr>u_last_used_at := Some now\<rparr> else u) ` us) rs p = user_holds us rs p"
      "key_holds env ((\<lambda>u. if u_id u = uid then u\<lparr>u_last_used_at := Some now\<rparr> else u) ` us) ks p = key_holds env us ks p"
      for us rs ks p
      unfolding user_holds_def key_holds_def bex_simps by (intro bex_cong refl; auto)+
    thus ?thesis by (auto simp: mem_held touch_user_def simp del: if_image_distrib)
  qed
  ultimately show "held env db' = held env db" "super_ids db' = super_ids db" "admin_db_ok db \<Longrightarrow> admin_db_ok db'"
    using assms by (auto simp: touched_def intro: admin_stmt)
qed

lemma key_grants_held:
  assumes "first_row (key_matches hash db) = Some (k, u)"
  shows "key_grants env db k u \<subseteq> held env db"
  using first_row_Some [OF assms] unfolding key_matches_iff key_grants_def held_def
  by (auto split: if_splits)

lemma authenticate_below_super:
  assumes "authenticate env rq db = (Inr auth, db')" "\<not> auth_is_super auth" "\<not> auth_is_platform auth"
  shows "touched db db'" "auth_permissions auth \<subseteq> held env db"
proof -
  have "touched db db' \<and> auth_permissions auth \<subseteq> held env db"
    using assms(1)
  proof (cases rule: authenticate_cases)
    case platform
    thus ?thesis using assms(3) by (simp add: platform_auth_def)
  next
    case (key token k u)
    thus ?thesis using key_grants_held [OF key(2), of env] by (simp add: key_auth_def)
  next
    case (session claims u)
    let ?db = "bootstrapped env rq (cl_did claims) db"
    have u: "u \<in> set (db_users ?db)" "u_is_super u = 0"
      using session assms(2) user_by_did_Some [OF session(4)] by (auto simp: session_auth_def)
    have "?db = db"
    proof (rule ccontr)
      assume "?db \<noteq> db"
      hence b: "db_users db = []" "?db = snd (bootstrap_user rq (cl_did claims) db)"
        by (auto simp: bootstrapped_def split: if_splits)
      have "all_super db" using b(1) by (simp add: all_super_def)
      hence "all_super ?db" unfolding b(2) by (rule keeps_after [OF keeps_all_super_bootstrap])
      thus False using u by (auto simp: all_super_def)
    qed
    thus ?thesis using session u by (auto simp: session_auth_def held_def)
  qed
  thus "touched db db'" "auth_permissions auth \<subseteq> held env db" by auto
qed

lemma extractor_authenticate: "extractor env rq call db = (Inr auth, db') \<Longrightarrow> authenticate env rq db = (Inr auth, db')"
  by (auto simp: extractor_def allow_platform_def user_auth_Inr split: admin_call.splits)

section \<open>Properties\<close>

subsection \<open>A concrete instance\<close>

text \<open>
  A codec of lists of strings with the property the theorems ask of JSON: each character is written
  after a mark, each string ends with a dot.
\<close>

fun encode_strings :: "string list \<Rightarrow> string" where
  "encode_strings [] = []"
| "encode_strings ([] # ss) = CHR ''.'' # encode_strings ss"
| "encode_strings ((c # s) # ss) = CHR ''-'' # c # encode_strings (s # ss)"

fun decode_strings :: "string \<Rightarrow> string \<Rightarrow> string list option" where
  "decode_strings acc [] = (if acc = [] then Some [] else None)"
| "decode_strings acc (m # cs) =
     (if m = CHR ''.'' then map_option (Cons (rev acc)) (decode_strings [] cs)
      else case cs of c # cs' \<Rightarrow> decode_strings (c # acc) cs' | [] \<Rightarrow> None)"

lemma decode_encode_acc:
  "decode_strings acc (encode_strings (s # ss)) = map_option (Cons (rev acc @ s)) (decode_strings [] (encode_strings ss))"
  by (induction s arbitrary: acc) auto

lemma decode_encode: "decode_strings [] (encode_strings ss) = Some ss"
  by (induction ss) (simp_all add: decode_encode_acc del: decode_strings.simps(2))

definition sample_env :: admin_env where
  "sample_env = \<lparr>env_superadmin_did = None, env_platform_api_key_hash = Some ''platform-hash'',
     env_has_keyring = True,
     env_limits = \<lparr>lim_seats = None, lim_api_clients = None, lim_anonymous_xrpc = None, lim_log_retention_days = None\<rparr>,
     env_sha256_hex = (\<lambda>s. s), env_to_json = encode_strings, env_from_json = decode_strings [],
     env_decode = Some, env_granted_scope = (\<lambda>_ _ _. Ok ''rpc:dev.happyview.admin.manage?aud=*''),
     env_resolve_identifier = Ok, env_retryable = (\<lambda>_. False)\<rparr>"

definition sample_claims :: "string \<Rightarrow> Claims" where
  "sample_claims did = \<lparr>cl_did = did, cl_client_key = None, cl_dpop_key_id = None, cl_service_auth_lxm = None\<rparr>"

definition sample_request :: "string \<Rightarrow> admin_request" where
  "sample_request did = \<lparr>rq_authorization = None, rq_claims = Ok (sample_claims did),
     rq_auth_faults = (\<lambda>_. None), rq_faults = (\<lambda>_. None), rq_clock = (\<lambda>_. ''now''),
     rq_fresh = (\<lambda>n. if n = 0 then ''new0'' else ''new1''), rq_random_hex = ''0123456789abcdef0123456789abcdef''\<rparr>"

definition sample_user :: "string \<Rightarrow> int \<Rightarrow> user_row" where
  "sample_user i s = \<lparr>u_id = i, u_did = ''did:plc:'' @ i, u_is_super = s, u_created_at = ''t'', u_last_used_at = None\<rparr>"

definition sample_grant :: "string \<Rightarrow> Permission \<Rightarrow> permission_row" where
  "sample_grant i p = \<lparr>p_user_id = i, p_permission = as_str p, p_granted_by = None, p_granted_at = ''t''\<rparr>"

text \<open>An owner \<open>o\<close>, and \<open>a\<close> and \<open>b\<close>, of whom \<open>a\<close> may manage users.\<close>

definition sample_db :: admin_db where
  "sample_db = \<lparr>db_users = [sample_user ''o'' 1, sample_user ''a'' 0, sample_user ''b'' 0],
     db_permissions = [sample_grant ''a'' UsersCreate, sample_grant ''a'' UsersUpdate, sample_grant ''a'' ApiKeysCreate,
       sample_grant ''a'' UsersDelete],
     db_keys = [], db_events = []\<rparr>"

lemma sample_db_ok: "admin_db_ok sample_db"
  by (simp add: admin_db_ok_def sample_db_def sample_user_def sample_grant_def as_str_inj)

lemma sample_users: "db_users sample_db = [sample_user ''o'' 1, sample_user ''a'' 0, sample_user ''b'' 0]"
  by (simp add: sample_db_def)

lemma sample_permissions:
  "parse_permissions (permissions_of ''a'' sample_db) = {UsersCreate, UsersUpdate, ApiKeysCreate, UsersDelete}"
  by (rule set_eqI) (auto simp: mem_parse mem_permissions_of sample_db_def sample_grant_def as_str_inj simp del: as_str.simps)

lemma sample_authenticate:
  "authenticate sample_env (sample_request ''did:plc:a'') sample_db =
     (Inr \<lparr>auth_did = ''did:plc:a'', auth_user_id = ''a'', auth_is_super = False, auth_is_platform = False,
       auth_permissions = {UsersCreate, UsersUpdate, ApiKeysCreate, UsersDelete}\<rparr>, touch_user ''now'' ''a'' sample_db)"
  by (simp add: authenticate_def try_api_key_auth_def api_token_def sample_request_def sample_claims_def require_admin_grant_def
      seq_act_def ret_def lift_result_def query_def execute_def ignore_err_def load_permissions_def
      user_by_did_def sample_permissions sample_users sample_user_def Let_def)

subsection \<open>Claims\<close>

text \<open>
  Property C3. From empty tables, whatever requests are served in whatever order, whichever of their
  statements fail, and however often a configured super user is seeded: keys and foreign keys hold, and
  as soon as the instance has a user it has a super user.
\<close>
theorem instance_keeps_an_owner:
  assumes "admin_reach env db"
  shows "admin_db_ok db \<and> (db_users db = [] \<or> super_ids db \<noteq> {})"
  using reach_inv [OF assms] by (simp add: admin_inv_def owned_def)

theorem instance_keeps_an_owner_witness:
  "admin_reach sample_env (snd (serve sample_env (sample_request ''did:plc:o'') CallListUsers empty_db)) \<and>
   admin_db_ok (snd (serve sample_env (sample_request ''did:plc:o'') CallListUsers empty_db))"
  using instance_keeps_an_owner [OF admin_reach.request [OF admin_reach.start]] admin_reach.request [OF admin_reach.start]
  by blast

text \<open>
  Property C4. No request of a principal below the super user (a user that is not super, or any API
  key, a super user's included) makes anybody a super user or removes one, and none adds a permission
  to what the users below the super user and the live keys of super users hold together; the principal
  itself acts within it.
\<close>
theorem no_escalation:
  assumes "\<forall>xs. env_from_json env (env_to_json env xs) = Some xs"
    and "admin_db_ok db" "extractor env rq call db = (Inr auth, db1)"
    and "\<not> auth_is_super auth" "\<not> auth_is_platform auth"
  shows "auth_permissions auth \<subseteq> held env db \<and> held env (snd (serve env rq call db)) \<subseteq> held env db \<and>
    super_ids (snd (serve env rq call db)) = super_ids db"
proof -
  note auth = authenticate_below_super [OF extractor_authenticate [OF assms(3)] assms(4,5)]
  have "bounded_by env (held env db) (super_ids db) db1"
    using touched_same [OF auth(1)] assms(2) by (simp add: bounded_by_def)
  hence "bounded_by env (held env db) (super_ids db) (snd (handler env rq auth call db1))"
    by (rule keeps_after [OF keeps_bounded_handler [OF auth(2) assms(4,5,1)]])
  moreover have "serve env rq call db = handler env rq auth call db1"
    using assms(3) by (simp add: serve_def seq_act_def)
  ultimately show ?thesis using auth(2) by (simp add: bounded_by_def)
qed

theorem no_escalation_witness:
  "held sample_env (snd (serve sample_env (sample_request ''did:plc:a'') (CallDeleteUser ''b'') sample_db))
     \<subseteq> held sample_env sample_db \<and>
   super_ids (snd (serve sample_env (sample_request ''did:plc:a'') (CallDeleteUser ''b'') sample_db)) = super_ids sample_db"
proof -
  have "extractor sample_env (sample_request ''did:plc:a'') (CallDeleteUser ''b'') sample_db =
      (Inr \<lparr>auth_did = ''did:plc:a'', auth_user_id = ''a'', auth_is_super = False, auth_is_platform = False,
        auth_permissions = {UsersCreate, UsersUpdate, ApiKeysCreate, UsersDelete}\<rparr>, touch_user ''now'' ''a'' sample_db)"
    by (simp add: extractor_def user_auth_Inr sample_authenticate)
  moreover have "\<forall>xs. env_from_json sample_env (env_to_json sample_env xs) = Some xs"
    by (simp add: sample_env_def decode_encode)
  ultimately show ?thesis using no_escalation [OF _ sample_db_ok] by simp
qed

lemma execute_no_fault: "faults n = None \<Longrightarrow> u db = Some db' \<Longrightarrow> execute faults n err u db = (Inr (), db')"
  by (simp add: execute_def)

lemma insert_permission_succeeds:
  assumes "uid \<in> u_id ` set (db_users db)" "g \<in> u_id ` set (db_users db)"
  obtains db' where "insert_permission uid s (Some g) now db = Some db'" "db_users db' = db_users db" "db_keys db' = db_keys db"
  using assms that by (cases "list_ex (\<lambda>p. p_user_id p = uid \<and> p_permission p = s) (db_permissions db)")
    (simp_all add: insert_permission_def)

lemma grant_each_succeeds:
  assumes "\<forall>n. faults n = None" "uid \<in> u_id ` set (db_users db)" "g \<in> u_id ` set (db_users db)"
  shows "\<exists>db'. grant_each faults n uid (Some g) now perms db = (Inr (), db') \<and> db_users db' = db_users db"
  using assms(2,3)
proof (induction perms arbitrary: n db)
  case Nil
  thus ?case by (simp add: grant_each_def ret_def)
next
  case (Cons s perms)
  obtain db1 where "insert_permission uid s (Some g) now db = Some db1" "db_users db1 = db_users db"
    using insert_permission_succeeds [OF Cons.prems] by metis
  thus ?case
    using Cons.IH [of db1 "Suc n"] Cons.prems assms(1)
    by (simp add: grant_each_def seq_act_def execute_def)
qed

lemma transfer_super_succeeds:
  assumes "\<forall>n. rq_faults rq n = None" "auth_is_super auth" "target \<in> u_id ` set (db_users db)"
    "auth_user_id auth \<in> u_id ` set (db_users db)" "target \<noteq> auth_user_id auth"
  obtains db' where "transfer_super rq auth target db = (Inr (), db')"
    "db_users db' = db_users (set_super 0 (\<lambda>i. i = auth_user_id auth) (set_super 1 (\<lambda>i. i = target) db))"
proof -
  let ?db = "set_super 0 (\<lambda>i. i = auth_user_id auth) (set_super 1 (\<lambda>i. i = target) db)"
  obtain db1 where db1: "grant_each (rq_faults rq) 5 target (Some (auth_user_id auth)) (rq_clock rq 2) (map as_str all_permissions) ?db =
      (Inr (), db1)" "db_users db1 = db_users ?db"
    using grant_each_succeeds [of "rq_faults rq" target ?db "auth_user_id auth" 5 "rq_clock rq 2" "map as_str all_permissions"]
      assms(1,3,4) by (metis set_super_ids(3))
  let ?log = "\<lambda>db. db\<lparr>db_events := db_events db @ [admin_event ''user.super_transferred'' SevWarn (Some (auth_did auth)) (Some target)
             (JObject [(''from_user_id'', JString (auth_user_id auth)), (''to_user_id'', JString target)])]\<rparr>"
  have "transfer_super rq auth target db = (Inr (), ?log db1)"
    using assms db1(1)
    by (simp add: transfer_super_def Let_def seq_act_def transaction_def query_def execute_def log_event_def ignore_err_def)
  thus ?thesis using that [of "?log db1"] db1(2) by simp
qed

text \<open>
  Property C15. Deleting a user is not one transaction: between the reads that find the target is not
  the super user and the writes that delete it, the super user can transfer its role to that target.
  All three steps succeed, and the instance has users and no super user.
\<close>
theorem delete_can_race_transfer:
  "\<exists>db1 db2.
     delete_guards (sample_request ''did:plc:a'') (session_auth sample_db (sample_user ''a'' 0)) ''b'' sample_db = (Inr (), sample_db) \<and>
     transfer_super (sample_request ''did:plc:o'') (session_auth sample_db (sample_user ''o'' 1)) ''b'' sample_db = (Inr (), db1) \<and>
     delete_writes (sample_request ''did:plc:a'') (session_auth sample_db (sample_user ''a'' 0)) ''b'' db1 = (Inr (), db2) \<and>
     db_users db2 \<noteq> [] \<and> super_ids db2 = {}"
proof -
  let ?A = "session_auth sample_db (sample_user ''a'' 0)"
  let ?O = "session_auth sample_db (sample_user ''o'' 1)"
  have guards: "delete_guards (sample_request ''did:plc:a'') ?A ''b'' sample_db = (Inr (), sample_db)"
    by (simp add: delete_guards_def Let_def seq_act_def require_permission_def has_permission_def session_auth_def sample_user_def
        sample_permissions ret_def query_def sample_request_def user_by_id_def sample_users)
  obtain db1 where t: "transfer_super (sample_request ''did:plc:o'') ?O ''b'' sample_db = (Inr (), db1)"
      "db_users db1 = db_users (set_super 0 (\<lambda>i. i = ''o'') (set_super 1 (\<lambda>i. i = ''b'') sample_db))"
    by (rule transfer_super_succeeds [of "sample_request ''did:plc:o''" ?O "''b''" sample_db])
      (simp_all add: sample_request_def session_auth_def sample_user_def sample_users)
  have users: "db_users db1 = [sample_user ''o'' 0, sample_user ''a'' 0, sample_user ''b'' 1]"
    using t(2) by (simp add: set_super_def sample_users sample_user_def)
  obtain db2 where w: "delete_writes (sample_request ''did:plc:a'') ?A ''b'' db1 = (Inr (), db2)"
      "db_users db2 = [sample_user ''o'' 0, sample_user ''a'' 0]"
    by (simp add: delete_writes_def Let_def seq_act_def query_def execute_def sample_request_def log_event_def ignore_err_def
        revoke_keys_def delete_user_row_def users sample_user_def)
  have "super_ids db2 = {}" using w(2) by (auto simp: super_ids_def sample_user_def)
  thus ?thesis using guards t(1) w by auto
qed

text \<open>
  Property C13. Naming the owner: when the platform's call succeeds, the account of the trimmed DID is
  the only super user, after as many attempts as the busy database took; when it fails, nothing has
  changed. Only the platform principal gets that far.
\<close>
theorem platform_names_sole_owner:
  assumes "admin_db_ok db" "set_super_user env rq auth did db = (r, db')"
  shows "case r of
      Inr (uid, d) \<Rightarrow> auth_is_platform auth \<and> d = trim did \<and> starts_with d ''did:'' \<and>
        super_ids db' = {uid} \<and> account uid d db' \<and> admin_db_ok db'
    | Inl e \<Rightarrow> db' = db"
proof -
  let ?attempt = "transfer_super_user (rq_faults rq) (rq_fresh rq) (trim did) (rq_clock rq 2)"
  have one: "case ?attempt a db of (Inl e, db1) \<Rightarrow> db1 = db | (Inr uid, db1) \<Rightarrow> sole_super (trim did) uid db1" for a
    using triple_attempt_body assms(1)
    unfolding transfer_super_user_def Let_def triple_def transaction_def
    by (fastforce split: prod.splits sum.splits)
  have all: "case retry_on_busy retryable ?attempt a db of
      (Inl e, db1) \<Rightarrow> db1 = db | (Inr uid, db1) \<Rightarrow> sole_super (trim did) uid db1" for retryable a
    by (rule retry_result) (rule one)
  show ?thesis
  proof (cases "auth_is_platform auth \<and> starts_with (trim did) ''did:''")
    case False
    thus ?thesis using assms(2) by (auto simp: set_super_user_def Let_def fail_def split: if_splits)
  next
    case True
    obtain r1 db1 where run: "retry_on_busy (env_retryable env) ?attempt 1 db = (r1, db1)" by fastforce
    show ?thesis
    proof (cases r1)
      case (Inl e)
      thus ?thesis using assms(2) True run all [of "env_retryable env" 1]
        by (auto simp: set_super_user_def Let_def seq_act_def map_err_act_def)
    next
      case (Inr uid)
      hence "sole_super (trim did) uid db1" using run all [of "env_retryable env" 1] by simp
      hence "sole_super (trim did) uid (snd (log_event (rq_faults rq) 0 ev db1 :: (AppError + unit) \<times> admin_db))" for ev
        by (rule keeps_after [OF keeps_log_event [OF log_free_sole]])
      thus ?thesis using assms(2) True run Inr
        by (auto simp: set_super_user_def Let_def seq_act_def map_err_act_def ret_def sole_super_def log_event_def ignore_err_def)
    qed
  qed
qed

lemma each_grant_succeeds:
  assumes "\<forall>n. faults n = None" "uid \<in> u_id ` set (db_users db)"
  shows "\<exists>db'. each_act (\<lambda>n p. execute faults n err (insert_permission uid (as_str p) None now)) n ps db = (Inr (), db')"
  using assms(2)
proof (induction ps arbitrary: n db)
  case Nil
  thus ?case by (simp add: ret_def)
next
  case (Cons p ps)
  obtain db1 where "insert_permission uid (as_str p) None now db = Some db1" "db_users db1 = db_users db"
    using Cons.prems by (cases "list_ex (\<lambda>q. p_user_id q = uid \<and> p_permission q = as_str p) (db_permissions db)")
      (simp_all add: insert_permission_def)
  thus ?case using Cons.IH [of db1 "Suc n"] Cons.prems assms(1) by (simp add: seq_act_def execute_def)
qed

lemma sample_trim: "trim '' did:plc:a '' = ''did:plc:a''"
  by code_simp

theorem platform_names_sole_owner_witness:
  "\<exists>db'. set_super_user sample_env (sample_request ''did:plc:a'') platform_auth '' did:plc:a '' sample_db =
       (Inr (''a'', ''did:plc:a''), db') \<and>
     super_ids db' = {''a''} \<and> account ''a'' ''did:plc:a'' db'"
proof -
  let ?rq = "sample_request ''did:plc:a''"
  let ?db = "set_super 0 (\<lambda>i. i \<noteq> ''a'') (set_super 1 (\<lambda>i. i = ''a'') sample_db)"
  have "''a'' \<in> u_id ` set (db_users ?db)" by (simp add: sample_users sample_user_def)
  then obtain db1 where db1: "each_act (\<lambda>n p. execute (\<lambda>n. None) n (\<lambda>e. e) (insert_permission ''a'' (as_str p) None ''now'')) 5
      all_permissions ?db = (Inr (), db1)"
    using each_grant_succeeds [of "\<lambda>n. None" "''a''" ?db "\<lambda>e. e" "''now''" 5 all_permissions] by auto
  have "transfer_super_user (rq_faults ?rq) (rq_fresh ?rq) ''did:plc:a'' (rq_clock ?rq 2) 1 sample_db = (Inr ''a'', db1)"
    using db1
    by (simp add: transfer_super_user_def Let_def sample_request_def transaction_def seq_act_def query_def
        user_by_did_def sample_users sample_user_def execute_def [of _ 2] execute_def [of _ 3] ret_def)
  hence "retry_on_busy (env_retryable sample_env)
      (transfer_super_user (rq_faults ?rq) (rq_fresh ?rq) ''did:plc:a'' (rq_clock ?rq 2)) 1 sample_db = (Inr ''a'', db1)"
    by (simp add: retry_on_busy.simps)
  hence "\<exists>db'. set_super_user sample_env ?rq platform_auth '' did:plc:a '' sample_db = (Inr (''a'', ''did:plc:a''), db')"
    by (simp add: set_super_user_def Let_def platform_auth_def sample_trim starts_with_def seq_act_def map_err_act_def
        ret_def log_event_def ignore_err_def)
  thus ?thesis using platform_names_sole_owner [OF sample_db_ok] by fastforce
qed

lemma require_Inr: "require_permission faults n auth p db = (Inr x, db') \<Longrightarrow> db' = db"
  by (auto simp: require_permission_def ret_Inr seq_Inr fail_Inr split: if_splits)

lemma guard_Inr: "escalation_guard label auth perms db = (Inr x, db') \<Longrightarrow> db' = db"
  by (auto simp: escalation_guard_def ret_Inr fail_Inr split: option.splits)

lemma log_Inr: "log_event faults n ev db = (Inr x, db') \<Longrightarrow>
    db_users db' = db_users db \<and> db_permissions db' = db_permissions db \<and> db_keys db' = db_keys db"
  by (auto simp: log_event_def ignore_Inr execute_snd)

lemma create_api_key_Inr:
  assumes "create_api_key env rq auth body db = (Inr resp, db')"
  shows "db_users db' = db_users db" "db_permissions db' = db_permissions db"
    "db_keys db' = db_keys db @ [new_key env rq auth body]" "ckr_key resp = ''hv_'' @ rq_random_hex rq"
    "ckr_id resp = rq_fresh rq 1" "auth_user_id auth \<in> u_id ` set (db_users db)"
    "rq_fresh rq 1 \<notin> k_id ` set (db_keys db)"
proof -
  obtain db1 where ins: "insert_key (new_key env rq auth body) db = Some db1"
      and log: "db_users db' = db_users db1" "db_permissions db' = db_permissions db1" "db_keys db' = db_keys db1"
      and resp: "ckr_key resp = ''hv_'' @ rq_random_hex rq" "ckr_id resp = rq_fresh rq 1"
    using assms unfolding create_api_key_def Let_def
    by (elim seq_Inr_E) (auto simp: ret_Inr execute_Inr new_key_def dest!: require_Inr guard_Inr log_Inr)
  show "db_users db' = db_users db" "db_permissions db' = db_permissions db"
      "db_keys db' = db_keys db @ [new_key env rq auth body]" "auth_user_id auth \<in> u_id ` set (db_users db)"
      "rq_fresh rq 1 \<notin> k_id ` set (db_keys db)"
    using ins log by (auto simp: insert_key_def list_ex_iff new_key_def split: if_splits)
qed (use assms in \<open>auto simp: create_api_key_def Let_def seq_Inr ret_Inr\<close>)

lemma revoke_api_key_Inr:
  assumes "revoke_api_key rq auth kid db = (Inr x, db')"
  shows "db_users db' = db_users db" "db_keys db' = db_keys (revoke_keys (rq_clock rq 2) (own_live_key kid (auth_did auth) db) db)"
    "list_ex (own_live_key kid (auth_did auth) db) (db_keys db)"
proof -
  have "db_users db' = db_users (revoke_keys (rq_clock rq 2) (own_live_key kid (auth_did auth) db) db) \<and>
      db_keys db' = db_keys (revoke_keys (rq_clock rq 2) (own_live_key kid (auth_did auth) db) db) \<and>
      list_ex (own_live_key kid (auth_did auth) db) (db_keys db)"
    using assms unfolding revoke_api_key_def Let_def
    by (elim seq_Inr_E) (auto simp: query_Inr execute_Inr fail_Inr dest!: require_Inr log_Inr split: if_splits)
  thus "db_users db' = db_users db" "db_keys db' = db_keys (revoke_keys (rq_clock rq 2) (own_live_key kid (auth_did auth) db) db)"
      "list_ex (own_live_key kid (auth_did auth) db) (db_keys db)"
    by (simp_all add: revoke_keys_def)
qed

lemma api_token_key: "api_token (Some (''Bearer hv_'' @ r)) = Some (''hv_'' @ r)"
proof -
  have "strip_prefix (''Bearer '' @ (''hv_'' @ r)) ''Bearer '' = Some (''hv_'' @ r)" by (rule strip_prefix_append)
  thus ?thesis by (simp add: api_token_def starts_with_def)
qed

lemma first_row_unique:
  assumes "x \<in> set rows" "\<And>r. r \<in> set rows \<Longrightarrow> r = x"
  shows "first_row rows = Some x"
proof (cases rows)
  case Nil
  thus ?thesis using assms(1) by simp
next
  case (Cons r rs)
  hence "r = x" using assms(2) [of r] by simp
  thus ?thesis using Cons by (simp add: first_row_def)
qed

lemma authenticate_key:
  assumes "api_token (rq_authorization rq) = Some token" "env_platform_api_key_hash env \<noteq> Some (env_sha256_hex env token)"
    "rq_auth_faults rq = (\<lambda>_. None)"
  shows "first_row (key_matches (env_sha256_hex env token) db) = Some (k, u) \<Longrightarrow>
      fst (authenticate env rq db) = Inr (key_auth env db k u)"
    "key_matches (env_sha256_hex env token) db = [] \<Longrightarrow>
      authenticate env rq db = (Inl (EAuth ''invalid or revoked API key''), db)"
  using assms
  by (auto simp: authenticate_def try_api_key_auth_def seq_act_def query_def Let_def ret_def fail_def first_row_def
      load_api_key_permissions_def load_permissions_def key_auth_def key_grants_def ignore_err_def)

text \<open>
  Property C12. The life of an API key. The key returned when it is made authenticates as its owner,
  never as a super user, with those of its listed permissions that are recognised and that the owner
  holds, all of them where the owner is a super user; once the owner has revoked it, it authenticates
  nobody. Asked of the environment: JSON lists read back as written, and the new key's hash is in no
  row and is not the platform's.
\<close>
theorem api_key_lifecycle:
  assumes json: "\<forall>xs. env_from_json env (env_to_json env xs) = Some xs"
    and ok: "admin_db_ok db" and owner: "u \<in> set (db_users db)" "auth_user_id auth = u_id u" "auth_did auth = u_did u"
    and made: "create_api_key env rq auth body db = (Inr resp, db1)"
    and fresh: "env_sha256_hex env (ckr_key resp) \<notin> k_hash ` set (db_keys db)"
      "env_platform_api_key_hash env \<noteq> Some (env_sha256_hex env (ckr_key resp))"
    and use: "rq_authorization rq' = Some (''Bearer '' @ ckr_key resp)" "rq_auth_faults rq' = (\<lambda>_. None)"
    and revoked: "revoke_api_key rq2 auth (ckr_id resp) db1 = (Inr (), db2)"
  shows "fst (authenticate env rq' db1) = Inr \<lparr>auth_did = u_did u, auth_user_id = u_id u, auth_is_super = False,
        auth_is_platform = False, auth_permissions = parse_permissions (ckb_permissions body) \<inter>
          (if u_is_super u \<noteq> 0 then UNIV else parse_permissions (permissions_of (u_id u) db))\<rparr> \<and>
    authenticate env rq' db2 = (Inl (EAuth ''invalid or revoked API key''), db2)"
proof -
  note c = create_api_key_Inr [OF made] and v = revoke_api_key_Inr [OF revoked]
  let ?k = "new_key env rq auth body" and ?h = "env_sha256_hex env (ckr_key resp)"
  have token: "api_token (rq_authorization rq') = Some (ckr_key resp)"
    using use(1) c(4) api_token_key by simp
  have k: "k_hash ?k = ?h" "k_revoked_at ?k = None" "k_user_id ?k = u_id u" "k_id ?k = ckr_id resp"
    using c(4,5) owner(2) by (simp_all add: new_key_def)
  have hash: "k \<in> set (db_keys db1) \<Longrightarrow> k_hash k = ?h \<Longrightarrow> k = ?k" for k
    using c(3) fresh(1) by (auto simp: image_iff)
  have "first_row (key_matches ?h db1) = Some (?k, u)"
  proof (rule first_row_unique)
    show "(?k, u) \<in> set (key_matches ?h db1)" using k owner(1) c(1,3) by (simp add: key_matches_iff)
    fix r
    assume r: "r \<in> set (key_matches ?h db1)"
    obtain k' u' where kv: "r = (k', u')" by (cases r)
    hence m: "k' \<in> set (db_keys db1)" "u' \<in> set (db_users db)" "k_hash k' = ?h" "u_id u' = k_user_id k'"
      using r c(1) by (simp_all add: key_matches_iff)
    have "k' = ?k" using hash [OF m(1,3)] .
    thus "r = (?k, u)" using kv user_eqI [OF ok m(2) owner(1)] m(4) k(3) by simp
  qed
  hence "fst (authenticate env rq' db1) = Inr (key_auth env db1 ?k u)"
    using authenticate_key(1) [OF token fresh(2) use(2)] by blast
  moreover have "env_from_json env (k_permissions ?k) = Some (ckb_permissions body)" "permissions_of (u_id u) db1 = permissions_of (u_id u) db"
    using json c(2) by (simp_all add: new_key_def permissions_of_def)
  moreover have "key_matches ?h db2 = []"
  proof -
    have "user_by_did (auth_did auth) db1 = Some u"
      using find_by_distinct [of u_did "db_users db" u] ok owner c(1) by (simp add: user_by_did_def admin_db_ok_def)
    hence "own_live_key (ckr_id resp) (auth_did auth) db1 ?k" using k by (simp add: own_live_key_def)
    hence "k_revoked_at k \<noteq> None" if "k \<in> set (db_keys db2)" "k_hash k = ?h" for k
      using that hash k(2) unfolding v(2) revoke_keys_def by (auto simp del: if_image_distrib split: if_splits)
    thus ?thesis using key_matches_iff [of _ _ ?h db2] by (metis list.set_intros(1) neq_Nil_conv surj_pair)
  qed
  ultimately show ?thesis
    using authenticate_key(2) [OF token fresh(2) use(2)] by (simp add: key_auth_def key_grants_def unwrap_or_def)
qed

lemma create_api_key_succeeds:
  assumes "\<forall>n. rq_faults rq n = None" "auth_is_super auth" "auth_user_id auth \<in> u_id ` set (db_users db)"
    "rq_fresh rq 1 \<notin> k_id ` set (db_keys db)"
  obtains resp db1 where "create_api_key env rq auth body db = (Inr resp, db1)"
proof -
  have "\<not> list_ex (\<lambda>k'. k_id k' = rq_fresh rq 1) (db_keys db)" using assms(4) by (auto simp: list_ex_iff image_iff)
  thus ?thesis
    using assms(1-3) that
    by (simp add: create_api_key_def Let_def seq_act_def require_permission_def has_permission_def ret_def escalation_guard_def
        beyond_actor_def execute_def insert_key_def log_event_def ignore_err_def)
qed

lemma revoke_api_key_succeeds:
  assumes "\<forall>n. rq_faults rq n = None" "auth_is_super auth" "k \<in> set (db_keys db)" "own_live_key kid (auth_did auth) db k"
  obtains db1 where "revoke_api_key rq auth kid db = (Inr (), db1)"
proof -
  have "list_ex (own_live_key kid (auth_did auth) db) (db_keys db)" using assms(3,4) by (auto simp: list_ex_iff)
  thus ?thesis
    using assms(1,2) that
    by (simp add: revoke_api_key_def Let_def seq_act_def require_permission_def has_permission_def ret_def query_def
        execute_def log_event_def ignore_err_def)
qed

theorem api_key_lifecycle_witness:
  "\<exists>resp db1 db2.
     create_api_key sample_env (sample_request ''did:plc:o'') (session_auth sample_db (sample_user ''o'' 1))
       \<lparr>ckb_name = ''ci'', ckb_permissions = [as_str StatsRead]\<rparr> sample_db = (Inr resp, db1) \<and>
     fst (authenticate sample_env
       ((sample_request ''did:plc:o'')\<lparr>rq_authorization := Some (''Bearer '' @ ckr_key resp)\<rparr>) db1) =
       Inr \<lparr>auth_did = ''did:plc:o'', auth_user_id = ''o'', auth_is_super = False, auth_is_platform = False,
         auth_permissions = {StatsRead}\<rparr> \<and>
     fst (authenticate sample_env
       ((sample_request ''did:plc:o'')\<lparr>rq_authorization := Some (''Bearer '' @ ckr_key resp)\<rparr>) db2) =
       Inl (EAuth ''invalid or revoked API key'')"
proof -
  let ?rq = "sample_request ''did:plc:o''" and ?u = "sample_user ''o'' 1"
  let ?auth = "session_auth sample_db ?u" and ?body = "\<lparr>ckb_name = ''ci'', ckb_permissions = [as_str StatsRead]\<rparr>"
  let ?k = "new_key sample_env ?rq ?auth ?body"
  have keys: "db_keys sample_db = []" by (simp add: sample_db_def)
  have super: "auth_is_super ?auth" "auth_user_id ?auth = ''o''" "auth_did ?auth = ''did:plc:o''"
    by (simp_all add: session_auth_def sample_user_def)
  have owner: "?u \<in> set (db_users sample_db)" "u_id ?u = ''o''" "u_did ?u = ''did:plc:o''" by (simp_all add: sample_users sample_user_def)
  obtain resp db1 where made: "create_api_key sample_env ?rq ?auth ?body sample_db = (Inr resp, db1)"
    by (rule create_api_key_succeeds [of ?rq ?auth sample_db sample_env ?body])
      (use owner in \<open>simp_all add: super keys sample_request_def image_iff Bex_def exI [of _ ?u]\<close>)
  note c = create_api_key_Inr [OF made]
  have "user_by_did ''did:plc:o'' db1 = Some ?u" using c(1) by (simp add: user_by_did_def sample_users sample_user_def)
  hence live: "own_live_key (ckr_id resp) ''did:plc:o'' db1 ?k"
    using c(5) by (simp add: own_live_key_def new_key_def super owner(2))
  obtain db2 where revoked: "revoke_api_key ?rq ?auth (ckr_id resp) db1 = (Inr (), db2)"
    by (rule revoke_api_key_succeeds [of ?rq ?auth ?k db1 "ckr_id resp"])
      (use live c(3) in \<open>simp_all add: super sample_request_def\<close>)
  let ?rq' = "?rq\<lparr>rq_authorization := Some (''Bearer '' @ ckr_key resp)\<rparr>"
  have perms: "parse_permissions [as_str StatsRead] = {StatsRead}"
    by (auto simp: mem_parse as_str_inj simp del: as_str.simps)
  have json: "\<forall>xs. env_from_json sample_env (env_to_json sample_env xs) = Some xs"
    by (simp add: sample_env_def decode_encode)
  have fresh: "env_sha256_hex sample_env (ckr_key resp) \<notin> k_hash ` set (db_keys sample_db)"
      "env_platform_api_key_hash sample_env \<noteq> Some (env_sha256_hex sample_env (ckr_key resp))"
    using c(4) by (simp_all add: keys sample_env_def)
  have use: "rq_authorization ?rq' = Some (''Bearer '' @ ckr_key resp)" "rq_auth_faults ?rq' = (\<lambda>_. None)"
    by (simp_all add: sample_request_def)
  have "u_is_super ?u = 1" by (simp add: sample_user_def)
  thus ?thesis
    using api_key_lifecycle [OF json sample_db_ok owner(1) _ _ made fresh use revoked] made owner super perms
    by (intro exI [of _ resp] exI [of _ db1] exI [of _ db2]) (simp del: as_str.simps)
qed

lemma require_admin_grant_Ok:
  assumes "require_admin_grant env claims = Inr ()"
  shows "cl_service_auth_lxm claims = None"
    "cl_client_key claims = Some ck \<Longrightarrow> cl_dpop_key_id claims = Some dk \<Longrightarrow>
      \<exists>granted. env_granted_scope env ck (cl_did claims) dk = Inr granted \<and> grants_admin (env_decode env) granted"
  using assms by (auto simp: require_admin_grant_def split: if_splits sum.splits)

lemma grants_admin_iff:
  "grants_admin decode granted \<longleftrightarrow>
     (\<exists>s\<in>set (parse_scope_list granted). \<exists>p. rpc_parse decode s = Some p \<and> rpc_aud p = ''*'' \<and> ADMIN_LXM \<in> set (rpc_lxm p))"
  by (auto simp: grants_admin_def list_ex_iff List.map_filter_def) blast+

text \<open>
  Property C14. Signing in with a session. It never comes from a service-auth token; an app's session
  (one with a client key and a DPoP key) was granted a scope with an \<open>rpc\<close> permission on
  \<open>dev.happyview.admin.manage\<close> for any audience; and authentication changes who is a super user only
  where the instance has no user at all and its configuration names none, for the account signing in.
\<close>
theorem session_needs_the_grant:
  assumes "authenticate env rq db = (Inr auth, db')" "api_token (rq_authorization rq) = None"
  shows "\<exists>claims. rq_claims rq = Inr claims \<and> auth_did auth = cl_did claims \<and> cl_service_auth_lxm claims = None \<and>
    (\<forall>ck dk. cl_client_key claims = Some ck \<longrightarrow> cl_dpop_key_id claims = Some dk \<longrightarrow>
      (\<exists>granted s p. env_granted_scope env ck (cl_did claims) dk = Inr granted \<and> s \<in> set (parse_scope_list granted) \<and>
        rpc_parse (env_decode env) s = Some p \<and> rpc_aud p = ''*'' \<and> ''dev.happyview.admin.manage'' \<in> set (rpc_lxm p))) \<and>
    (super_ids db' = super_ids db \<or> db_users db = [] \<and> env_superadmin_did env = None \<and> auth_is_super auth)"
  using assms(1)
proof (cases rule: authenticate_cases)
  case platform
  thus ?thesis using assms(2) by simp
next
  case key
  thus ?thesis using assms(2) by simp
next
  case (session claims u)
  let ?db = "bootstrapped env rq (cl_did claims) db"
  have "auth_did auth = cl_did claims" using session(5) user_by_did_Some [OF session(4)] by (simp add: session_auth_def)
  moreover have "super_ids db' = super_ids db \<or> db_users db = [] \<and> env_superadmin_did env = None \<and> auth_is_super auth"
  proof (cases "db_users db = [] \<and> env_superadmin_did env = None")
    case True
    have "all_super db" using True by (simp add: all_super_def)
    hence "all_super ?db" using keeps_after [OF keeps_all_super_bootstrap, of db] True by (simp add: bootstrapped_def)
    hence "u_is_super u = 1" using user_by_did_Some [OF session(4)] by (simp add: all_super_def)
    thus ?thesis using True session(5) by (simp add: session_auth_def)
  next
    case False
    hence "?db = db" by (auto simp: bootstrapped_def)
    thus ?thesis using touched_same(2) [OF session(6)] by simp
  qed
  ultimately show ?thesis
    using session(2) require_admin_grant_Ok [OF session(3)] unfolding grants_admin_iff ADMIN_LXM_def by blast
qed

theorem session_needs_the_grant_witness:
  "authenticate sample_env (sample_request ''did:plc:a'') sample_db =
     (Inr \<lparr>auth_did = ''did:plc:a'', auth_user_id = ''a'', auth_is_super = False, auth_is_platform = False,
       auth_permissions = {UsersCreate, UsersUpdate, ApiKeysCreate, UsersDelete}\<rparr>, touch_user ''now'' ''a'' sample_db) \<and>
   super_ids (touch_user ''now'' ''a'' sample_db) = super_ids sample_db"
  using session_needs_the_grant [OF sample_authenticate] sample_authenticate
  by (simp add: api_token_def sample_request_def)

end
