(* ===== verification/Set_Hash.thy ===== *)
theory Set_Hash
  imports Prelude "HOL-Library.Word" "HOL-Library.Multiset"
begin

text \<open>
  The homomorphic hash of a repo's records (src/spaces/lthash.rs): 1024 lanes of 16 bits, to which
  the expansion of each record's element is added and from which it is subtracted, lane by lane and
  wrapping. BLAKE3's output stream is an argument \<open>xof\<close>, the first bytes of the stream of an element.
  Shown: the state is a function of the multiset of elements that were added and not removed, and its
  bytes read back as the state.
\<close>

unbundle bit_operations_syntax

type_synonym bytes = "8 word list"

section \<open>State\<close>

definition NUM_LANES :: nat where
  "NUM_LANES = 1024"

definition STATE_BYTES :: nat where
  "STATE_BYTES = NUM_LANES * 2"

record LtHashState =
  lanes :: "16 word list"

definition lthash_new :: LtHashState where
  "lthash_new = \<lparr>lanes = replicate NUM_LANES 0\<rparr>"

definition u16_to_le_bytes :: "16 word \<Rightarrow> bytes" where
  "u16_to_le_bytes w = [ucast w, ucast (drop_bit 8 w)]"

definition u16_from_le_bytes :: "8 word \<Rightarrow> 8 word \<Rightarrow> 16 word" where
  "u16_from_le_bytes lo hi = ucast lo OR push_bit 8 (ucast hi)"

definition lanes_of_bytes :: "bytes \<Rightarrow> 16 word list" where
  "lanes_of_bytes bs = map (\<lambda>i. u16_from_le_bytes (bs ! (i * 2)) (bs ! (i * 2 + 1))) [0..<NUM_LANES]"

definition expand_element :: "(string \<Rightarrow> nat \<Rightarrow> bytes) \<Rightarrow> string \<Rightarrow> 16 word list" where
  "expand_element xof element = lanes_of_bytes (xof element STATE_BYTES)"

definition lthash_add :: "(string \<Rightarrow> nat \<Rightarrow> bytes) \<Rightarrow> LtHashState \<Rightarrow> string \<Rightarrow> LtHashState" where
  "lthash_add xof s element = \<lparr>lanes = map2 (+) (lanes s) (expand_element xof element)\<rparr>"

definition lthash_remove :: "(string \<Rightarrow> nat \<Rightarrow> bytes) \<Rightarrow> LtHashState \<Rightarrow> string \<Rightarrow> LtHashState" where
  "lthash_remove xof s element = \<lparr>lanes = map2 (-) (lanes s) (expand_element xof element)\<rparr>"

definition lthash_as_bytes :: "LtHashState \<Rightarrow> bytes" where
  "lthash_as_bytes s = concat (map u16_to_le_bytes (lanes s))"

definition lthash_from_bytes :: "bytes \<Rightarrow> LtHashState" where
  "lthash_from_bytes bs = \<lparr>lanes = lanes_of_bytes bs\<rparr>"

definition lthash_hash :: "(bytes \<Rightarrow> bytes) \<Rightarrow> LtHashState \<Rightarrow> bytes" where
  "lthash_hash sha256 s = sha256 (lthash_as_bytes s)"

definition record_element :: "string \<Rightarrow> string \<Rightarrow> string \<Rightarrow> string" where
  "record_element collection rkey cid = collection @ ''/'' @ rkey @ ''/'' @ cid"

section \<open>The state as a sum\<close>

text \<open>The state of a multiset of elements, and that adding and removing follow the multiset.\<close>

definition set_hash :: "(string \<Rightarrow> nat \<Rightarrow> bytes) \<Rightarrow> string multiset \<Rightarrow> LtHashState" where
  "set_hash xof M = \<lparr>lanes = map (\<lambda>i. \<Sum>e\<in>#M. expand_element xof e ! i) [0..<NUM_LANES]\<rparr>"

lemma length_expand [simp]: "length (expand_element xof e) = NUM_LANES"
  by (simp add: expand_element_def lanes_of_bytes_def)

lemma set_hash_empty: "set_hash xof {#} = lthash_new"
  by (simp add: set_hash_def lthash_new_def map_replicate_const)

lemma set_hash_add: "lthash_add xof (set_hash xof M) e = set_hash xof (add_mset e M)"
  by (simp add: lthash_add_def set_hash_def list_eq_iff_nth_eq add.commute)

lemma set_hash_remove:
  assumes "e \<in># M"
  shows "lthash_remove xof (set_hash xof M) e = set_hash xof (M - {#e#})"
proof -
  obtain N where N: "M = add_mset e N" using assms by (metis insert_DiffM)
  show ?thesis by (simp add: N lthash_remove_def set_hash_def list_eq_iff_nth_eq)
qed

lemma fold_add: "foldl (lthash_add xof) (set_hash xof M) es = set_hash xof (M + mset es)"
  by (induction es arbitrary: M) (simp_all add: set_hash_add)

lemma fold_new: "foldl (lthash_add xof) lthash_new es = set_hash xof (mset es)"
  using fold_add [of xof "{#}" es] by (simp add: set_hash_empty)

section \<open>Bytes\<close>

lemma u16_bytes: "u16_from_le_bytes (ucast w) (ucast (drop_bit 8 w)) = w"
  by (rule bit_word_eqI) (auto simp: u16_from_le_bytes_def bit_or_iff bit_push_bit_iff bit_ucast_iff bit_drop_bit_eq)

lemma bytes_u16: "u16_to_le_bytes (u16_from_le_bytes lo hi) = [lo, hi]"
proof -
  have "\<not> bit lo (8 + n)" for n using bit_imp_le_length [of lo "8 + n"] by auto
  hence "ucast (u16_from_le_bytes lo hi) = lo" "ucast (drop_bit 8 (u16_from_le_bytes lo hi)) = hi"
    by (auto simp: u16_from_le_bytes_def bit_or_iff bit_push_bit_iff bit_ucast_iff bit_drop_bit_eq intro!: bit_word_eqI)
  thus ?thesis by (simp add: u16_to_le_bytes_def)
qed

lemma length_lanes_of_bytes [simp]: "length (lanes_of_bytes bs) = NUM_LANES"
  by (simp add: lanes_of_bytes_def)

lemma length_pairs: "length (concat (map u16_to_le_bytes ws)) = length ws * 2"
  by (induction ws) (simp_all add: u16_to_le_bytes_def)

lemma nth_pairs:
  "i < length ws \<Longrightarrow> concat (map u16_to_le_bytes ws) ! (i * 2) = ucast (ws ! i) \<and>
     concat (map u16_to_le_bytes ws) ! (i * 2 + 1) = ucast (drop_bit 8 (ws ! i))"
proof (induction ws arbitrary: i)
  case Nil
  thus ?case by simp
next
  case (Cons w ws)
  thus ?case by (cases i) (simp_all add: u16_to_le_bytes_def)
qed

lemma from_as_bytes:
  assumes "length (lanes s) = NUM_LANES"
  shows "lthash_from_bytes (lthash_as_bytes s) = s"
proof -
  have "lanes_of_bytes (lthash_as_bytes s) = lanes s"
    using assms nth_pairs [of _ "lanes s"]
    by (auto simp: lanes_of_bytes_def lthash_as_bytes_def list_eq_iff_nth_eq u16_bytes)
  thus ?thesis by (simp add: lthash_from_bytes_def)
qed

lemma as_from_bytes:
  assumes "length bs = STATE_BYTES"
  shows "lthash_as_bytes (lthash_from_bytes bs) = bs"
proof (rule nth_equalityI)
  show "length (lthash_as_bytes (lthash_from_bytes bs)) = length bs"
    using assms by (simp add: lthash_as_bytes_def lthash_from_bytes_def length_pairs STATE_BYTES_def)
  fix j
  assume "j < length (lthash_as_bytes (lthash_from_bytes bs))"
  hence j: "j div 2 < NUM_LANES" "j < length bs"
    using assms by (auto simp: lthash_as_bytes_def lthash_from_bytes_def length_pairs STATE_BYTES_def)
  let ?ws = "lanes_of_bytes bs" and ?i = "j div 2"
  have w: "?ws ! ?i = u16_from_le_bytes (bs ! (?i * 2)) (bs ! (?i * 2 + 1))" "?i < length ?ws"
    using j(1) by (simp_all add: lanes_of_bytes_def)
  have "ucast (?ws ! ?i) = bs ! (?i * 2)" "ucast (drop_bit 8 (?ws ! ?i)) = bs ! (?i * 2 + 1)"
    using bytes_u16 [of "bs ! (?i * 2)" "bs ! (?i * 2 + 1)"] unfolding w(1) by (simp_all add: u16_to_le_bytes_def)
  moreover have "j = ?i * 2 \<or> j = ?i * 2 + 1" by linarith
  ultimately show "lthash_as_bytes (lthash_from_bytes bs) ! j = bs ! j"
    using nth_pairs [OF w(2)] by (auto simp: lthash_as_bytes_def lthash_from_bytes_def)
qed

lemma length_set_hash [simp]: "length (lanes (set_hash xof M)) = NUM_LANES"
  by (simp add: set_hash_def)

lemma set_hash_bytes: "lthash_from_bytes (lthash_as_bytes (set_hash xof M)) = set_hash xof M"
  by (simp add: from_as_bytes)

lemma length_as_bytes: "length (lanes s) = NUM_LANES \<Longrightarrow> length (lthash_as_bytes s) = STATE_BYTES"
  by (simp add: lthash_as_bytes_def length_pairs STATE_BYTES_def)

section \<open>Properties\<close>

text \<open>An edit of a set hash: an element added or removed.\<close>

datatype hash_edit = AddElement string | RemoveElement string

definition element_of :: "hash_edit \<Rightarrow> string" where
  "element_of e = (case e of AddElement x \<Rightarrow> x | RemoveElement x \<Rightarrow> x)"

definition elements :: "hash_edit list \<Rightarrow> string set" where
  "elements es = element_of ` set es"

definition apply_edit :: "(string \<Rightarrow> nat \<Rightarrow> bytes) \<Rightarrow> LtHashState \<Rightarrow> hash_edit \<Rightarrow> LtHashState" where
  "apply_edit xof s e = (case e of AddElement x \<Rightarrow> lthash_add xof s x | RemoveElement x \<Rightarrow> lthash_remove xof s x)"

text \<open>How often an element is added more often than removed.\<close>

definition balance :: "hash_edit list \<Rightarrow> string \<Rightarrow> int" where
  "balance es x = int (count_list es (AddElement x)) - int (count_list es (RemoveElement x))"


lemma apply_edit_lane:
  assumes "i < NUM_LANES" "length (lanes s) = NUM_LANES"
  shows "lanes (foldl (apply_edit xof) s es) ! i =
      lanes s ! i + (\<Sum>x\<in>elements es. of_int (balance es x) * expand_element xof x ! i)"
    "length (lanes (foldl (apply_edit xof) s es)) = NUM_LANES"
proof -
  have "lanes (foldl (apply_edit xof) s es) ! i =
      lanes s ! i + (\<Sum>x\<in>X. of_int (balance es x) * expand_element xof x ! i) \<and>
      length (lanes (foldl (apply_edit xof) s es)) = NUM_LANES" if "finite X" "elements es \<subseteq> X" for X
    using that(2)
  proof (induction es rule: rev_induct)
    case Nil
    thus ?case using assms(2) by (simp add: balance_def)
  next
    case (snoc e es)
    let ?x = "element_of e" and ?d = "(case e of AddElement _ \<Rightarrow> 1 | RemoveElement _ \<Rightarrow> - 1) :: int"
    have x: "?x \<in> X" "elements es \<subseteq> X" using snoc.prems by (auto simp: elements_def)
    have bal: "balance (es @ [e]) y = balance es y + (if y = ?x then ?d else 0)" for y
      by (cases e) (auto simp: balance_def element_of_def)
    have "(\<Sum>y\<in>X. of_int (balance (es @ [e]) y) * expand_element xof y ! i) =
        (\<Sum>y\<in>X. of_int (balance es y) * expand_element xof y ! i) + of_int ?d * expand_element xof ?x ! i"
      using x(1) that(1)
      by (simp add: bal distrib_right sum.distrib if_distrib [of of_int] if_distrib [of "\<lambda>c. c * _"] cong: if_cong)
    moreover have "lanes (apply_edit xof s' e) ! i = lanes s' ! i + of_int ?d * expand_element xof ?x ! i \<and>
        length (lanes (apply_edit xof s' e)) = NUM_LANES" if "length (lanes s') = NUM_LANES" for s'
      using that assms(1) by (cases e) (simp_all add: apply_edit_def lthash_add_def lthash_remove_def element_of_def)
    ultimately show ?case using snoc.IH [OF x(2)] by simp
  qed
  from this [OF _ subset_refl] show "lanes (foldl (apply_edit xof) s es) ! i =
      lanes s ! i + (\<Sum>x\<in>elements es. of_int (balance es x) * expand_element xof x ! i)"
    "length (lanes (foldl (apply_edit xof) s es)) = NUM_LANES"
    by (simp_all add: elements_def)
qed

text \<open>
  Property C32. The set hash is a function of the multiset of elements, in 16-bit arithmetic: two
  histories of additions and removals that leave every element the same number of times, up to a
  multiple of 65536, end in the same state, in whatever order they happen; and a state of 2048 bytes
  reads back as itself.
\<close>
theorem set_hash_determined:
  assumes "\<And>x. balance es x mod 65536 = balance es' x mod 65536" "length bs = 2048"
  shows "foldl (apply_edit xof) (lthash_from_bytes bs) es = foldl (apply_edit xof) (lthash_from_bytes bs) es' \<and>
    lthash_as_bytes (lthash_from_bytes bs) = bs"
proof
  let ?s = "lthash_from_bytes bs"
  have len: "length (lanes ?s) = NUM_LANES" by (simp add: lthash_from_bytes_def)
  have coeff: "of_int (balance es x) = (of_int (balance es' x) :: 16 word)" for x
    using assms(1) [of x] by (simp add: word_of_int_eq_iff take_bit_eq_mod)
  have none: "x \<notin> elements hs \<Longrightarrow> balance hs x = 0" for x hs
  proof -
    assume "x \<notin> elements hs"
    hence "AddElement x \<notin> set hs" "RemoveElement x \<notin> set hs" by (force simp: elements_def element_of_def)+
    thus "balance hs x = 0" by (simp add: balance_def count_list_0_iff)
  qed
  have wide: "(\<Sum>x\<in>elements hs. of_int (balance hs x) * expand_element xof x ! i) =
      (\<Sum>x\<in>elements es \<union> elements es'. of_int (balance hs x) * expand_element xof x ! i)"
    if "hs = es \<or> hs = es'" for hs i
    using that none [of _ hs] by (intro sum.mono_neutral_left) (auto simp: elements_def)
  have "lanes (foldl (apply_edit xof) ?s es) ! i = lanes (foldl (apply_edit xof) ?s es') ! i" if "i < NUM_LANES" for i
    using apply_edit_lane(1) [OF that len] wide [of es i] wide [of es' i] coeff by simp
  moreover have "length (lanes (foldl (apply_edit xof) ?s hs)) = NUM_LANES" for hs
    using apply_edit_lane(2) [of 0 ?s] len by (simp add: NUM_LANES_def)
  ultimately show "foldl (apply_edit xof) ?s es = foldl (apply_edit xof) ?s es'"
    by (simp add: list_eq_iff_nth_eq)
  show "lthash_as_bytes ?s = bs" using assms(2) by (intro as_from_bytes) (simp add: STATE_BYTES_def NUM_LANES_def)
qed

theorem set_hash_determined_witness:
  "foldl (apply_edit (\<lambda>e n. replicate n 7)) (lthash_from_bytes (replicate 2048 0))
     [AddElement ''a'', AddElement ''b'', RemoveElement ''a''] =
   foldl (apply_edit (\<lambda>e n. replicate n 7)) (lthash_from_bytes (replicate 2048 0)) [AddElement ''b'']"
  using set_hash_determined [of "[AddElement ''a'', AddElement ''b'', RemoveElement ''a'']" "[AddElement ''b'']"
      "replicate 2048 0" "\<lambda>e n. replicate n 7"]
  by (simp add: balance_def)

end
