(* ===== verification/Tid.thy ===== *)
theory Tid
  imports Prelude "HOL-Library.Word"
begin

text \<open>
  Timestamp identifiers (crates/happyview-plugin-sdk/src/tid.rs): a 64-bit value of microseconds and
  a 10-bit clock id in 13 characters of an alphabet in byte order. Words are kept at their width, so
  shifts drop bits as they do in the code. Strings compare as \<open>str\<close> does, byte by byte.
\<close>

unbundle bit_operations_syntax

section \<open>Codec\<close>

definition BASE32_SORT :: string where
  "BASE32_SORT = ''234567abcdefghijklmnopqrstuvwxyz''"

text \<open>The slots are filled from the last to the first; \<open>n\<close> are left.\<close>

fun encode_slots :: "nat \<Rightarrow> 64 word \<Rightarrow> string \<Rightarrow> string" where
  "encode_slots 0 val buf = buf"
| "encode_slots (Suc n) val buf = encode_slots n (drop_bit 5 val) (BASE32_SORT ! unat (val AND 0x1F) # buf)"

definition encode_base32_sort :: "64 word \<Rightarrow> string" where
  "encode_base32_sort val = encode_slots 13 val []"

fun char_position :: "char \<Rightarrow> string \<Rightarrow> nat option" where
  "char_position c [] = None"
| "char_position c (b # bs) = (if b = c then Some 0 else map_option Suc (char_position c bs))"

fun decode_bytes :: "64 word \<Rightarrow> string \<Rightarrow> 64 word option" where
  "decode_bytes val [] = Some val"
| "decode_bytes val (b # bs) =
     (case char_position b BASE32_SORT of
        Some idx \<Rightarrow> decode_bytes (push_bit 5 val OR of_nat idx) bs
      | None \<Rightarrow> None)"

definition decode_base32_sort :: "string \<Rightarrow> 64 word option" where
  "decode_base32_sort tid = (if length tid \<noteq> 13 then None else decode_bytes 0 tid)"

definition tid_from_parts :: "64 word \<Rightarrow> 16 word \<Rightarrow> string" where
  "tid_from_parts unix_micros clock_id = encode_base32_sort (push_bit 10 unix_micros OR ucast (clock_id AND 0x3FF))"

text \<open>An \<open>i64\<close> is its 64 bits: \<open>as u64\<close> keeps them.\<close>

definition tid_from_unix_microseconds :: "64 word \<Rightarrow> string" where
  "tid_from_unix_microseconds us = encode_base32_sort (push_bit 10 us)"

definition tid_to_unix_microseconds :: "string \<Rightarrow> 64 word option" where
  "tid_to_unix_microseconds tid = map_option (\<lambda>val. drop_bit 10 val) (decode_base32_sort tid)"

definition tid_to_number :: "string \<Rightarrow> 64 word option" where
  "tid_to_number tid = decode_base32_sort tid"

definition tid_from_number :: "64 word \<Rightarrow> string" where
  "tid_from_number val = encode_base32_sort val"

section \<open>Digits\<close>

text \<open>The \<open>n\<close> digits to the base 32 of a number, the highest first, and the number of a list of digits.\<close>

fun digits :: "nat \<Rightarrow> nat \<Rightarrow> nat list" where
  "digits 0 v = []"
| "digits (Suc n) v = (v div 32 ^ n) mod 32 # digits n v"

definition number :: "nat list \<Rightarrow> nat" where
  "number ds = foldl (\<lambda>a d. a * 32 + d) 0 ds"

lemma digits_snoc: "digits (Suc n) v = digits n (v div 32) @ [v mod 32]"
proof (induction n arbitrary: v)
  case 0
  show ?case by simp
next
  case (Suc n)
  have "digits (Suc (Suc n)) v = (v div 32 ^ Suc n) mod 32 # digits n (v div 32) @ [v mod 32]"
    using Suc by (simp del: power_Suc)
  thus ?case by (simp add: div_mult2_eq)
qed

lemma length_digits [simp]: "length (digits n v) = n"
  by (induction n) simp_all

lemma digits_less: "d \<in> set (digits n v) \<Longrightarrow> d < 32"
  by (induction n) auto

lemma number_snoc: "number (ds @ [d]) = number ds * 32 + d"
  by (simp add: number_def)

lemma number_digits: "number (digits n v) = v mod 32 ^ n"
proof (induction n arbitrary: v)
  case 0
  show ?case by (simp add: number_def)
next
  case (Suc n)
  have "number (digits (Suc n) v) = (v div 32) mod 32 ^ n * 32 + v mod 32"
    unfolding digits_snoc number_snoc Suc ..
  also have "\<dots> = v mod 32 ^ Suc n" by (simp add: mod_mult2_eq)
  finally show ?case .
qed

lemma digits_number:
  assumes "\<forall>d\<in>set ds. d < 32"
  shows "digits (length ds) (number ds) = ds"
  using assms
proof (induction ds rule: rev_induct)
  case Nil
  show ?case by simp
next
  case (snoc d ds)
  thus ?case by (simp add: digits_snoc number_snoc del: digits.simps(2))
qed

lemma number_less: "\<forall>d\<in>set ds. d < 32 \<Longrightarrow> number ds < 32 ^ length ds"
  by (metis digits_number mod_less_divisor number_digits zero_less_numeral zero_less_power)

lemma digits_mod: "digits n (v mod 32 ^ n) = digits n v"
  by (metis digits_less digits_number length_digits number_digits)

section \<open>Words\<close>

lemma unat_low_bits: "unat (val AND 0x1F :: 64 word) = unat val mod 32"
proof -
  have "val AND 0x1F = take_bit 5 val" by (simp add: take_bit_eq_mask mask_eq_exp_minus_1)
  hence "unat (val AND 0x1F) = take_bit 5 (unat val)" by (simp only: unsigned_take_bit_eq)
  thus ?thesis by (simp add: take_bit_eq_mod)
qed

lemma unat_drop_bit: "unat (drop_bit n (val :: 64 word)) = unat val div 2 ^ n"
proof -
  have "take_bit LENGTH(64) (unat val) = unat val" by (rule take_bit_nat_eq_self) (rule unsigned_less)
  hence "unat (drop_bit n val) = drop_bit n (unat val)" by (simp only: unsigned_drop_bit_eq)
  thus ?thesis by (simp only: drop_bit_eq_div)
qed

lemma encode_slots_digits: "encode_slots n val buf = map ((!) BASE32_SORT) (digits n (unat val)) @ buf"
  by (induction n arbitrary: val buf) (simp_all add: unat_low_bits unat_drop_bit digits_snoc del: digits.simps(2))

lemma encode_digits: "encode_base32_sort val = map ((!) BASE32_SORT) (digits 13 (unat val))"
  by (simp add: encode_base32_sort_def encode_slots_digits)

lemma char_position_Some: "char_position c bs = Some i \<Longrightarrow> i < length bs \<and> bs ! i = c"
  by (induction bs arbitrary: i) (auto split: if_splits)

lemma char_position_nth: "distinct bs \<Longrightarrow> i < length bs \<Longrightarrow> char_position (bs ! i) bs = Some i"
  by (induction bs arbitrary: i) (auto simp: nth_Cons split: nat.splits)

lemma char_position_None: "char_position c bs = None \<longleftrightarrow> c \<notin> set bs"
  by (induction bs) auto

lemma alphabet: "length BASE32_SORT = 32" "distinct BASE32_SORT" "sorted BASE32_SORT"
  by code_simp+

lemma position_alphabet: "d < 32 \<Longrightarrow> char_position (BASE32_SORT ! d) BASE32_SORT = Some d"
  by (simp add: char_position_nth alphabet)

text \<open>A shifted word and a digit have no bit in common, so \<open>OR\<close> adds.\<close>

lemma push_or_digit:
  assumes "d < 2 ^ n" "n < 64"
  shows "unat (push_bit n (val :: 64 word) OR of_nat d) = (unat val * 2 ^ n + d) mod 2 ^ 64"
proof -
  have "push_bit n val AND of_nat d = (0 :: 64 word)"
  proof (rule bit_eqI)
    fix k
    assume "possible_bit TYPE(64 word) k"
    have "k \<ge> n \<Longrightarrow> \<not> bit d k"
      using assms(1) by (metis bit_take_bit_iff leD take_bit_nat_eq_self)
    thus "bit (push_bit n val AND of_nat d) k = bit (0 :: 64 word) k"
      by (auto simp: bit_and_iff bit_push_bit_iff bit_of_nat_iff)
  qed
  hence "push_bit n val OR of_nat d = push_bit n val + of_nat d"
    by (rule disjunctive_add_eq_or [symmetric])
  also have "\<dots> = of_nat (unat val * 2 ^ n + d)" by (simp add: push_bit_eq_mult)
  finally have "unat (push_bit n val OR of_nat d) = take_bit LENGTH(64) (unat val * 2 ^ n + d)"
    by (simp only: unsigned_of_nat of_nat_id)
  thus ?thesis by (simp only: take_bit_eq_mod) simp
qed

lemma decode_bytes_digits:
  assumes "\<forall>d\<in>set ds. d < 32"
  shows "\<exists>w. decode_bytes val (map ((!) BASE32_SORT) ds) = Some w \<and>
    unat w = foldl (\<lambda>a d. a * 32 + d) (unat val) ds mod 2 ^ 64"
  using assms
proof (induction ds arbitrary: val)
  case Nil
  have "unat val < 2 ^ 64" using unsigned_less [of val] by simp
  thus ?case by simp
next
  case (Cons d ds)
  let ?v = "push_bit 5 val OR of_nat d :: 64 word"
  have v: "unat ?v = (unat val * 32 + d) mod 2 ^ 64" using push_or_digit [of d 5 val] Cons.prems by simp
  have fold_mod: "foldl (\<lambda>a d. a * 32 + d) (x mod 2 ^ 64) ds mod 2 ^ 64 = foldl (\<lambda>a d. a * 32 + d) x ds mod (2 ^ 64 :: nat)" for x
  proof (induction ds rule: rev_induct)
    case (snoc e es)
    have "(foldl (\<lambda>a d. a * 32 + d) (x mod 2 ^ 64) es * 32 + e) mod 2 ^ 64 =
        (foldl (\<lambda>a d. a * 32 + d) x es * 32 + e) mod (2 ^ 64 :: nat)"
      by (metis (no_types, lifting) mod_add_left_eq mod_mult_left_eq snoc)
    thus ?case by simp
  qed simp
  obtain w where "decode_bytes ?v (map ((!) BASE32_SORT) ds) = Some w"
      "unat w = foldl (\<lambda>a d. a * 32 + d) (unat ?v) ds mod 2 ^ 64"
    using Cons.IH [of ?v] Cons.prems by auto
  thus ?case using Cons.prems fold_mod [of "unat val * 32 + d"] by (simp add: position_alphabet v)
qed

lemma decode_digits:
  assumes "\<forall>d\<in>set ds. d < 32" "length ds = 13"
  obtains w where "decode_base32_sort (map ((!) BASE32_SORT) ds) = Some w" "unat w = number ds mod 2 ^ 64"
  using decode_bytes_digits [OF assms(1), of 0] assms(2) that by (auto simp: decode_base32_sort_def number_def)

lemma decode_encode_tid: "decode_base32_sort (encode_base32_sort val) = Some val"
proof -
  have bound: "unat val < 2 ^ 64" using unsigned_less [of val] by simp
  have "\<forall>d\<in>set (digits 13 (unat val)). d < 32" using digits_less by blast
  then obtain w where w: "decode_base32_sort (map ((!) BASE32_SORT) (digits 13 (unat val))) = Some w"
      "unat w = number (digits 13 (unat val)) mod 2 ^ 64"
    using decode_digits [of "digits 13 (unat val)"] by auto
  have "unat val < 32 ^ 13" using bound by simp
  hence "unat w = unat val" using w(2) bound by (simp add: number_digits del: digits.simps)
  thus ?thesis using w(1) by (simp add: encode_digits word_unat_eq_iff)
qed

text \<open>The digits of numbers compare as the numbers do, and so do their characters.\<close>

lemma alphabet_less: "d < 32 \<Longrightarrow> e < 32 \<Longrightarrow> BASE32_SORT ! d < BASE32_SORT ! e \<longleftrightarrow> d < e"
proof -
  assume a: "d < 32" "e < 32"
  have mono: "BASE32_SORT ! i < BASE32_SORT ! j" if "i < j" "j < 32" for i j
    using that alphabet sorted_nth_mono [OF alphabet(3), of i j] nth_eq_iff_index_eq [OF alphabet(2), of i j]
    by (simp add: order_less_le)
  show ?thesis using mono [of d e] mono [of e d] a by (cases d e rule: linorder_cases) auto
qed

lemma digits_less_iff:
  assumes "v < 32 ^ n" "w < 32 ^ n"
  shows "map ((!) BASE32_SORT) (digits n v) < map ((!) BASE32_SORT) (digits n w) \<longleftrightarrow> v < w"
  using assms
proof (induction n arbitrary: v w)
  case 0
  thus ?case by simp
next
  case (Suc n)
  let ?h = "\<lambda>v. v div 32 ^ n" and ?t = "\<lambda>v. v mod 32 ^ n :: nat"
  have h: "?h v < 32" "?h w < 32" using Suc.prems by (simp_all add: less_mult_imp_div_less)
  have eq: "BASE32_SORT ! ?h v = BASE32_SORT ! ?h w \<longleftrightarrow> ?h v = ?h w"
    using nth_eq_iff_index_eq [OF alphabet(2)] h alphabet(1) by simp
  have tails: "map ((!) BASE32_SORT) (digits n v) < map ((!) BASE32_SORT) (digits n w) \<longleftrightarrow> ?t v < ?t w"
    using Suc.IH [of "?t v" "?t w"] by (simp add: digits_mod)
  have "v < w \<longleftrightarrow> ?h v < ?h w \<or> ?h v = ?h w \<and> ?t v < ?t w"
  proof (cases "?h v = ?h w")
    case True
    thus ?thesis by (metis add_less_cancel_left div_mult_mod_eq less_irrefl)
  next
    case False
    hence "?h v < ?h w \<or> ?h w < ?h v" by auto
    thus ?thesis by (metis div_le_mono less_imp_le_nat not_less order_less_imp_not_less)
  qed
  thus ?case using h eq tails alphabet_less [OF h] by simp
qed

lemma encode_less_iff: "encode_base32_sort v < encode_base32_sort w \<longleftrightarrow> v < w"
proof -
  have bound: "unat u < 32 ^ 13" for u :: "64 word"
  proof -
    have "unat u < 2 ^ 64" using unsigned_less [of u] by simp
    thus ?thesis by simp
  qed
  show ?thesis
    unfolding encode_digits using digits_less_iff [OF bound bound] by (simp add: word_less_nat_alt)
qed

lemma encode_set: "set (encode_base32_sort v) \<subseteq> set BASE32_SORT"
  using digits_less [of _ 13 "unat v"] by (auto simp: encode_digits alphabet(1) simp del: digits.simps)

lemma length_encode: "length (encode_base32_sort v) = 13"
  by (simp add: encode_digits del: digits.simps)

section \<open>Spellings\<close>

text \<open>
  Thirteen characters carry 65 bits; the first bit of the first character is shifted out. The other
  spelling of a number has that bit set.
\<close>

definition tid_alias :: "64 word \<Rightarrow> string" where
  "tid_alias v = BASE32_SORT ! (16 + unat v div 2 ^ 60) # tl (encode_base32_sort v)"

lemma digits_shift: "digits n (x + k * 32 ^ n) = digits n x"
  by (metis digits_mod mod_mult_self1)

lemma digits_eq_iff: "v < 32 ^ n \<Longrightarrow> w < 32 ^ n \<Longrightarrow> digits n v = digits n w \<longleftrightarrow> v = w"
  by (metis mod_less number_digits)

lemma tid_alias_digits: "tid_alias v = map ((!) BASE32_SORT) (digits 13 (unat v + 2 ^ 64))"
proof -
  let ?x = "unat v"
  have x: "?x < 2 ^ 64" using unsigned_less [of v] by simp
  have thirteen: "digits 13 y = (y div 32 ^ 12) mod 32 # digits 12 y" for y
    using digits.simps(2) [of 12 y] by (simp del: digits.simps)
  have "?x div 32 ^ 12 < 16" using x by (simp add: less_mult_imp_div_less)
  moreover have "(?x + 16 * 32 ^ 12) div 32 ^ 12 = ?x div 32 ^ 12 + 16"
    by (subst div_mult_self1) simp_all
  ultimately have "digits 13 (?x + 16 * 32 ^ 12) = (16 + ?x div 32 ^ 12) # digits 12 ?x"
    unfolding thirteen digits_shift by simp
  thus ?thesis by (simp add: tid_alias_def encode_digits thirteen del: digits.simps)
qed

lemma alphabet_digits:
  assumes "set s \<subseteq> set BASE32_SORT"
  obtains ds where "s = map ((!) BASE32_SORT) ds" "\<forall>d\<in>set ds. d < 32"
proof
  let ?ds = "map (\<lambda>c. the (char_position c BASE32_SORT)) s"
  have "\<exists>i. char_position c BASE32_SORT = Some i" if "c \<in> set s" for c
    using that assms char_position_None [of c BASE32_SORT] by (cases "char_position c BASE32_SORT") auto
  hence i: "the (char_position c BASE32_SORT) < 32 \<and> BASE32_SORT ! the (char_position c BASE32_SORT) = c" if "c \<in> set s" for c
    using that char_position_Some [of c BASE32_SORT] alphabet(1) by (metis option.sel)
  show "s = map ((!) BASE32_SORT) ?ds" using i by (simp add: map_idI)
  show "\<forall>d\<in>set ?ds. d < 32" using i by auto
qed

lemma decode_bytes_alphabet: "decode_bytes val s = Some w \<Longrightarrow> set s \<subseteq> set BASE32_SORT"
  by (induction s arbitrary: val) (auto split: option.splits dest!: char_position_Some)

lemma decode_alphabet: "decode_base32_sort s = Some w \<Longrightarrow> length s = 13 \<and> set s \<subseteq> set BASE32_SORT"
  using decode_bytes_alphabet by (auto simp: decode_base32_sort_def split: if_splits)

lemma map_alphabet_inj:
  "\<forall>d\<in>set ds. d < 32 \<Longrightarrow> \<forall>d\<in>set es. d < 32 \<Longrightarrow> map ((!) BASE32_SORT) ds = map ((!) BASE32_SORT) es \<longleftrightarrow> ds = es"
proof -
  assume a: "\<forall>d\<in>set ds. d < 32" "\<forall>d\<in>set es. d < 32"
  have "inj_on ((!) BASE32_SORT) (set ds \<union> set es)"
    using a alphabet(1) nth_eq_iff_index_eq [OF alphabet(2)] by (auto intro!: inj_onI)
  thus ?thesis by (rule inj_on_map_eq_map)
qed

lemma decode_Some_iff:
  "decode_base32_sort s = Some v \<longleftrightarrow> s = encode_base32_sort v \<or> s = tid_alias v"
proof
  assume d: "decode_base32_sort s = Some v"
  obtain ds where ds: "s = map ((!) BASE32_SORT) ds" "\<forall>d\<in>set ds. d < 32"
    using alphabet_digits decode_alphabet [OF d] by metis
  have len: "length ds = 13" using decode_alphabet [OF d] ds(1) by simp
  have "unat v = number ds mod 2 ^ 64" using decode_digits [OF ds(2) len] d ds(1) by (metis option.inject)
  moreover have "number ds < 2 * 2 ^ 64" using number_less [OF ds(2)] len by simp
  ultimately have "number ds = unat v \<or> number ds = unat v + 2 ^ 64"
    by (cases "number ds < 2 ^ 64") (auto simp: mod_if)
  moreover have "ds = digits 13 (number ds)" using digits_number [OF ds(2)] len by simp
  ultimately have "ds = digits 13 (unat v) \<or> ds = digits 13 (unat v + 2 ^ 64)" by metis
  thus "s = encode_base32_sort v \<or> s = tid_alias v" using ds(1) encode_digits tid_alias_digits by metis
next
  have "decode_base32_sort (tid_alias v) = Some v"
  proof -
    let ?ds = "digits 13 (unat v + 2 ^ 64)"
    have bound: "unat v < 2 ^ 64" using unsigned_less [of v] by simp
    have "\<forall>d\<in>set ?ds. d < 32" using digits_less by blast
    then obtain w where w: "decode_base32_sort (map ((!) BASE32_SORT) ?ds) = Some w" "unat w = number ?ds mod 2 ^ 64"
      using decode_digits [of ?ds] length_digits by metis
    have "unat w = unat v"
      unfolding w(2) number_digits using bound by simp
    hence "w = v" by (simp only: word_unat_eq_iff)
    thus ?thesis using w(1) unfolding tid_alias_digits by (simp only:)
  qed
  thus "s = encode_base32_sort v \<or> s = tid_alias v \<Longrightarrow> decode_base32_sort s = Some v"
    using decode_encode_tid by auto
qed

lemma parts_value:
  assumes "unat us < 2 ^ 54"
  shows "unat (push_bit 10 us OR ucast (c AND 0x3FF :: 16 word) :: 64 word) = unat us * 1024 + unat (c AND 0x3FF)"
    "unat (c AND 0x3FF) < 1024"
proof -
  have "c AND 0x3FF = take_bit 10 c" by (simp add: take_bit_eq_mask mask_eq_exp_minus_1)
  hence "unat (c AND 0x3FF) = take_bit 10 (unat c)" by (simp only: unsigned_take_bit_eq)
  thus c: "unat (c AND 0x3FF) < 1024" by (simp add: take_bit_eq_mod)
  have "ucast (c AND 0x3FF) = (of_nat (unat (c AND 0x3FF)) :: 64 word)" by simp
  thus "unat (push_bit 10 us OR ucast (c AND 0x3FF) :: 64 word) = unat us * 1024 + unat (c AND 0x3FF)"
    using push_or_digit [of "unat (c AND 0x3FF)" 10 us] c assms by simp
qed

section \<open>Properties\<close>

text \<open>
  Property C33. The codec of 64-bit values: encoding gives 13 characters of the alphabet, decoding
  inverts it, and encodings compare as strings exactly as the values compare as unsigned numbers.
\<close>
theorem tid_codec:
  "tid_to_number (tid_from_number v) = Some v \<and> length (tid_from_number v) = 13 \<and>
   set (tid_from_number v) \<subseteq> set BASE32_SORT \<and> (tid_from_number v < tid_from_number w \<longleftrightarrow> v < w)"
  by (simp add: tid_to_number_def tid_from_number_def decode_encode_tid length_encode encode_set encode_less_iff)

text \<open>
  Property C34. What the decoder accepts: a value has exactly two spellings, the one the encoder
  writes and one with a first character from the second half of the alphabet, whose highest bit the
  shift drops.
\<close>
theorem tid_two_spellings:
  "(tid_to_number s = Some v \<longleftrightarrow> s = tid_from_number v \<or> s = tid_alias v) \<and> tid_alias v \<noteq> tid_from_number v"
proof -
  let ?x = "unat v"
  have "?x < 2 ^ 64" using unsigned_less [of v] by simp
  hence "digits 13 (?x + 2 ^ 64) \<noteq> digits 13 ?x" by (subst digits_eq_iff) simp_all
  moreover have "\<forall>d\<in>set (digits 13 y). d < 32" for y using digits_less by blast
  ultimately have "tid_alias v \<noteq> encode_base32_sort v"
    unfolding tid_alias_digits encode_digits using map_alphabet_inj by metis
  thus ?thesis by (simp add: tid_to_number_def tid_from_number_def decode_Some_iff)
qed

text \<open>
  For times below \<open>2 ^ 54\<close> microseconds (some 570 years): the time of an identifier is
  the one it was made from, whatever its clock id; an identifier of an earlier time sorts before one of
  a later time; and the one with a zero clock id sorts before or with every one of its time.
\<close>
theorem tid_orders_times:
  assumes "unat us < 2 ^ 54" "unat us' < 2 ^ 54" "us < us'"
  shows "tid_to_unix_microseconds (tid_from_parts us c) = Some us \<and>
    tid_from_parts us c < tid_from_parts us' c' \<and> tid_from_unix_microseconds us \<le> tid_from_parts us c"
proof -
  note p = parts_value [OF assms(1), of c] and p' = parts_value [OF assms(2), of c']
  have "unat (drop_bit 10 (push_bit 10 us OR ucast (c AND 0x3FF) :: 64 word)) = unat us"
    unfolding unat_drop_bit p(1) using p(2) by simp
  hence "drop_bit 10 (push_bit 10 us OR ucast (c AND 0x3FF)) = us" by (simp only: word_unat_eq_iff)
  moreover have "push_bit 10 us OR ucast (c AND 0x3FF) < (push_bit 10 us' OR ucast (c' AND 0x3FF) :: 64 word)"
    unfolding word_less_nat_alt p(1) p'(1) using p(2) assms(3) by (simp add: word_less_nat_alt)
  moreover have "push_bit 10 us \<le> push_bit 10 us OR (ucast (c AND 0x3FF) :: 64 word)"
    using push_or_digit [of 0 10 us] assms(1) unfolding word_le_nat_alt p(1) by simp
  ultimately show ?thesis
    by (simp only: tid_to_unix_microseconds_def tid_from_parts_def tid_from_unix_microseconds_def decode_encode_tid
        encode_less_iff not_less [symmetric] option.map simp_thms)
qed

theorem tid_orders_times_witness:
  "tid_from_parts 1757775845000000 7 < tid_from_parts 1757775845000001 3 \<and>
   tid_to_unix_microseconds (tid_from_parts 1757775845000000 7) = Some 1757775845000000"
  using tid_orders_times [of 1757775845000000 1757775845000001 7 3] by simp

end
