(* ===== verification/Space_Uri.thy ===== *)
theory Space_Uri
  imports App_Error
begin

text \<open>
  Addresses of permissioned data (src/spaces/mod.rs): the \<open>at://\<close> URI of a space or of a record in it,
  with the older \<open>ats://\<close> spelling. A URI that parses prints and parses back to itself, and its parts
  contain no slash, so an address names one space and one author.
\<close>

record SpaceUri =
  su_did :: string
  su_type_nsid :: string
  su_skey :: string
  su_user_did :: "string option"
  su_collection :: "string option"
  su_rkey :: "string option"

definition uri_parts :: "string \<Rightarrow> AppError + string list" where
  "uri_parts stripped =
     (let parts = split_on CHR ''/'' stripped in
      if length parts < 4 then Err (EBadRequest ''SpaceUri requires at least did/space/type_nsid/skey'')
      else if parts ! 1 \<noteq> ''space'' then Err (EBadRequest ''SpaceUri must have 'space' as the second path segment'')
      else if parts ! 0 = [] \<or> parts ! 2 = [] \<or> parts ! 3 = []
      then Err (EBadRequest ''SpaceUri components must not be empty'')
      else Ok parts)"

definition of_parts :: "string list \<Rightarrow> AppError + SpaceUri" where
  "of_parts parts =
     (if length parts = 7
      then if parts ! 4 = [] \<or> parts ! 5 = [] \<or> parts ! 6 = []
           then Err (EBadRequest ''SpaceUri record components must not be empty'')
           else Ok \<lparr>su_did = parts ! 0, su_type_nsid = parts ! 2, su_skey = parts ! 3, su_user_did = Some (parts ! 4),
                    su_collection = Some (parts ! 5), su_rkey = Some (parts ! 6)\<rparr>
      else if length parts = 4
      then Ok \<lparr>su_did = parts ! 0, su_type_nsid = parts ! 2, su_skey = parts ! 3, su_user_did = None,
               su_collection = None, su_rkey = None\<rparr>
      else Err (EBadRequest ''SpaceUri must have 4 components (space) or 7 components (record)''))"

definition normalize_uri :: "string \<Rightarrow> AppError + string" where
  "normalize_uri uri =
     (case strip_prefix uri ''ats://'' of
        Some ats_rest \<Rightarrow>
          (let ats_parts = split_on CHR ''/'' ats_rest in
           if length ats_parts \<ge> 3 then Ok (ats_parts ! 0 @ ''/space/'' @ join ''/'' (drop 1 ats_parts))
           else Err (EBadRequest ''ats:// URI requires at least did/type/skey''))
      | None \<Rightarrow> (case strip_prefix uri ''at://'' of
                   Some rest \<Rightarrow> Ok rest
                 | None \<Rightarrow> Err (EBadRequest ''SpaceUri must start with at://'')))"

definition space_uri_parse :: "string \<Rightarrow> AppError + SpaceUri" where
  "space_uri_parse uri =
     (case normalize_uri uri of
        Inl e \<Rightarrow> Err e
      | Inr stripped \<Rightarrow> (case uri_parts stripped of Inl e \<Rightarrow> Err e | Inr parts \<Rightarrow> of_parts parts))"

definition space_uri_display :: "SpaceUri \<Rightarrow> string" where
  "space_uri_display u =
     ''at://'' @ su_did u @ ''/space/'' @ su_type_nsid u @ ''/'' @ su_skey u @
     (case (su_user_did u, su_collection u, su_rkey u) of
        (Some user, Some col, Some rkey) \<Rightarrow> ''/'' @ user @ ''/'' @ col @ ''/'' @ rkey
      | _ \<Rightarrow> [])"

section \<open>Lemmas\<close>

definition segment_ok :: "string \<Rightarrow> bool" where
  "segment_ok s \<longleftrightarrow> s \<noteq> [] \<and> CHR ''/'' \<notin> set s"

definition uri_ok :: "SpaceUri \<Rightarrow> bool" where
  "uri_ok u \<longleftrightarrow> segment_ok (su_did u) \<and> segment_ok (su_type_nsid u) \<and> segment_ok (su_skey u) \<and>
     (case (su_user_did u, su_collection u, su_rkey u) of
        (Some user, Some col, Some rkey) \<Rightarrow> segment_ok user \<and> segment_ok col \<and> segment_ok rkey
      | (None, None, None) \<Rightarrow> True
      | _ \<Rightarrow> False)"

lemma parts_plain: "p \<in> set (split_on CHR ''/'' s) \<Longrightarrow> p \<noteq> [] \<Longrightarrow> segment_ok p"
  using split_on_pieces [of p "CHR ''/''" s] by (simp add: segment_ok_def)

lemma uri_parts_Ok: "uri_parts s = Ok ps \<Longrightarrow> ps = split_on CHR ''/'' s"
  by (auto simp: uri_parts_def Let_def split: if_splits)

lemma parse_ok:
  assumes "space_uri_parse uri = Ok u"
  shows "uri_ok u"
proof -
  obtain stripped where p: "uri_parts stripped = Ok (split_on CHR ''/'' stripped)"
      "of_parts (split_on CHR ''/'' stripped) = Ok u"
    using assms by (auto simp: space_uri_parse_def dest: uri_parts_Ok split: sum.splits)
  let ?ps = "split_on CHR ''/'' stripped"
  have pl: "i < length ?ps \<Longrightarrow> ?ps ! i \<noteq> [] \<Longrightarrow> segment_ok (?ps ! i)" for i
    by (rule parts_plain [OF nth_mem])
  show ?thesis
    using p pl [of 0] pl [of 2] pl [of 3] pl [of 4] pl [of 5] pl [of 6]
    by (auto simp: uri_ok_def uri_parts_def of_parts_def Let_def split: if_splits)
qed

lemma split_plain: "segment_ok s \<Longrightarrow> split_on CHR ''/'' (s @ CHR ''/'' # t) = s # split_on CHR ''/'' t"
  by (simp add: segment_ok_def)

lemma split_plain_last: "segment_ok s \<Longrightarrow> split_on CHR ''/'' s = [s]"
  by (simp add: segment_ok_def)

lemma split_space_segment: "split_on CHR ''/'' (''space/'' @ t) = ''space'' # split_on CHR ''/'' t"
  using split_plain [of "''space''" t] by (simp add: segment_ok_def)

lemma ats_not_at: "strip_prefix (''at://'' @ s) ''ats://'' = None"
  by (simp add: strip_prefix_def)

lemma display_parse:
  assumes "uri_ok u"
  shows "space_uri_parse (space_uri_display u) = Ok u"
proof -
  have n: "normalize_uri (space_uri_display u) = Ok (drop 5 (space_uri_display u))"
    using ats_not_at by (simp add: normalize_uri_def space_uri_display_def strip_prefix_def)
  show ?thesis
    using assms unfolding space_uri_parse_def n
    by (cases u)
       (auto simp: uri_ok_def uri_parts_def of_parts_def space_uri_display_def split_plain split_plain_last
          split_space_segment [simplified] segment_ok_def split: option.splits)
qed

section \<open>Properties\<close>

text \<open>
  A URI that parses, in either spelling, prints to one that parses to the same parts, so
  a space reference names one address; its parts are not empty and contain no slash.
\<close>
theorem space_uri_roundtrip:
  assumes "space_uri_parse s = Ok u"
  shows "space_uri_parse (space_uri_display u) = Ok u \<and> uri_ok u"
  using parse_ok [OF assms] display_parse by simp

theorem space_uri_roundtrip_witness:
  "space_uri_parse (space_uri_display
     \<lparr>su_did = ''did:plc:a'', su_type_nsid = ''com.example.forum'', su_skey = ''main'', su_user_did = None,
      su_collection = None, su_rkey = None\<rparr>) =
   Ok \<lparr>su_did = ''did:plc:a'', su_type_nsid = ''com.example.forum'', su_skey = ''main'', su_user_did = None,
      su_collection = None, su_rkey = None\<rparr>"
proof -
  have "space_uri_parse ''ats://did:plc:a/com.example.forum/main'' =
     Ok \<lparr>su_did = ''did:plc:a'', su_type_nsid = ''com.example.forum'', su_skey = ''main'', su_user_did = None,
      su_collection = None, su_rkey = None\<rparr>" by code_simp
  from space_uri_roundtrip [OF this] show ?thesis by simp
qed

end
