(* ===== verification/Space_Repo.thy ===== *)
theory Space_Repo
  imports Set_Hash Tid Space_Uri Actions Decimal "HOL-Library.Product_Lexorder"
begin

text \<open>
  The tables of permissioned repos hosted here (src/spaces) and the statements on them: spaces and
  records (db.rs), the state and signed commit of each author's repo (db.rs, commit.rs), the writers of
  a space and its revision (writers.rs) and the log of operations (oplog.rs). A table is a list of
  rows. A row of \<open>sd_repos\<close> is identified by its space and author, which are unique together, and the
  times of the last update of spaces and repos are left out. BLAKE3, SHA-256, HKDF with HMAC, the
  signature and the content identifier of a record are arguments, as are clocks and fresh identifiers.
\<close>

unbundle bit_operations_syntax

section \<open>Data\<close>

record Space =
  sp_id :: string
  sp_did :: string
  sp_type_nsid :: string
  sp_skey :: string
  sp_allowed_collections :: "json option"
  sp_revision :: "string option"

record SpaceRecord =
  sr_uri :: string
  sr_space_id :: string
  sr_author_did :: string
  sr_collection :: string
  sr_rkey :: string
  sr_record :: json
  sr_cid :: string
  sr_indexed_at :: string

datatype OplogAction = OpCreate | OpUpdate | OpDelete

primrec oplog_action_as_str :: "OplogAction \<Rightarrow> string" where
  "oplog_action_as_str OpCreate = ''create''"
| "oplog_action_as_str OpUpdate = ''update''"
| "oplog_action_as_str OpDelete = ''delete''"

definition oplog_action_parse :: "string \<Rightarrow> OplogAction option" where
  "oplog_action_parse s =
     (if s = ''create'' then Some OpCreate else if s = ''update'' then Some OpUpdate
      else if s = ''delete'' then Some OpDelete else None)"

record OplogEntry =
  oe_id :: string
  oe_space_id :: string
  oe_author_did :: string
  oe_rev :: string
  oe_idx :: int
  oe_action :: OplogAction
  oe_collection :: string
  oe_rkey :: string
  oe_cid :: "string option"
  oe_prev :: "string option"
  oe_created_at :: string

datatype HostMode = Polyfill | Migrating | Native

definition is_authoritative_here :: "HostMode \<Rightarrow> bool" where
  "is_authoritative_here m \<longleftrightarrow> m = Polyfill \<or> m = Migrating"

record RepoState =
  rs_space_id :: string
  rs_author_did :: string
  rs_lthash_state :: bytes
  rs_rev :: "string option"
  rs_hash :: "bytes option"
  rs_ikm :: "bytes option"
  rs_sig :: "bytes option"
  rs_mac :: "bytes option"
  rs_host_mode :: HostMode
  rs_sync_cursor :: "string option"

record WriterRow =
  ww_space_id :: string
  ww_repo_did :: string
  ww_rev :: string
  ww_hash :: bytes
  ww_space_rev :: string
  ww_updated_at :: string

record space_db =
  sd_spaces :: "Space list"
  sd_records :: "SpaceRecord list"
  sd_oplog :: "OplogEntry list"
  sd_repos :: "RepoState list"
  sd_writers :: "WriterRow list"

record AppliedOp =
  ao_action :: OplogAction
  ao_collection :: string
  ao_rkey :: string
  ao_new_cid :: "string option"
  ao_old_cid :: "string option"

datatype Recorded = Advanced string "string option" | Stale

record CommittedWrite =
  cw_hash :: bytes
  cw_recorded :: Recorded

record space_env =
  se_sqlite :: bool
  se_xof :: "string \<Rightarrow> nat \<Rightarrow> bytes"
  se_sha256 :: "bytes \<Rightarrow> bytes"
  se_content_cid :: "json \<Rightarrow> string option"
  se_mac :: "bytes \<Rightarrow> bytes \<Rightarrow> bytes \<Rightarrow> AppError + bytes"
  se_sign :: "bytes \<Rightarrow> bytes"
  se_verify :: "bytes \<Rightarrow> bytes \<Rightarrow> bool"

type_synonym 'a space_act = "(space_db, AppError, 'a) act"

section \<open>Commits (commit.rs)\<close>

record SignedCommit =
  sc_ver :: "32 word"
  sc_hash :: bytes
  sc_ikm :: bytes
  sc_sig :: bytes
  sc_mac :: bytes
  sc_rev :: string

definition string_bytes :: "string \<Rightarrow> bytes" where
  "string_bytes s = map (\<lambda>c. of_nat (of_char c)) s"

definition u16_to_be_bytes :: "16 word \<Rightarrow> bytes" where
  "u16_to_be_bytes w = [ucast (drop_bit 8 w), ucast w]"

definition with_length :: "bytes \<Rightarrow> bytes" where
  "with_length bs = u16_to_be_bytes (of_nat (length bs)) @ bs"

definition build_context :: "string \<Rightarrow> string \<Rightarrow> string \<Rightarrow> bytes \<Rightarrow> bytes" where
  "build_context space_uri author_did rv ikm =
     string_bytes ''atproto-space-v1'' @ with_length (string_bytes space_uri) @ with_length (string_bytes author_did) @
     with_length (string_bytes rv) @ with_length ikm"

definition sign_commit :: "space_env \<Rightarrow> bytes \<Rightarrow> bytes \<Rightarrow> string \<Rightarrow> string \<Rightarrow> string \<Rightarrow> AppError + SignedCommit" where
  "sign_commit env ikm hash space_uri author_did rv =
     (let ctx = build_context space_uri author_did rv ikm in
      case se_mac env ikm ctx hash of
        Inl e \<Rightarrow> Err e
      | Inr mac \<Rightarrow> Ok \<lparr>sc_ver = 1, sc_hash = hash, sc_ikm = ikm, sc_sig = se_sign env ctx, sc_mac = mac, sc_rev = rv\<rparr>)"

definition verify_commit :: "space_env \<Rightarrow> SignedCommit \<Rightarrow> string \<Rightarrow> string \<Rightarrow> AppError + unit" where
  "verify_commit env commit space_uri author_did =
     (if sc_ver commit \<noteq> 1 then Err (EBadRequest (''unsupported commit version: '' @ show_nat (unat (sc_ver commit))))
      else let ctx = build_context space_uri author_did (sc_rev commit) (sc_ikm commit) in
        if \<not> se_verify env ctx (sc_sig commit) then Err (EAuth ''commit signature verification failed'')
        else case se_mac env (sc_ikm commit) ctx (sc_hash commit) of
          Inl e \<Rightarrow> Err e
        | Inr expected \<Rightarrow>
            if expected \<noteq> sc_mac commit
            then Err (EAuth (''commit MAC verification failed '' @ [CHR 0xE2, CHR 0x80, CHR 0x94] @ '' repo hash mismatch''))
            else Ok ())"

section \<open>Spaces (service.rs, db.rs)\<close>

definition get_space :: "faults \<Rightarrow> nat \<Rightarrow> string \<Rightarrow> Space option space_act" where
  "get_space faults n sid =
     query faults n (internal ''failed to get space'') (\<lambda>db. List.find (\<lambda>s. sp_id s = sid) (sd_spaces db))"

definition get_space_by_address :: "faults \<Rightarrow> nat \<Rightarrow> string \<Rightarrow> string \<Rightarrow> string \<Rightarrow> Space option space_act" where
  "get_space_by_address faults n did type_nsid skey =
     query faults n (internal ''failed to get space'') (\<lambda>db.
       List.find (\<lambda>s. sp_did s = did \<and> sp_type_nsid s = type_nsid \<and> sp_skey s = skey) (sd_spaces db))"

definition resolve_space :: "faults \<Rightarrow> nat \<Rightarrow> string \<Rightarrow> Space space_act" where
  "resolve_space faults n space_ref =
     seq_act (lift_result (space_uri_parse space_ref)) (\<lambda>uri.
     seq_act (get_space_by_address faults n (su_did uri) (su_type_nsid uri) (su_skey uri)) (\<lambda>found.
     case found of Some space \<Rightarrow> ret space | None \<Rightarrow> fail (ENotFound ''Space not found'')))"

definition check_collection_allowed :: "Space \<Rightarrow> string \<Rightarrow> AppError + unit" where
  "check_collection_allowed space collection =
     (case sp_allowed_collections space of
        Some (JArray allowed) \<Rightarrow>
          if allowed \<noteq> [] \<and> \<not> list_ex (\<lambda>v. json_as_str v = Some collection) allowed
          then Err (EBadRequest (''collection '' @ [CHR 0x27] @ collection @ [CHR 0x27] @ '' is not allowed in this space''))
          else Ok ()
      | _ \<Rightarrow> Ok ())"

definition content_cid :: "space_env \<Rightarrow> json \<Rightarrow> AppError + string" where
  "content_cid env r =
     (case se_content_cid env r of
        Some cid \<Rightarrow> Ok cid
      | None \<Rightarrow> Err (EBadRequest
          ''record cannot be encoded as DAG-CBOR (non-finite number, or malformed $link/$bytes)''))"

section \<open>Records (db.rs)\<close>

definition record_uri :: "Space \<Rightarrow> string \<Rightarrow> string \<Rightarrow> string \<Rightarrow> string" where
  "record_uri space did collection rkey =
     ''at://'' @ sp_did space @ ''/space/'' @ sp_type_nsid space @ ''/'' @ sp_skey space @ ''/'' @ did @ ''/'' @
     collection @ ''/'' @ rkey"

definition space_uri :: "Space \<Rightarrow> string" where
  "space_uri space = ''at://'' @ sp_did space @ ''/space/'' @ sp_type_nsid space @ ''/'' @ sp_skey space"

definition find_record :: "string \<Rightarrow> space_db \<Rightarrow> SpaceRecord option" where
  "find_record uri db = List.find (\<lambda>r. sr_uri r = uri) (sd_records db)"

definition get_space_record :: "faults \<Rightarrow> nat \<Rightarrow> string \<Rightarrow> SpaceRecord option space_act" where
  "get_space_record faults n uri = query faults n (internal ''failed to get space record'') (find_record uri)"

fun str_contains :: "string \<Rightarrow> string \<Rightarrow> bool" where
  "str_contains [] p = (p = [])"
| "str_contains (c # s) p = (starts_with (c # s) p \<or> str_contains s p)"

definition insert_error :: "string \<Rightarrow> AppError" where
  "insert_error msg =
     (if str_contains msg ''UNIQUE'' \<or> str_contains msg ''duplicate'' \<or> str_contains msg ''unique''
      then EConflict ''Record already exists'' else internal ''failed to create space record'' msg)"

definition insert_space_record :: "faults \<Rightarrow> nat \<Rightarrow> SpaceRecord \<Rightarrow> unit space_act" where
  "insert_space_record faults n r =
     seq_act (query faults n insert_error (find_record (sr_uri r))) (\<lambda>found.
     if found \<noteq> None then fail (EConflict ''Record already exists'')
     else execute faults n insert_error (\<lambda>db. Some (db\<lparr>sd_records := sd_records db @ [r]\<rparr>)))"

text \<open>
  SQLite replaces the row; Postgres updates its record, content identifier and time. The rows agree in
  the rest but for how the last two parts of the URI split into collection and key.
\<close>

definition upsert_space_record :: "space_env \<Rightarrow> faults \<Rightarrow> nat \<Rightarrow> SpaceRecord \<Rightarrow> unit space_act" where
  "upsert_space_record env faults n r =
     execute faults n (internal ''failed to upsert space record'') (\<lambda>db. Some (db\<lparr>sd_records :=
       (if find_record (sr_uri r) db = None then sd_records db @ [r]
        else map (\<lambda>o'. if sr_uri o' = sr_uri r
               then (if se_sqlite env then r
                     else o'\<lparr>sr_record := sr_record r, sr_cid := sr_cid r, sr_indexed_at := sr_indexed_at r\<rparr>)
               else o') (sd_records db))\<rparr>))"

definition swap_failure :: "faults \<Rightarrow> nat \<Rightarrow> string \<Rightarrow> unit space_act" where
  "swap_failure faults n uri =
     seq_act (get_space_record faults n uri) (\<lambda>existing.
     if existing \<noteq> None then fail (EConflict ''Record CID mismatch'') else fail (ENotFound ''Record not found''))"

definition matches_swap :: "string \<Rightarrow> string \<Rightarrow> SpaceRecord \<Rightarrow> bool" where
  "matches_swap uri swap r \<longleftrightarrow> sr_uri r = uri \<and> sr_cid r = swap"

definition upsert_space_record_with_swap :: "faults \<Rightarrow> nat \<Rightarrow> SpaceRecord \<Rightarrow> string \<Rightarrow> unit space_act" where
  "upsert_space_record_with_swap faults n r swap =
     seq_act (query faults n (internal ''failed to update space record'') (\<lambda>db. list_ex (matches_swap (sr_uri r) swap) (sd_records db)))
       (\<lambda>affected.
     seq_act (execute faults n (internal ''failed to update space record'') (\<lambda>db. Some (db\<lparr>sd_records :=
         map (\<lambda>o'. if matches_swap (sr_uri r) swap o'
                then o'\<lparr>sr_record := sr_record r, sr_cid := sr_cid r, sr_indexed_at := sr_indexed_at r\<rparr> else o')
           (sd_records db)\<rparr>))) (\<lambda>_.
     if \<not> affected then swap_failure faults (n + 1) (sr_uri r) else ret ()))"

definition delete_space_record :: "faults \<Rightarrow> nat \<Rightarrow> string \<Rightarrow> unit space_act" where
  "delete_space_record faults n uri =
     execute faults n (internal ''failed to delete space record'')
       (\<lambda>db. Some (db\<lparr>sd_records := filter (\<lambda>r. sr_uri r \<noteq> uri) (sd_records db)\<rparr>))"

definition delete_space_record_with_swap :: "faults \<Rightarrow> nat \<Rightarrow> string \<Rightarrow> string \<Rightarrow> unit space_act" where
  "delete_space_record_with_swap faults n uri swap =
     seq_act (query faults n (internal ''failed to delete space record'') (\<lambda>db. list_ex (matches_swap uri swap) (sd_records db)))
       (\<lambda>affected.
     seq_act (execute faults n (internal ''failed to delete space record'')
         (\<lambda>db. Some (db\<lparr>sd_records := filter (\<lambda>r. \<not> matches_swap uri swap r) (sd_records db)\<rparr>))) (\<lambda>_.
     if \<not> affected then swap_failure faults (n + 1) uri else ret ()))"

section \<open>Repo state (db.rs)\<close>

definition find_repo :: "string \<Rightarrow> string \<Rightarrow> space_db \<Rightarrow> RepoState option" where
  "find_repo space_id author db = List.find (\<lambda>s. rs_space_id s = space_id \<and> rs_author_did s = author) (sd_repos db)"

definition new_repo :: "string \<Rightarrow> string \<Rightarrow> RepoState" where
  "new_repo space_id author = \<lparr>rs_space_id = space_id, rs_author_did = author, rs_lthash_state = replicate 2048 0,
     rs_rev = None, rs_hash = None, rs_ikm = None, rs_sig = None, rs_mac = None, rs_host_mode = Polyfill,
     rs_sync_cursor = None\<rparr>"

definition read_repo_state :: "faults \<Rightarrow> nat \<Rightarrow> string \<Rightarrow> string \<Rightarrow> RepoState option space_act" where
  "read_repo_state faults n space_id author =
     query faults n (internal ''failed to get repo state'') (find_repo space_id author)"

definition get_or_create_repo_state :: "faults \<Rightarrow> nat \<Rightarrow> string \<Rightarrow> string \<Rightarrow> RepoState space_act" where
  "get_or_create_repo_state faults n space_id author =
     seq_act (read_repo_state faults n space_id author) (\<lambda>found. case found of
       Some s \<Rightarrow> ret s
     | None \<Rightarrow>
         seq_act (execute faults (n + 1) (internal ''failed to create repo state'')
           (\<lambda>db. Some (if find_repo space_id author db = None then db\<lparr>sd_repos := sd_repos db @ [new_repo space_id author]\<rparr> else db)))
           (\<lambda>_. seq_act (read_repo_state faults (n + 2) space_id author) (\<lambda>found. case found of
              Some s \<Rightarrow> ret s
            | None \<Rightarrow> fail (EInternal ''repo state missing after insert''))))"

definition update_repo_state :: "faults \<Rightarrow> nat \<Rightarrow> RepoState \<Rightarrow> unit space_act" where
  "update_repo_state faults n s =
     execute faults n (internal ''failed to update repo state'')
       (\<lambda>db. Some (db\<lparr>sd_repos := map (\<lambda>o'. if rs_space_id o' = rs_space_id s \<and> rs_author_did o' = rs_author_did s
                                         then s else o') (sd_repos db)\<rparr>))"

definition update_space_revision :: "faults \<Rightarrow> nat \<Rightarrow> string \<Rightarrow> string \<Rightarrow> unit space_act" where
  "update_space_revision faults n space_id revision =
     execute faults n (internal ''failed to update space revision'')
       (\<lambda>db. Some (db\<lparr>sd_spaces := map (\<lambda>s. if sp_id s = space_id then s\<lparr>sp_revision := Some revision\<rparr> else s) (sd_spaces db)\<rparr>))"

section \<open>Writers of a space (writers.rs)\<close>

definition MAX_REV_CLOCK_SKEW_MICROS :: int where
  "MAX_REV_CLOCK_SKEW_MICROS = 5 * 60 * 1000000"

text \<open>\<open>prev + 1\<close> wraps, as it does without overflow checks.\<close>

definition next_space_rev :: "string \<Rightarrow> string option \<Rightarrow> string" where
  "next_space_rev now prev =
     (case (case prev of Some p \<Rightarrow> tid_to_number p | None \<Rightarrow> None) of
        Some p \<Rightarrow> if is_some_and (tid_to_number now) (\<lambda>v. v \<le> p) then tid_from_number (p + 1) else now
      | None \<Rightarrow> now)"

definition find_writer :: "string \<Rightarrow> string \<Rightarrow> space_db \<Rightarrow> WriterRow option" where
  "find_writer space_id repo db = List.find (\<lambda>w. ww_space_id w = space_id \<and> ww_repo_did w = repo) (sd_writers db)"

definition space_revs :: "string \<Rightarrow> space_db \<Rightarrow> string list" where
  "space_revs space_id db = map ww_space_rev (filter (\<lambda>w. ww_space_id w = space_id) (sd_writers db))"

definition max_space_rev :: "string \<Rightarrow> space_db \<Rightarrow> string option" where
  "max_space_rev space_id db = (case space_revs space_id db of [] \<Rightarrow> None | r # rs \<Rightarrow> Some (fold max rs r))"

definition put_writer :: "WriterRow \<Rightarrow> space_db \<Rightarrow> space_db" where
  "put_writer w db = db\<lparr>sd_writers :=
     (if find_writer (ww_space_id w) (ww_repo_did w) db = None then sd_writers db @ [w]
      else map (\<lambda>o'. if ww_space_id o' = ww_space_id w \<and> ww_repo_did o' = ww_repo_did w then w else o') (sd_writers db))\<rparr>"

definition lock_space :: "space_env \<Rightarrow> faults \<Rightarrow> nat \<Rightarrow> unit space_act" where
  "lock_space env faults n = (if se_sqlite env then ret () else query faults n (internal ''failed to lock space'') (\<lambda>_. ()))"

definition record_writer ::
  "space_env \<Rightarrow> faults \<Rightarrow> nat \<Rightarrow> int \<Rightarrow> string \<Rightarrow> string \<Rightarrow> string \<Rightarrow> string \<Rightarrow> string \<Rightarrow> bytes \<Rightarrow> Recorded space_act" where
  "record_writer env faults n now_micros now_tid now space_id repo rv hash =
     (case tid_to_unix_microseconds rv of
        None \<Rightarrow> fail (EBadRequest ''rev is not a TID'')
      | Some rev_micros \<Rightarrow>
          if sint rev_micros > now_micros + MAX_REV_CLOCK_SKEW_MICROS
          then fail (EXrpc 400 ''FutureRev'' ''the repo revision exceeds the permitted clock skew'')
          else seq_act (lock_space env faults n) (\<lambda>_.
          seq_act (query faults (n + 1) (internal ''failed to read writer state'') (find_writer space_id repo)) (\<lambda>held.
          if is_some_and held (\<lambda>w. rv \<le> ww_rev w) then ret Stale
          else seq_act (query faults (n + 2) (internal ''failed to read space revision'') (max_space_rev space_id)) (\<lambda>prev.
          let space_rev = next_space_rev now_tid prev in
          seq_act (execute faults (n + 3) (internal ''failed to record writer'')
             (\<lambda>db. Some (put_writer \<lparr>ww_space_id = space_id, ww_repo_did = repo, ww_rev = rv, ww_hash = hash,
                                    ww_space_rev = space_rev, ww_updated_at = now\<rparr> db)))
            (\<lambda>_. ret (Advanced space_rev prev))))))"

definition replace_hash :: "faults \<Rightarrow> nat \<Rightarrow> string \<Rightarrow> string \<Rightarrow> string \<Rightarrow> string \<Rightarrow> bytes \<Rightarrow> unit space_act" where
  "replace_hash faults n now space_id repo rv hash =
     execute faults n (internal ''failed to update writer hash'') (\<lambda>db. Some (db\<lparr>sd_writers :=
       map (\<lambda>w. if ww_space_id w = space_id \<and> ww_repo_did w = repo \<and> ww_rev w = rv
              then w\<lparr>ww_hash := hash, ww_updated_at := now\<rparr> else w) (sd_writers db)\<rparr>))"

definition list_writers :: "string \<Rightarrow> string option \<Rightarrow> int \<Rightarrow> space_db \<Rightarrow> WriterRow list" where
  "list_writers space_id after limit db =
     take (nat limit) (sort_key ww_space_rev (filter (\<lambda>w. ww_space_id w = space_id \<and>
       (case after of Some a \<Rightarrow> ww_space_rev w > a | None \<Rightarrow> True)) (sd_writers db)))"

section \<open>Operation log (oplog.rs)\<close>

definition append_op :: "faults \<Rightarrow> nat \<Rightarrow> OplogEntry \<Rightarrow> unit space_act" where
  "append_op faults n entry =
     execute faults n (internal ''failed to append oplog entry'') (\<lambda>db. Some (db\<lparr>sd_oplog := sd_oplog db @ [entry]\<rparr>))"

definition encode_op_cursor :: "string \<Rightarrow> int \<Rightarrow> string" where
  "encode_op_cursor rv idx = rv @ '':'' @ show_int idx"

definition I32_MAX :: int where
  "I32_MAX = 2147483647"

definition parse_i32 :: "string \<Rightarrow> int option" where
  "parse_i32 s = (case parse_i64 s of Some i \<Rightarrow> if - 2147483648 \<le> i \<and> i \<le> I32_MAX then Some i else None | None \<Rightarrow> None)"

definition parse_op_cursor :: "string \<Rightarrow> string \<times> int" where
  "parse_op_cursor cursor =
     (case rsplit_once CHR '':'' cursor of
        Some (rv, idx) \<Rightarrow> (case parse_i32 idx of Some i \<Rightarrow> (rv, i) | None \<Rightarrow> (cursor, I32_MAX))
      | None \<Rightarrow> (cursor, I32_MAX))"

definition op_key :: "OplogEntry \<Rightarrow> string \<times> int" where
  "op_key e = (oe_rev e, oe_idx e)"

definition paginate_ops :: "OplogEntry list \<Rightarrow> int \<Rightarrow> OplogEntry list \<times> string option" where
  "paginate_ops rows limit =
     (let kept = take (nat limit) rows in
      (kept, if int (length rows) > limit
             then (if kept = [] then None else Some (encode_op_cursor (oe_rev (last kept)) (oe_idx (last kept))))
             else None))"

definition select_ops :: "string \<Rightarrow> string \<Rightarrow> string option \<Rightarrow> space_db \<Rightarrow> OplogEntry list" where
  "select_ops space_id author cursor db =
     sort_key op_key (filter (\<lambda>e. oe_space_id e = space_id \<and> oe_author_did e = author \<and>
       (case cursor of
          Some c \<Rightarrow> (case parse_op_cursor c of (rv, idx) \<Rightarrow> oe_rev e > rv \<or> oe_rev e = rv \<and> oe_idx e > idx)
        | None \<Rightarrow> True)) (sd_oplog db))"

text \<open>The route that lists operations clamps \<open>limit\<close> to between 1 and 1000.\<close>

definition list_ops :: "faults \<Rightarrow> string \<Rightarrow> string \<Rightarrow> string option \<Rightarrow> int \<Rightarrow> (OplogEntry list \<times> string option) space_act" where
  "list_ops faults space_id author cursor limit =
     seq_act (query faults 0 (internal ''failed to list oplog entries'')
                (\<lambda>db. take (nat (limit + 1)) (select_ops space_id author cursor db)))
       (\<lambda>rows. ret (paginate_ops rows limit))"

definition op_value :: "space_db \<Rightarrow> OplogEntry \<Rightarrow> json option" where
  "op_value db e = map_option sr_record (List.find (\<lambda>r. sr_space_id r = oe_space_id e \<and>
     sr_author_did r = oe_author_did e \<and> sr_collection r = oe_collection e \<and> sr_rkey r = oe_rkey e \<and>
     Some (sr_cid r) = oe_cid e) (sd_records db))"

definition list_ops_with_values ::
  "faults \<Rightarrow> string \<Rightarrow> string \<Rightarrow> string option \<Rightarrow> int \<Rightarrow> ((OplogEntry \<times> json option) list \<times> string option) space_act" where
  "list_ops_with_values faults space_id author cursor limit =
     seq_act (query faults 0 (internal ''failed to list oplog entries with values'')
                (\<lambda>db. map (\<lambda>e. (e, op_value db e)) (take (nat (limit + 1)) (select_ops space_id author cursor db))))
       (\<lambda>rows. case paginate_ops (map fst rows) limit of (kept, next) \<Rightarrow> ret (take (length kept) rows, next))"

end
