(* ===== verification/Space_Writes.thy ===== *)
theory Space_Writes
  imports Space_Repo
begin

text \<open>
  Writes to permissioned repos (src/spaces/service.rs), batches of them and write notifications
  (routes.rs), and the rebuild of a repo's state from its records (rebuild.rs). A handler is what it
  does before its transaction and the transaction: a write holds its space from the beginning of the
  transaction, so transactions are steps, and what was read before one may be out of date in it.
  Membership, the signing key, the answer of an author's own host, clocks and fresh identifiers are
  part of the request, and so are the statements that fail.
\<close>

record write_request =
  wr_did :: string
  wr_member :: "AppError + unit"
  wr_pds :: "string \<Rightarrow> json \<Rightarrow> AppError + json"
  wr_signing_key :: "AppError + unit"
  wr_rev :: "64 word \<times> 16 word"
  wr_tid :: "nat \<Rightarrow> 64 word \<times> 16 word"
  wr_space_tid :: "64 word \<times> 16 word"
  wr_ikm :: bytes
  wr_now :: string
  wr_now_micros :: int
  wr_uuid :: "nat \<Rightarrow> string"
  wr_faults :: faults

text \<open>A fresh identifier from the time and the random clock id drawn for it (src/tid.rs).\<close>

definition generate_tid :: "64 word \<times> 16 word \<Rightarrow> string" where
  "generate_tid draw = tid_from_parts (fst draw) (snd draw)"

definition json_object :: "(string \<times> json) list \<Rightarrow> json" where
  "json_object kvs = JObject (sort_key fst kvs)"

section \<open>Commits of a write (service.rs)\<close>

definition begin_space_write :: "space_env \<Rightarrow> faults \<Rightarrow> unit space_act" where
  "begin_space_write env faults =
     seq_act (query faults 100 (internal ''failed to begin transaction'') (\<lambda>_. ())) (\<lambda>_. lock_space env faults 101)"

definition commit_tx :: "faults \<Rightarrow> unit space_act" where
  "commit_tx faults = query faults 102 (internal ''failed to commit transaction'') (\<lambda>_. ())"

definition op_hash :: "space_env \<Rightarrow> AppliedOp \<Rightarrow> LtHashState \<Rightarrow> LtHashState" where
  "op_hash env op h =
     (let removed = (case ao_old_cid op of
            Some old \<Rightarrow> lthash_remove (se_xof env) h (record_element (ao_collection op) (ao_rkey op) old)
          | None \<Rightarrow> h)
      in case ao_new_cid op of
           Some new \<Rightarrow> lthash_add (se_xof env) removed (record_element (ao_collection op) (ao_rkey op) new)
         | None \<Rightarrow> removed)"

definition op_entry :: "write_request \<Rightarrow> string \<Rightarrow> string \<Rightarrow> string \<Rightarrow> nat \<Rightarrow> AppliedOp \<Rightarrow> OplogEntry" where
  "op_entry req space_id author rv idx op =
     \<lparr>oe_id = wr_uuid req idx, oe_space_id = space_id, oe_author_did = author, oe_rev = rv,
      oe_idx = sint (of_nat idx :: 32 word), oe_action = ao_action op, oe_collection = ao_collection op,
      oe_rkey = ao_rkey op, oe_cid = ao_new_cid op, oe_prev = ao_old_cid op, oe_created_at = wr_now req\<rparr>"

fun commit_ops ::
  "space_env \<Rightarrow> write_request \<Rightarrow> string \<Rightarrow> string \<Rightarrow> string \<Rightarrow> nat \<Rightarrow> AppliedOp list \<Rightarrow> LtHashState \<Rightarrow> LtHashState space_act" where
  "commit_ops env req space_id author rv idx [] h = ret h"
| "commit_ops env req space_id author rv idx (op # ops) h =
     seq_act (append_op (wr_faults req) (1000 * (idx + 1) + 500) (op_entry req space_id author rv idx op))
       (\<lambda>_. commit_ops env req space_id author rv (Suc idx) ops (op_hash env op h))"

definition commit_write ::
  "space_env \<Rightarrow> write_request \<Rightarrow> Space \<Rightarrow> string \<Rightarrow> string \<Rightarrow> AppliedOp list \<Rightarrow> CommittedWrite space_act" where
  "commit_write env req space author rv ops =
     seq_act (get_or_create_repo_state (wr_faults req) 200 (sp_id space) author) (\<lambda>st.
     if length (rs_lthash_state st) \<noteq> 2048
     then fail (EInternal (''corrupt repo state: lthash is '' @ show_nat (length (rs_lthash_state st)) @ '' bytes, expected 2048''))
     else
     seq_act (commit_ops env req (sp_id space) author rv 0 ops (lthash_from_bytes (rs_lthash_state st))) (\<lambda>set_hash.
     seq_act (lift_result (sign_commit env (wr_ikm req) (lthash_hash (se_sha256 env) set_hash) (space_uri space) author rv))
       (\<lambda>signed.
     seq_act (update_repo_state (wr_faults req) 203
        (st\<lparr>rs_lthash_state := lthash_as_bytes set_hash, rs_rev := Some (sc_rev signed), rs_hash := Some (sc_hash signed),
            rs_ikm := Some (sc_ikm signed), rs_sig := Some (sc_sig signed), rs_mac := Some (sc_mac signed)\<rparr>)) (\<lambda>_.
     seq_act (update_space_revision (wr_faults req) 204 (sp_id space) rv) (\<lambda>_.
     seq_act (record_writer env (wr_faults req) 205 (wr_now_micros req) (generate_tid (wr_space_tid req)) (wr_now req)
        (sp_id space) author rv (sc_hash signed)) (\<lambda>recorded.
     ret \<lparr>cw_hash = sc_hash signed, cw_recorded = recorded\<rparr>))))))"

text \<open>What a write tells others once it is committed: the update of the repo, and each operation.\<close>

record RepoUpdate =
  ru_space_uri :: string
  ru_repo :: string
  ru_rev :: string
  ru_hash :: bytes
  ru_space_rev :: string
  ru_prev_space_rev :: "string option"

record WebhookWrite =
  wh_collection :: string
  wh_rkey :: string
  wh_cid :: "string option"

record notice =
  no_update :: "RepoUpdate option"
  no_writes :: "WebhookWrite list"

definition notify_ops :: "Space \<Rightarrow> string \<Rightarrow> AppliedOp list \<Rightarrow> string \<Rightarrow> CommittedWrite \<Rightarrow> notice" where
  "notify_ops space author ops rv committed =
     \<lparr>no_update = (case cw_recorded committed of
        Advanced space_rev prev \<Rightarrow> Some \<lparr>ru_space_uri = space_uri space, ru_repo = author, ru_rev = rv,
          ru_hash = cw_hash committed, ru_space_rev = space_rev, ru_prev_space_rev = prev\<rparr>
      | Stale \<Rightarrow> None),
      no_writes = map (\<lambda>op. \<lparr>wh_collection = ao_collection op, wh_rkey = ao_rkey op, wh_cid = ao_new_cid op\<rparr>) ops\<rparr>"

text \<open>The transaction of a write: its statements on the records, then the commit that covers them.\<close>

definition write_tx ::
  "space_env \<Rightarrow> write_request \<Rightarrow> Space \<Rightarrow> (AppliedOp list \<times> 'a) space_act \<Rightarrow> ('a \<times> notice) space_act" where
  "write_tx env req space writes =
     transaction (
       seq_act (begin_space_write env (wr_faults req)) (\<lambda>_.
       seq_act writes (\<lambda>(ops, x).
       let rv = generate_tid (wr_rev req) in
       seq_act (commit_write env req space (wr_did req) rv ops) (\<lambda>committed.
       seq_act (commit_tx (wr_faults req)) (\<lambda>_. ret (x, notify_ops space (wr_did req) ops rv committed))))))"

section \<open>Forwarding (service.rs)\<close>

definition forward_write_if_native :: "write_request \<Rightarrow> Space \<Rightarrow> string \<Rightarrow> json \<Rightarrow> json option space_act" where
  "forward_write_if_native req space method body =
     seq_act (query (wr_faults req) 1 (internal ''failed to acquire connection'') (\<lambda>_. ())) (\<lambda>_.
     seq_act (read_repo_state (wr_faults req) 2 (sp_id space) (wr_did req)) (\<lambda>found.
     if is_authoritative_here (case found of Some st \<Rightarrow> rs_host_mode st | None \<Rightarrow> Polyfill) then ret None
     else seq_act (lift_result (wr_pds req method body)) (\<lambda>answer. ret (Some answer))))"

definition with_swap_record :: "(string \<times> json) list \<Rightarrow> string option \<Rightarrow> json" where
  "with_swap_record body swap =
     json_object (body @ (case swap of Some s \<Rightarrow> [(''swapRecord'', JString s)] | None \<Rightarrow> []))"

definition str_field :: "json \<Rightarrow> string \<Rightarrow> string" where
  "str_field v key = (case json_get v key of Some x \<Rightarrow> unwrap_or (json_as_str x) [] | None \<Rightarrow> [])"

definition new_record :: "write_request \<Rightarrow> Space \<Rightarrow> string \<Rightarrow> string \<Rightarrow> json \<Rightarrow> string \<Rightarrow> SpaceRecord" where
  "new_record req space collection rkey v cid =
     \<lparr>sr_uri = record_uri space (wr_did req) collection rkey, sr_space_id = sp_id space, sr_author_did = wr_did req,
      sr_collection = collection, sr_rkey = rkey, sr_record = v, sr_cid = cid, sr_indexed_at = wr_now req\<rparr>"

section \<open>Writes to records\<close>

text \<open>
  The statements of one write inside its transaction, as the single requests (service.rs) and the
  batch (routes.rs) make them, with the operation they amount to. The numbers of its statements start
  at \<open>n\<close>.
\<close>

definition create_in_tx :: "write_request \<Rightarrow> nat \<Rightarrow> SpaceRecord \<Rightarrow> AppliedOp space_act" where
  "create_in_tx req n r =
     seq_act (insert_space_record (wr_faults req) n r) (\<lambda>_.
     ret \<lparr>ao_action = OpCreate, ao_collection = sr_collection r, ao_rkey = sr_rkey r, ao_new_cid = Some (sr_cid r),
          ao_old_cid = None\<rparr>)"

definition put_in_tx :: "space_env \<Rightarrow> write_request \<Rightarrow> nat \<Rightarrow> SpaceRecord \<Rightarrow> string option \<Rightarrow> AppliedOp space_act" where
  "put_in_tx env req n r swap =
     seq_act (case swap of
         Some s \<Rightarrow> ret (Some s)
       | None \<Rightarrow> seq_act (get_space_record (wr_faults req) n (sr_uri r)) (\<lambda>found. ret (map_option sr_cid found))) (\<lambda>old.
     seq_act (case swap of
         Some s \<Rightarrow> upsert_space_record_with_swap (wr_faults req) (n + 1) r s
       | None \<Rightarrow> upsert_space_record env (wr_faults req) (n + 1) r) (\<lambda>_.
     ret \<lparr>ao_action = (if old \<noteq> None then OpUpdate else OpCreate), ao_collection = sr_collection r,
          ao_rkey = sr_rkey r, ao_new_cid = Some (sr_cid r), ao_old_cid = old\<rparr>))"

definition delete_in_tx ::
  "write_request \<Rightarrow> nat \<Rightarrow> Space \<Rightarrow> string \<Rightarrow> string \<Rightarrow> string option \<Rightarrow> AppliedOp space_act" where
  "delete_in_tx req n space collection rkey swap =
     (let uri = record_uri space (wr_did req) collection rkey in
      seq_act (case swap of
          Some s \<Rightarrow> seq_act (delete_space_record_with_swap (wr_faults req) n uri s) (\<lambda>_. ret s)
        | None \<Rightarrow>
            seq_act (get_space_record (wr_faults req) n uri) (\<lambda>found. case found of
                None \<Rightarrow> fail (ENotFound ''Record not found'')
              | Some r \<Rightarrow>
                  if sr_author_did r \<noteq> wr_did req then fail (EForbidden ''You can only delete your own records'')
                  else seq_act (delete_space_record (wr_faults req) (n + 1) uri) (\<lambda>_. ret (sr_cid r)))) (\<lambda>old.
      ret \<lparr>ao_action = OpDelete, ao_collection = collection, ao_rkey = rkey, ao_new_cid = None, ao_old_cid = Some old\<rparr>))"

section \<open>Single writes (service.rs)\<close>

text \<open>
  Each request is what it does before its transaction, which gives the answer of the author's own host
  or the space it read, and its transaction.
\<close>

definition locate_write ::
  "write_request \<Rightarrow> string \<Rightarrow> string option \<Rightarrow> string \<Rightarrow> (Space \<Rightarrow> json) \<Rightarrow> (json + Space) space_act" where
  "locate_write req space_ref collection method body =
     seq_act (resolve_space (wr_faults req) 0 space_ref) (\<lambda>space.
     seq_act (lift_result (wr_member req)) (\<lambda>_.
     seq_act (case collection of Some c \<Rightarrow> lift_result (check_collection_allowed space c) | None \<Rightarrow> ret ()) (\<lambda>_.
     seq_act (forward_write_if_native req space method (body space)) (\<lambda>forwarded.
     case forwarded of
       Some answer \<Rightarrow> ret (Inl answer)
     | None \<Rightarrow> ret (Inr space)))))"

definition record_answer :: "json \<Rightarrow> string \<times> string" where
  "record_answer answer = (str_field answer ''uri'', str_field answer ''cid'')"

definition no_notice :: notice where
  "no_notice = \<lparr>no_update = None, no_writes = []\<rparr>"

definition create_tx ::
  "space_env \<Rightarrow> write_request \<Rightarrow> Space \<Rightarrow> string \<Rightarrow> json \<Rightarrow> string \<Rightarrow> ((string \<times> string) \<times> notice) space_act" where
  "create_tx env req space collection v cid =
     (let r = new_record req space collection (generate_tid (wr_tid req 0)) v cid in
      write_tx env req space
        (seq_act (create_in_tx req 1000 r) (\<lambda>op. ret ([op], (sr_uri r, cid)))))"

definition create_body :: "write_request \<Rightarrow> string \<Rightarrow> json \<Rightarrow> Space \<Rightarrow> json" where
  "create_body req collection v space =
     json_object [(''space'', JString (space_uri space)), (''repo'', JString (wr_did req)),
       (''collection'', JString collection), (''record'', v)]"

definition create_record ::
  "space_env \<Rightarrow> write_request \<Rightarrow> string \<Rightarrow> string \<Rightarrow> json \<Rightarrow> ((string \<times> string) \<times> notice) space_act" where
  "create_record env req space_ref collection v =
     seq_act (locate_write req space_ref (Some collection) ''com.atproto.space.createRecord'' (create_body req collection v))
       (\<lambda>located. case located of
         Inl answer \<Rightarrow> ret (record_answer answer, no_notice)
       | Inr space \<Rightarrow>
           seq_act (lift_result (content_cid env v)) (\<lambda>cid.
           seq_act (lift_result (wr_signing_key req)) (\<lambda>_. create_tx env req space collection v cid)))"

definition put_tx ::
  "space_env \<Rightarrow> write_request \<Rightarrow> Space \<Rightarrow> string \<Rightarrow> string \<Rightarrow> json \<Rightarrow> string option \<Rightarrow> string \<Rightarrow>
   ((string \<times> string) \<times> notice) space_act" where
  "put_tx env req space collection rkey v swap cid =
     (let r = new_record req space collection rkey v cid in
      write_tx env req space
        (seq_act (put_in_tx env req 1000 r swap) (\<lambda>op. ret ([op], (sr_uri r, cid)))))"

definition put_body :: "write_request \<Rightarrow> string \<Rightarrow> string \<Rightarrow> json \<Rightarrow> string option \<Rightarrow> Space \<Rightarrow> json" where
  "put_body req collection rkey v swap space =
     with_swap_record [(''space'', JString (space_uri space)), (''repo'', JString (wr_did req)),
       (''collection'', JString collection), (''rkey'', JString rkey), (''record'', v)] swap"

definition put_record ::
  "space_env \<Rightarrow> write_request \<Rightarrow> string \<Rightarrow> string \<Rightarrow> string \<Rightarrow> json \<Rightarrow> string option \<Rightarrow>
   ((string \<times> string) \<times> notice) space_act" where
  "put_record env req space_ref collection rkey v swap =
     seq_act (locate_write req space_ref (Some collection) ''com.atproto.space.putRecord'' (put_body req collection rkey v swap))
       (\<lambda>located. case located of
         Inl answer \<Rightarrow> ret (record_answer answer, no_notice)
       | Inr space \<Rightarrow>
           seq_act (lift_result (content_cid env v)) (\<lambda>cid.
           seq_act (lift_result (wr_signing_key req)) (\<lambda>_. put_tx env req space collection rkey v swap cid)))"

definition delete_tx ::
  "space_env \<Rightarrow> write_request \<Rightarrow> Space \<Rightarrow> string \<Rightarrow> string \<Rightarrow> string option \<Rightarrow> (unit \<times> notice) space_act" where
  "delete_tx env req space collection rkey swap =
     write_tx env req space
       (seq_act (delete_in_tx req 1000 space collection rkey swap) (\<lambda>op. ret ([op], ())))"

definition delete_body :: "write_request \<Rightarrow> string \<Rightarrow> string \<Rightarrow> string option \<Rightarrow> Space \<Rightarrow> json" where
  "delete_body req collection rkey swap space =
     with_swap_record [(''space'', JString (space_uri space)), (''repo'', JString (wr_did req)),
       (''collection'', JString collection), (''rkey'', JString rkey)] swap"

definition delete_record ::
  "space_env \<Rightarrow> write_request \<Rightarrow> string \<Rightarrow> string \<Rightarrow> string \<Rightarrow> string option \<Rightarrow> (unit \<times> notice) space_act" where
  "delete_record env req space_ref collection rkey swap =
     seq_act (locate_write req space_ref None ''com.atproto.space.deleteRecord'' (delete_body req collection rkey swap))
       (\<lambda>located. case located of
         Inl answer \<Rightarrow> ret ((), no_notice)
       | Inr space \<Rightarrow> seq_act (lift_result (wr_signing_key req)) (\<lambda>_. delete_tx env req space collection rkey swap))"

section \<open>Batches (routes.rs)\<close>

datatype WriteOp =
    WriteCreate string "string option" json
  | WriteUpdate string string json "string option"
  | WriteDelete string string "string option"

definition write_body :: "WriteOp \<Rightarrow> json" where
  "write_body w =
     (let opt = (\<lambda>k v. case v of Some s \<Rightarrow> [(k, JString s)] | None \<Rightarrow> []);
          body = (\<lambda>kind collection rkey v swap. json_object
            ([(''$type'', JString (''com.atproto.space.applyWrites#'' @ kind)), (''collection'', JString collection)] @
             opt ''rkey'' rkey @ (case v of Some x \<Rightarrow> [(''value'', x)] | None \<Rightarrow> []) @ opt ''swapRecord'' swap))
      in case w of
           WriteCreate collection rkey v \<Rightarrow> body ''create'' collection rkey (Some v) None
         | WriteUpdate collection rkey v swap \<Rightarrow> body ''update'' collection (Some rkey) (Some v) swap
         | WriteDelete collection rkey swap \<Rightarrow> body ''delete'' collection (Some rkey) None swap)"

definition pds_apply_writes_body :: "string \<Rightarrow> string \<Rightarrow> string option \<Rightarrow> WriteOp list \<Rightarrow> json" where
  "pds_apply_writes_body uri repo swap_commit writes =
     json_object ([(''space'', JString uri), (''repo'', JString repo), (''writes'', JArray (map write_body writes))] @
       (case swap_commit of Some s \<Rightarrow> [(''swapCommit'', JString s)] | None \<Rightarrow> []))"

definition collections_allowed :: "Space \<Rightarrow> WriteOp list \<Rightarrow> AppError + unit" where
  "collections_allowed space writes =
     foldl (\<lambda>r w. case r of Inl e \<Rightarrow> Err e | Inr _ \<Rightarrow> (case w of
         WriteCreate c _ _ \<Rightarrow> check_collection_allowed space c
       | WriteUpdate c _ _ _ \<Rightarrow> check_collection_allowed space c
       | WriteDelete _ _ _ \<Rightarrow> Ok ())) (Ok ()) writes"

definition swap_commit_ok :: "Space \<Rightarrow> string option \<Rightarrow> AppError + unit" where
  "swap_commit_ok space swap_commit =
     (case swap_commit of
        None \<Rightarrow> Ok ()
      | Some expected \<Rightarrow> (case sp_revision space of
          Some current \<Rightarrow> if current \<noteq> expected then Err (EConflict ''swapCommit mismatch'') else Ok ()
        | None \<Rightarrow> if expected \<noteq> [] then Err (EConflict ''swapCommit mismatch'') else Ok ()))"

definition write_result :: "string \<Rightarrow> string \<Rightarrow> json" where
  "write_result uri cid = json_object [(''uri'', JString uri), (''cid'', JString cid)]"

definition apply_one :: "space_env \<Rightarrow> write_request \<Rightarrow> Space \<Rightarrow> nat \<Rightarrow> WriteOp \<Rightarrow> (AppliedOp \<times> json) space_act" where
  "apply_one env req space k w =
     (let n = 1000 * (k + 1) in case w of
        WriteCreate collection rkey v \<Rightarrow>
          seq_act (lift_result (check_collection_allowed space collection)) (\<lambda>_.
          seq_act (lift_result (content_cid env v)) (\<lambda>cid.
          let r = new_record req space collection (unwrap_or rkey (generate_tid (wr_tid req k))) v cid in
          seq_act (create_in_tx req n r) (\<lambda>op. ret (op, write_result (sr_uri r) cid))))
      | WriteUpdate collection rkey v swap \<Rightarrow>
          seq_act (lift_result (check_collection_allowed space collection)) (\<lambda>_.
          seq_act (lift_result (content_cid env v)) (\<lambda>cid.
          let r = new_record req space collection rkey v cid in
          seq_act (put_in_tx env req n r swap) (\<lambda>op. ret (op, write_result (sr_uri r) cid))))
      | WriteDelete collection rkey swap \<Rightarrow>
          seq_act (delete_in_tx req n space collection rkey swap) (\<lambda>op. ret (op, json_object [])))"

definition apply_tx ::
  "space_env \<Rightarrow> write_request \<Rightarrow> Space \<Rightarrow> WriteOp list \<Rightarrow> (json list \<times> notice) space_act" where
  "apply_tx env req space writes =
     write_tx env req space
       (seq_act (collect_act (apply_one env req space) 0 writes) (\<lambda>done'. ret (map fst done', map snd done')))"

text \<open>\<open>scope_ok\<close> is the check of every write against the caller's granted scopes.\<close>

definition apply_writes_guards ::
  "write_request \<Rightarrow> (Space \<Rightarrow> AppError + unit) \<Rightarrow> string \<Rightarrow> string option \<Rightarrow> WriteOp list \<Rightarrow> (json + Space) space_act" where
  "apply_writes_guards req scope_ok space_ref swap_commit writes =
     seq_act (resolve_space (wr_faults req) 0 space_ref) (\<lambda>space.
     seq_act (lift_result (wr_member req)) (\<lambda>_.
     seq_act (lift_result (scope_ok space)) (\<lambda>_.
     seq_act (lift_result (collections_allowed space writes)) (\<lambda>_.
     seq_act (forward_write_if_native req space ''com.atproto.space.applyWrites''
        (pds_apply_writes_body (space_uri space) (wr_did req) swap_commit writes)) (\<lambda>forwarded.
     case forwarded of
       Some answer \<Rightarrow> ret (Inl answer)
     | None \<Rightarrow>
         seq_act (lift_result (swap_commit_ok space swap_commit)) (\<lambda>_.
         seq_act (lift_result (wr_signing_key req)) (\<lambda>_. ret (Inr space))))))))"

definition apply_writes ::
  "space_env \<Rightarrow> write_request \<Rightarrow> (Space \<Rightarrow> AppError + unit) \<Rightarrow> string \<Rightarrow> string option \<Rightarrow> WriteOp list \<Rightarrow>
   (json \<times> notice) space_act" where
  "apply_writes env req scope_ok space_ref swap_commit writes =
     seq_act (apply_writes_guards req scope_ok space_ref swap_commit writes) (\<lambda>located. case located of
       Inl answer \<Rightarrow> ret (answer, no_notice)
     | Inr space \<Rightarrow>
         seq_act (apply_tx env req space writes) (\<lambda>(results, told).
         ret (json_object [(''results'', JArray results)], told)))"

section \<open>Reports of other hosts (routes.rs)\<close>

text \<open>The part of a write notification that records the revision and hash it reports.\<close>

definition record_notified ::
  "space_env \<Rightarrow> write_request \<Rightarrow> string \<Rightarrow> Space \<Rightarrow> string \<Rightarrow> string \<Rightarrow> bytes \<Rightarrow> RepoUpdate option space_act" where
  "record_notified env req space_ref space writer rv hash =
     transaction (
       seq_act (begin_space_write env (wr_faults req)) (\<lambda>_.
       seq_act (record_writer env (wr_faults req) 205 (wr_now_micros req) (generate_tid (wr_space_tid req)) (wr_now req)
          (sp_id space) writer rv hash) (\<lambda>recorded.
       seq_act (commit_tx (wr_faults req)) (\<lambda>_. ret (case recorded of
           Advanced space_rev prev \<Rightarrow> Some \<lparr>ru_space_uri = space_ref, ru_repo = writer, ru_rev = rv, ru_hash = hash,
             ru_space_rev = space_rev, ru_prev_space_rev = prev\<rparr>
         | Stale \<Rightarrow> None)))))"

section \<open>Rebuild (rebuild.rs)\<close>

datatype RevPolicy = Preserve | Advance

definition repo_rows :: "string \<Rightarrow> string \<Rightarrow> space_db \<Rightarrow> SpaceRecord list" where
  "repo_rows space_id author db = filter (\<lambda>r. sr_space_id r = space_id \<and> sr_author_did r = author) (sd_records db)"

definition row_element :: "SpaceRecord \<Rightarrow> string" where
  "row_element r = record_element (sr_collection r) (sr_rkey r) (sr_cid r)"

definition rebuild_repo_state ::
  "space_env \<Rightarrow> write_request \<Rightarrow> nat \<Rightarrow> string \<Rightarrow> string \<Rightarrow> RevPolicy \<Rightarrow> bool space_act" where
  "rebuild_repo_state env req n space_id author policy =
     seq_act (get_space (wr_faults req) n space_id) (\<lambda>found. case found of
       None \<Rightarrow> ret False
     | Some space \<Rightarrow>
         seq_act (query (wr_faults req) (n + 1) (internal ''failed to load records for rebuild'') (repo_rows space_id author)) (\<lambda>rows.
         let set_hash = foldl (lthash_add (se_xof env)) lthash_new (map row_element rows) in
         seq_act (get_or_create_repo_state (wr_faults req) (n + 2) space_id author) (\<lambda>st.
         case (case policy of Advance \<Rightarrow> Some (generate_tid (wr_rev req)) | Preserve \<Rightarrow> rs_rev st) of
           None \<Rightarrow> ret False
         | Some rv \<Rightarrow>
             seq_act (lift_result (sign_commit env (wr_ikm req) (lthash_hash (se_sha256 env) set_hash) (space_uri space) author rv))
               (\<lambda>signed.
             seq_act (update_repo_state (wr_faults req) (n + 5)
                (st\<lparr>rs_lthash_state := lthash_as_bytes set_hash, rs_rev := Some (sc_rev signed),
                    rs_hash := Some (sc_hash signed), rs_ikm := Some (sc_ikm signed), rs_sig := Some (sc_sig signed),
                    rs_mac := Some (sc_mac signed)\<rparr>)) (\<lambda>_.
             seq_act (if policy = Advance
                then seq_act (update_space_revision (wr_faults req) (n + 6) space_id rv) (\<lambda>_.
                     seq_act (record_writer env (wr_faults req) (n + 7) (wr_now_micros req) (generate_tid (wr_space_tid req))
                       (wr_now req) space_id author rv (sc_hash signed)) (\<lambda>_. ret ()))
                else replace_hash (wr_faults req) (n + 6) (wr_now req) space_id author rv (sc_hash signed)) (\<lambda>_.
             ret True))))))"

text \<open>
  The one-time rebuild at start. \<open>marked\<close> says whether it has completed before; the new value of the
  marker is the second component of the result.
\<close>

definition run_commit_format_rebuild :: "space_env \<Rightarrow> write_request \<Rightarrow> bool \<Rightarrow> (nat option \<times> bool) space_act" where
  "run_commit_format_rebuild env req marked =
     seq_act (query (wr_faults req) 0 (internal ''failed to read rebuild marker'') (\<lambda>_. marked)) (\<lambda>existing.
     if existing then ret (None, True)
     else transaction (
       seq_act (query (wr_faults req) 100 (internal ''failed to begin transaction'') (\<lambda>_. ())) (\<lambda>_.
       seq_act (query (wr_faults req) 1 (internal ''failed to load repo states'')
          (\<lambda>db. map (\<lambda>s. (rs_space_id s, rs_author_did s)) (filter (\<lambda>s. rs_hash s \<noteq> None) (sd_repos db)))) (\<lambda>repos.
       seq_act (collect_act (\<lambda>k (sid, author). rebuild_repo_state env req (1000 * (k + 1)) sid author Preserve) 0 repos) (\<lambda>rebuilt.
       seq_act (query (wr_faults req) 2 (internal ''failed to write rebuild marker'') (\<lambda>_. ())) (\<lambda>_.
       seq_act (query (wr_faults req) 102 (internal ''failed to commit rebuild'') (\<lambda>_. ())) (\<lambda>_.
       ret (Some (length (filter (\<lambda>b. b) rebuilt)), True))))))))"

end
