(* ===== verification/Spec2Isabelle.thy ===== *)
theory Spec2Isabelle
  imports Linked_Scope Scope_Check Job_Listing Job_Clock Stream_Cursor Retry Registry_Properties Limits Admin_Properties Space_Writes
begin

text \<open>
  HappyView is an AT Protocol AppView: a server that takes records from the network's event stream,
  stores them, answers requests over them with scripts and WebAssembly plugins, writes to linked
  repositories on behalf of an operator, hosts permissioned spaces, and is run over an admin API. This
  development models the parts of it that decide something: what a granted scope allows, who may do what
  over the admin API, which worker may write a job's outcome, how far the stream has been applied, when
  failed work is retried, in which order plugins load and which may be installed or removed, what the
  hosting limits admit, and the identifiers and set hashes of spaces.

  Conventions. A Rust \<open>str\<close> is the list of its UTF-8 bytes, compared bytewise; \<open>Result\<close> is a sum with
  \<open>Err\<close> on the left; integers are words where their width matters and \<open>int\<close> or \<open>nat\<close> elsewhere.
  Third-party code is an argument of the definitions that use it (percent decoding, semver, SHA-256,
  BLAKE3, RFC 3339, serde), with what a property needs of it as a hypothesis that its witness discharges.
  Database code is a list of rows per table; a statement is atomic, statements are numbered, and a
  function from numbers to errors says which fail, so a theorem over all such functions covers a failure
  at any point. Clocks, fresh identifiers and answers of the network are arguments.

  \<^bold>\<open>Shared theories.\<close>
  \<^item> Prelude: the \<open>str\<close> operations the sources use, JSON values, lemma collections.
  \<^item> Decimal: decimal text of \<open>i64\<close>, with \<open>parse_i64\<close> inverse to \<open>show_int\<close>.
  \<^item> App\_Error: the errors of src/error.rs. Actions: handlers as actions on tables, \<open>retry_on_busy\<close>
    (crates/happyview-provider/src/db.rs, a total function by a measure on the attempts left) and a
    program logic with one postcondition for success and one for failure.

  \<^bold>\<open>Scopes.\<close>
  \<^item> Nsid (crates/happyview-nsid/src/lib.rs): NSIDs and patterns; the executable matcher decides the
    language of the regular expression.
  \<^item> Scope\_Syntax, Scope\_Resources, Scope\_Include, Scope\_Permissions (crates/happyview-scopes, files
    syntax.rs, resources.rs, include.rs, lib.rs): a scope string parses to what it prints; the parsers and
    matchers of the six resources; a permission set never leaves the authority of its NSID; whatever
    \<open>covers_scope\<close> accepts grants nothing beyond the held set, resource by resource, and the one wildcard
    for which this fails. The locale \<open>scope_resource\<close> states the question asked of every resource and is
    interpreted on all six; \<open>url_decoder\<close> states percent decoding.
  \<^item> Linked\_Scope (src/linked\_repos/scope.rs and the guards of pds.rs) and Scope\_Check
    (src/xrpc/scope\_check.rs): operator scopes of linked repositories, and the permissions a proxied
    request needs before it is forwarded.

  \<^bold>\<open>Jobs.\<close>
  \<^item> Jobs (src/jobs/db.rs, held.rs, worker.rs, mod.rs and src/admin/jobs.rs): the table, every statement,
    the lease a run holds, operator requests.
  \<^item> Job\_Steps: every operation refines a relation on one row, so the table invariant, the finality of
    finished jobs, the fencing of lost leases and the uniqueness of leases hold in every interleaving.
  \<^item> Job\_Listing: following the cursors of a listing takes a number of pages as fuel; one more than there
    are jobs is enough, and shows every job once when creation times differ. With equal times it can lose
    jobs.

  \<^bold>\<open>Event stream\<close> (crates/happyview-source-jetstream).
  \<^item> Watermark (consumer/watermark.rs, event.rs): the watermark is the longest finished prefix of the
    tickets handed out, whatever order they finish in. Stream\_Cursor (consumer/cursor.rs): the stored
    position.
  \<^item> Retry (backfill/retry.rs): backoff, host cooldowns, deferred work. Draining takes a
    number of turns as fuel; one more than the time units to the earliest gate is enough to reach a retry.

  \<^bold>\<open>Plugins.\<close>
  \<^item> Plugin\_Graph (src/plugin/graph.rs), Plugin\_Order: \<open>load_order\<close> and the search for a cycle take fuel,
    the number of nodes plus one; with distinct identifiers it never runs out, and the result lists every
    plugin once after its dependencies or names a cycle.
  \<^item> Plugin\_Types (types.rs), Prepared\_Cache (prepared.rs), Plugin\_Registry (mod.rs), Registry\_Invariant,
    Registry\_Properties: install, uninstall, batches and cached artifacts; what holds in every registry
    they build.

  \<^bold>\<open>Limits and the admin API.\<close>
  \<^item> Limits (crates/happyview-provider/src/limits.rs, src/limits.rs): ceilings, and the reload of the
    limits file, which keeps the last good one.
  \<^item> Admin\_Permissions (src/admin/permissions.rs): permissions, catalogue, templates.
  \<^item> Admin\_Access (src/admin/auth.rs, users.rs, api\_keys.rs, platform.rs, src/auth/admin\_scope.rs):
    authentication and every handler of users, keys and the owner, with the keys and foreign keys of the
    three tables.
  \<^item> Admin\_Logic: the locales \<open>table_law\<close> and \<open>grant_law\<close>, what a predicate on the tables must satisfy
    to be kept by the handlers. Admin\_Invariant interprets \<open>grant_law\<close> for the invariant (keys, foreign
    keys, an owner as soon as there is a user) and Admin\_Properties for the bound on what principals hold.
    Admin\_Properties also has the interleaving of a deletion with a transfer that leaves no owner.

  \<^bold>\<open>Spaces.\<close>
  \<^item> Tid (crates/happyview-plugin-sdk/src/tid.rs): the codec of timestamp identifiers and its order.
  \<^item> Set\_Hash (src/spaces/lthash.rs): the homomorphic hash of a repo's records; its state is determined
    by how often each element was added and removed, modulo 65536.

  \<^bold>\<open>Not modelled.\<close> Running WebAssembly and scripts, the HTTP server and proxying, OAuth token exchange and
  signatures, DID resolution, lexicon validation and record storage are calls to engines, other servers or
  generated SQL, whose behaviour is not in these sources. Of spaces, membership, credentials,
  notifications, synchronisation and the writing of records are not modelled. Of the modelled files, what is left out is
  logging, metrics, the polling loops around the modelled turns and the decoding of JSON bodies.
\<close>

end
